theory Spec2Isabelle
  imports Complex_Main "HOL-Library.Sublist" "HOL-Library.Multiset"
begin

section \<open>Python strings\<close>

text \<open>
  A Python \<open>str\<close> is modelled as a \<open>string\<close>; a \<open>char\<close> stands for a code point below
  256. The character classes below are those of CPython on that range: \<open>str.isspace\<close>
  (also used by \<open>str.strip()\<close>, \<open>str.split()\<close> and the regex class \<open>\s\<close>), the regex
  class \<open>\w\<close>, and \<open>str.lower\<close>. \<open>x in s\<close> on strings is \<^const>\<open>sublist\<close>,
  \<open>s.startswith(x)\<close> is \<^const>\<open>prefix\<close>, \<open>s.endswith(x)\<close> is \<^const>\<open>suffix\<close>.
\<close>

definition ord :: "char \<Rightarrow> nat" where
  "ord c = of_char c"

definition py_isspace :: "char \<Rightarrow> bool" where
  "py_isspace c =
     (let n = ord c in (9 \<le> n \<and> n \<le> 13) \<or> (28 \<le> n \<and> n \<le> 32) \<or> n = 133 \<or> n = 160)"

definition upper_letters :: string where
  "upper_letters = ''ABCDEFGHIJKLMNOPQRSTUVWXYZ'' @
     [CHR 0xC0, CHR 0xC1, CHR 0xC2, CHR 0xC3, CHR 0xC4, CHR 0xC5, CHR 0xC6, CHR 0xC7,
      CHR 0xC8, CHR 0xC9, CHR 0xCA, CHR 0xCB, CHR 0xCC, CHR 0xCD, CHR 0xCE, CHR 0xCF,
      CHR 0xD0, CHR 0xD1, CHR 0xD2, CHR 0xD3, CHR 0xD4, CHR 0xD5, CHR 0xD6,
      CHR 0xD8, CHR 0xD9, CHR 0xDA, CHR 0xDB, CHR 0xDC, CHR 0xDD, CHR 0xDE]"

definition lower_letters :: string where
  "lower_letters = ''abcdefghijklmnopqrstuvwxyz'' @
     [CHR 0xE0, CHR 0xE1, CHR 0xE2, CHR 0xE3, CHR 0xE4, CHR 0xE5, CHR 0xE6, CHR 0xE7,
      CHR 0xE8, CHR 0xE9, CHR 0xEA, CHR 0xEB, CHR 0xEC, CHR 0xED, CHR 0xEE, CHR 0xEF,
      CHR 0xF0, CHR 0xF1, CHR 0xF2, CHR 0xF3, CHR 0xF4, CHR 0xF5, CHR 0xF6,
      CHR 0xF8, CHR 0xF9, CHR 0xFA, CHR 0xFB, CHR 0xFC, CHR 0xFD, CHR 0xFE]"

definition lower_char :: "char \<Rightarrow> char" where
  "lower_char c = (case map_of (zip upper_letters lower_letters) c of None \<Rightarrow> c | Some d \<Rightarrow> d)"

text \<open>\<open>s.lower()\<close>\<close>

definition py_lower :: "string \<Rightarrow> string" where
  "py_lower s = map lower_char s"

text \<open>\<open>s.split()\<close>: the maximal runs of non-whitespace characters, in order.\<close>

fun split_acc :: "string \<Rightarrow> string \<Rightarrow> string list" where
  "split_acc cur [] = (if cur = [] then [] else [cur])"
| "split_acc cur (c # cs) =
     (if py_isspace c then (if cur = [] then split_acc [] cs else cur # split_acc [] cs)
      else split_acc (cur @ [c]) cs)"

definition py_split :: "string \<Rightarrow> string list" where
  "py_split s = split_acc [] s"

text \<open>
  \<open>s.count(sub)\<close>: the number of non-overlapping occurrences of \<open>sub\<close>, scanning from the
  left; after a hit the scan resumes behind it (\<open>skip\<close> counts the characters still to
  pass over). An empty \<open>sub\<close> is counted \<open>len(s) + 1\<close> times.
\<close>

fun count_from :: "nat \<Rightarrow> string \<Rightarrow> string \<Rightarrow> nat" where
  "count_from skip sub [] = 0"
| "count_from skip sub (c # cs) =
     (if 0 < skip then count_from (skip - 1) sub cs
      else if prefix sub (c # cs) then 1 + count_from (length sub - 1) sub cs
      else count_from 0 sub cs)"

definition py_count :: "string \<Rightarrow> string \<Rightarrow> nat" where
  "py_count s sub = (if sub = [] then length s + 1 else count_from 0 sub s)"

text \<open>A \<open>dict\<close> with string keys and string values, and \<open>d.get(k, default)\<close>.\<close>

type_synonym pydict = "string \<rightharpoonup> string"

definition dict_get :: "pydict \<Rightarrow> string \<Rightarrow> string \<Rightarrow> string" where
  "dict_get d k dflt = (case d k of None \<Rightarrow> dflt | Some v \<Rightarrow> v)"

section \<open>The search engine: custom relevance score\<close>

text \<open>
  \<open>calculate_custom_score\<close> of \<open>sqlite_search_engine.py\<close>. The score is a Python float; it
  is modelled by a real number. The field weights and every product \<open>tf * weight\<close> are
  multiples of \<open>0.5\<close>, which floats add exactly; the boost factor is the real \<open>1.2\<close>.
\<close>

definition field_weights :: "(string \<times> real) list" where
  "field_weights = [(''title'', 3), (''abstract'', 2), (''claims'', 3 / 2), (''description'', 1)]"

text \<open>The inner loop \<open>for term in query_terms\<close>, threading \<open>score\<close>.\<close>

fun score_terms :: "string \<Rightarrow> real \<Rightarrow> string list \<Rightarrow> real \<Rightarrow> real" where
  "score_terms field_text weight [] score = score"
| "score_terms field_text weight (term # terms) score =
     (let tf = py_count field_text term
      in score_terms field_text weight terms
           (if 0 < tf then score + real tf * weight else score))"

text \<open>The outer loop \<open>for field, weight in field_weights.items()\<close>.\<close>

fun score_fields :: "pydict \<Rightarrow> string list \<Rightarrow> (string \<times> real) list \<Rightarrow> real \<Rightarrow> real" where
  "score_fields patent query_terms [] score = score"
| "score_fields patent query_terms ((field, weight) # fws) score =
     (let field_text = py_lower (dict_get patent field '''')
      in score_fields patent query_terms fws
           (if field_text \<noteq> [] then score_terms field_text weight query_terms score else score))"

definition boosted_categories :: "string list" where
  "boosted_categories = [''artificial_intelligence'', ''telecommunications'']"

definition is_boosted :: "pydict \<Rightarrow> bool" where
  "is_boosted patent = (case patent ''category'' of None \<Rightarrow> False | Some c \<Rightarrow> c \<in> set boosted_categories)"

definition calculate_custom_score :: "pydict \<Rightarrow> string \<Rightarrow> real" where
  "calculate_custom_score patent original_query =
     (let query_terms = py_split (py_lower original_query);
          score = score_fields patent query_terms field_weights 0
      in if is_boosted patent then score * (12 / 10) else score)"

text \<open>
  The score as the specification words it: the sum over the weighted fields and over the
  query terms of (occurrences of the term in the field) times (weight of the field),
  times \<open>1.2\<close> for a boosted category.
\<close>

definition weighted_sum :: "pydict \<Rightarrow> string \<Rightarrow> real" where
  "weighted_sum patent original_query =
     (\<Sum>(field, weight) \<leftarrow> field_weights.
        \<Sum>term \<leftarrow> py_split (py_lower original_query).
          real (py_count (py_lower (dict_get patent field '''')) term) * weight)"

definition spec_score :: "pydict \<Rightarrow> string \<Rightarrow> real" where
  "spec_score patent original_query =
     weighted_sum patent original_query * (if is_boosted patent then 12 / 10 else 1)"

section \<open>The parser: date normalizer and categorizer\<close>

text \<open>\<open>str(n)\<close> of a non-negative integer: its decimal digits.\<close>

definition digit_char :: "nat \<Rightarrow> char" where
  "digit_char d = ''0123456789'' ! d"

fun str_nat :: "nat \<Rightarrow> string" where
  "str_nat n = (if n < 10 then [digit_char n] else str_nat (n div 10) @ [digit_char (n mod 10)])"

declare str_nat.simps [simp del]

text \<open>
  The argument of \<open>format_date\<close> is any Python \<open>str\<close>, so here a string is the list of
  its code points, each below \<open>0x110000\<close>. On a \<open>str\<close> pattern the regex class \<open>\d\<close> is
  the class of the Unicode decimal digits (general category \<open>Nd\<close>): the ten code points
  that begin at each of the zero digits listed, from \<open>0\<close> to \<open>9\<close> in order (Unicode
  14.0, the database of CPython 3.11). The only ones below 256 are \<open>0\<close> to \<open>9\<close>.
\<close>

type_synonym ustring = "nat list"

definition ustr :: "string \<Rightarrow> ustring" where
  "ustr s = map ord s"

definition decimal_zeros :: "nat list" where
  "decimal_zeros =
     [0x30, 0x660, 0x6F0, 0x7C0, 0x966, 0x9E6, 0xA66, 0xAE6, 0xB66, 0xBE6, 0xC66,
      0xCE6, 0xD66, 0xDE6, 0xE50, 0xED0, 0xF20, 0x1040, 0x1090, 0x17E0, 0x1810, 0x1946,
      0x19D0, 0x1A80, 0x1A90, 0x1B50, 0x1BB0, 0x1C40, 0x1C50, 0xA620, 0xA8D0, 0xA900,
      0xA9D0, 0xA9F0, 0xAA50, 0xABF0, 0xFF10, 0x104A0, 0x10D30, 0x11066, 0x110F0,
      0x11136, 0x111D0, 0x112F0, 0x11450, 0x114D0, 0x11650, 0x116C0, 0x11730, 0x118E0,
      0x11950, 0x11C50, 0x11D50, 0x11DA0, 0x16A60, 0x16AC0, 0x16B50, 0x1D7CE, 0x1D7D8,
      0x1D7E2, 0x1D7EC, 0x1D7F6, 0x1E140, 0x1E2F0, 0x1E950, 0x1FBF0]"

definition is_decimal :: "nat \<Rightarrow> bool" where
  "is_decimal n = list_ex (\<lambda>z. z \<le> n \<and> n < z + 10) decimal_zeros"

text \<open>
  \<open>format_date\<close> of \<open>parser.py\<close>. \<open>re.sub(r'[^\d]', '', date_str)\<close> keeps the characters of
  the class \<open>\d\<close>; the slices \<open>[:4]\<close>, \<open>[4:6]\<close>, \<open>[6:8]\<close> are \<open>take\<close> after \<open>drop\<close>. The
  body of the \<open>try\<close> raises nothing on a string, so the function has no error result;
  \<open>datetime.now().year\<close> is the parameter \<open>current_year\<close>.
\<close>

definition format_date :: "nat \<Rightarrow> ustring \<Rightarrow> ustring" where
  "format_date current_year date_str =
     (let date_str = filter is_decimal date_str
      in if 8 \<le> length date_str then
           (let year = take 4 date_str; month = take 2 (drop 4 date_str);
                day = take 2 (drop 6 date_str)
            in year @ ustr ''-'' @ month @ ustr ''-'' @ day)
         else if 6 \<le> length date_str then
           (let year = take 4 date_str; month = take 2 (drop 4 date_str)
            in year @ ustr ''-'' @ month @ ustr ''-01'')
         else if 4 \<le> length date_str then
           (let year = take 4 date_str in year @ ustr ''-01-01'')
         else ustr (str_nat current_year) @ ustr ''-01-01'')"

text \<open>
  The shape \<open>DDDD-DD-DD\<close> of an ISO 8601 calendar date, \<open>D\<close> one of the digits \<open>0\<close> to
  \<open>9\<close> (code points 48 to 57) and \<open>-\<close> the hyphen (code point 45).
\<close>

definition ascii_digit :: "nat \<Rightarrow> bool" where
  "ascii_digit n = (48 \<le> n \<and> n \<le> 57)"

definition iso_date_shaped :: "ustring \<Rightarrow> bool" where
  "iso_date_shaped s =
     (length s = 10 \<and> list_all ascii_digit (take 4 s) \<and> s ! 4 = 45 \<and>
      list_all ascii_digit (take 2 (drop 5 s)) \<and> s ! 7 = 45 \<and>
      list_all ascii_digit (drop 8 s))"

text \<open>
  \<open>c.upper()\<close> of one character. The three characters of the range whose upper case is
  not a single character of the range (\<open>0xB5\<close>, \<open>0xDF\<close>, \<open>0xFF\<close>) are left as they are:
  neither they nor their upper case are keys of \<open>ipc_categories\<close>.
\<close>

definition upper_char :: "char \<Rightarrow> char" where
  "upper_char c = (case map_of (zip lower_letters upper_letters) c of None \<Rightarrow> c | Some d \<Rightarrow> d)"

text \<open>\<open>categorize_patent\<close> of \<open>parser.py\<close>; both dicts keep their insertion order.\<close>

definition ipc_categories :: "(char \<times> string) list" where
  "ipc_categories =
     [(CHR ''A'', ''human_necessities''),
      (CHR ''B'', ''performing_operations''),
      (CHR ''C'', ''chemistry_metallurgy''),
      (CHR ''D'', ''textiles_paper''),
      (CHR ''E'', ''fixed_constructions''),
      (CHR ''F'', ''mechanical_engineering''),
      (CHR ''G'', ''physics''),
      (CHR ''H'', ''electricity'')]"

definition specific_patterns :: "(string \<times> string list) list" where
  "specific_patterns =
     [(''artificial_intelligence'', [''G06N'', ''AI'', ''machine learning'', ''neural network'']),
      (''telecommunications'', [''H04'', ''communication'', ''wireless'', ''network'']),
      (''biotechnology'', [''C12'', ''A61'', ''genetic'', ''biological'', ''medical'']),
      (''semiconductors'', [''H01L'', ''semiconductor'', ''transistor'', ''chip'']),
      (''automotive'', [''B60'', ''vehicle'', ''automotive'', ''car'']),
      (''energy'', [''H02'', ''F03'', ''solar'', ''battery'', ''energy''])]"

text \<open>The inner loop \<open>for pattern in patterns\<close>; \<open>Some\<close> is the early \<open>return category\<close>.\<close>

fun scan_patterns :: "string \<Rightarrow> string \<Rightarrow> string \<Rightarrow> string list \<Rightarrow> string option" where
  "scan_patterns title_lower ipc_class category [] = None"
| "scan_patterns title_lower ipc_class category (pattern # patterns) =
     (if sublist (py_lower pattern) title_lower \<or> sublist pattern ipc_class then Some category
      else scan_patterns title_lower ipc_class category patterns)"

text \<open>The outer loop \<open>for category, patterns in specific_patterns.items()\<close>.\<close>

fun scan_categories :: "string \<Rightarrow> string \<Rightarrow> (string \<times> string list) list \<Rightarrow> string option" where
  "scan_categories title_lower ipc_class [] = None"
| "scan_categories title_lower ipc_class ((category, patterns) # rest) =
     (case scan_patterns title_lower ipc_class category patterns of
        Some c \<Rightarrow> Some c
      | None \<Rightarrow> scan_categories title_lower ipc_class rest)"

definition categorize_patent :: "string \<Rightarrow> string \<Rightarrow> string" where
  "categorize_patent ipc_class title =
     (let ipc_class = (if ipc_class = [] then ''G06F'' else ipc_class);
          title_lower = py_lower title
      in case scan_categories title_lower ipc_class specific_patterns of
           Some category \<Rightarrow> category
         | None \<Rightarrow>
             (let first_char = upper_char (hd ipc_class)
              in case map_of ipc_categories first_char of
                   Some c \<Rightarrow> c
                 | None \<Rightarrow> ''other''))"

text \<open>
  The categorizer as the specification words it: the first specific category one of
  whose triggers occurs in the lower-cased title (the trigger lower-cased too) or in the
  classification code; else the broad category of the code's first letter; else
  \<open>other\<close>.
\<close>

definition trigger_hit :: "string \<Rightarrow> string \<Rightarrow> string list \<Rightarrow> bool" where
  "trigger_hit title ipc_class patterns =
     list_ex (\<lambda>p. sublist (py_lower p) (py_lower title) \<or> sublist p ipc_class) patterns"

definition broad_category :: "string \<Rightarrow> string" where
  "broad_category ipc_class =
     (case map_of ipc_categories (upper_char (hd ipc_class)) of Some c \<Rightarrow> c | None \<Rightarrow> ''other'')"

definition spec_categorize :: "string \<Rightarrow> string \<Rightarrow> string" where
  "spec_categorize ipc_class title =
     (let code = (if ipc_class = [] then ''G06F'' else ipc_class)
      in case find (\<lambda>(category, patterns). trigger_hit title code patterns) specific_patterns of
           Some (category, patterns) \<Rightarrow> category
         | None \<Rightarrow> broad_category code)"

section \<open>The search engine: database, index rebuild, search\<close>

text \<open>
  Errors of \<open>sqlite_search_engine.py\<close> as values: the \<open>ValueError\<close> it raises itself, and
  the two kinds of \<open>sqlite3\<close> exception that its statements can raise.
\<close>

datatype error = ValueError | IntegrityError | OperationalError

text \<open>The table \<open>patents\<close> of \<open>init_database\<close>, one field for each column.\<close>

record patent_row =
  col_id :: string
  col_title :: string
  col_abstract :: string
  col_description :: string
  col_claims :: string
  col_assignee :: string
  col_inventors :: string
  col_application_date :: string
  col_publication_date :: string
  col_ipc_class :: string
  col_ipc_classes :: string
  col_category :: string
  col_content_vector :: string

text \<open>An entry of the full-text index \<open>patents_fts\<close>: the column values it was built from.\<close>

record fts_doc =
  fts_id :: string
  fts_title :: string
  fts_abstract :: string
  fts_description :: string
  fts_claims :: string
  fts_assignee :: string
  fts_inventors :: string
  fts_ipc_class :: string
  fts_category :: string

text \<open>
  The database: the rows of \<open>patents\<close> in insertion (rowid) order, which is the order of a
  table scan, and the entries of the derived index \<open>patents_fts\<close>.
\<close>

record database =
  patents :: "patent_row list"
  patents_fts :: "fts_doc list"

definition init_database :: database where
  "init_database = \<lparr>patents = [], patents_fts = []\<rparr>"

text \<open>
  The triggers of \<open>init_database\<close>. \<open>patents_fts_insert\<close> runs after an insert on \<open>patents\<close>
  and adds the new row's values to the index. \<open>patents_fts_update\<close> runs after an update;
  no statement of the program updates a row. The schema declares no trigger for deletes.
\<close>

definition patents_fts_insert :: "patent_row \<Rightarrow> database \<Rightarrow> database" where
  "patents_fts_insert new db =
     db\<lparr>patents_fts := patents_fts db @
       [\<lparr>fts_id = col_id new, fts_title = col_title new, fts_abstract = col_abstract new,
         fts_description = col_description new, fts_claims = col_claims new,
         fts_assignee = col_assignee new, fts_inventors = col_inventors new,
         fts_ipc_class = col_ipc_class new, fts_category = col_category new\<rparr>]\<rparr>"

text \<open>
  \<open>INSERT INTO patents (...) VALUES (...)\<close>: \<open>id\<close> is the primary key, so a second row with
  the same \<open>id\<close> is refused; an accepted row fires the insert trigger.
\<close>

definition insert_patent :: "patent_row \<Rightarrow> database \<Rightarrow> error + database" where
  "insert_patent new db =
     (if col_id new \<in> set (map col_id (patents db)) then Inl IntegrityError
      else Inr (patents_fts_insert new (db\<lparr>patents := patents db @ [new]\<rparr>)))"

text \<open>\<open>DELETE FROM patents\<close>: every row of the table goes; no trigger fires.\<close>

definition delete_from_patents :: "database \<Rightarrow> database" where
  "delete_from_patents db = db\<lparr>patents := []\<rparr>"

text \<open>
  A record handed to \<open>index_patents\<close>: a dict, each key present or not. The values under
  the text keys are strings and those under \<open>inventors\<close> and \<open>ipc_classes\<close> lists of
  strings, as the parser writes them.
\<close>

record patent_input =
  in_id :: "string option"
  in_title :: "string option"
  in_abstract :: "string option"
  in_description :: "string option"
  in_claims :: "string option"
  in_assignee :: "string option"
  in_inventors :: "string list option"
  in_application_date :: "string option"
  in_publication_date :: "string option"
  in_ipc_class :: "string option"
  in_ipc_classes :: "string list option"
  in_category :: "string option"

definition get_or :: "'a option \<Rightarrow> 'a \<Rightarrow> 'a" where
  "get_or v dflt = (case v of None \<Rightarrow> dflt | Some x \<Rightarrow> x)"

text \<open>\<open>sep.join(xs)\<close>\<close>

fun py_join :: "string \<Rightarrow> string list \<Rightarrow> string" where
  "py_join sep [] = []"
| "py_join sep [x] = x"
| "py_join sep (x # y # ys) = x @ sep @ py_join sep (y # ys)"

text \<open>
  \<open>json.dumps\<close> of a list of strings and of a list of numbers, with the default
  \<open>ensure_ascii\<close>: a character outside the printable ASCII range is written \<open>\u00XX\<close>.
\<close>

definition dq :: char where
  "dq = CHR 0x22"

definition backslash :: char where
  "backslash = CHR 0x5C"

definition hex_digit :: "nat \<Rightarrow> char" where
  "hex_digit d = ''0123456789abcdef'' ! d"

definition json_escape :: "char \<Rightarrow> string" where
  "json_escape c =
     (let n = ord c in
      if c = dq then [backslash, dq]
      else if c = backslash then [backslash, backslash]
      else if n = 10 then [backslash, CHR ''n'']
      else if n = 13 then [backslash, CHR ''r'']
      else if n = 9 then [backslash, CHR ''t'']
      else if n = 12 then [backslash, CHR ''f'']
      else if n = 8 then [backslash, CHR ''b'']
      else if 32 \<le> n \<and> n \<le> 126 then [c]
      else [backslash, CHR ''u'', CHR ''0'', CHR ''0'', hex_digit (n div 16), hex_digit (n mod 16)])"

definition json_string :: "string \<Rightarrow> string" where
  "json_string s = [dq] @ concat (map json_escape s) @ [dq]"

definition json_dumps_strings :: "string list \<Rightarrow> string" where
  "json_dumps_strings xs = ''['' @ py_join '', '' (map json_string xs) @ '']''"

definition json_dumps_nats :: "nat list \<Rightarrow> string" where
  "json_dumps_nats xs = ''['' @ py_join '', '' (map str_nat xs) @ '']''"

text \<open>\<open>count_tech_terms\<close> and \<open>create_simple_vector\<close>.\<close>

definition tech_terms :: "string list" where
  "tech_terms =
     [''system'', ''method'', ''apparatus'', ''device'', ''process'',
      ''invention'', ''embodiment'', ''implementation'', ''technology'',
      ''algorithm'', ''network'', ''computer'', ''software'', ''hardware'']"

definition count_tech_terms :: "string \<Rightarrow> nat" where
  "count_tech_terms text_in =
     (let text_lower = py_lower text_in
      in sum_list (map (\<lambda>term. py_count text_lower term) tech_terms))"

definition create_simple_vector :: "patent_input \<Rightarrow> string" where
  "create_simple_vector patent =
     (let text_in = get_or (in_title patent) '''' @ '' '' @ get_or (in_abstract patent) '''' @
                    '' '' @ get_or (in_claims patent) '''';
          word_count = length (py_split text_in);
          char_count = length text_in;
          tech = count_tech_terms text_in
      in json_dumps_nats [word_count, char_count, tech])"

text \<open>The tuple of values bound by the insert statement for the \<open>i\<close>-th record.\<close>

definition row_of_input :: "nat \<Rightarrow> patent_input \<Rightarrow> patent_row" where
  "row_of_input i patent =
     (let inventors_json = json_dumps_strings (get_or (in_inventors patent) []);
          ipc_classes_json = json_dumps_strings (get_or (in_ipc_classes patent) []);
          content_vector = create_simple_vector patent
      in \<lparr>col_id = get_or (in_id patent) (''patent_'' @ str_nat i),
          col_title = get_or (in_title patent) '''',
          col_abstract = get_or (in_abstract patent) '''',
          col_description = get_or (in_description patent) '''',
          col_claims = get_or (in_claims patent) '''',
          col_assignee = get_or (in_assignee patent) '''',
          col_inventors = inventors_json,
          col_application_date = get_or (in_application_date patent) '''',
          col_publication_date = get_or (in_publication_date patent) '''',
          col_ipc_class = get_or (in_ipc_class patent) '''',
          col_ipc_classes = ipc_classes_json,
          col_category = get_or (in_category patent) '''',
          col_content_vector = content_vector\<rparr>)"

text \<open>
  \<open>index_patents\<close>, given the list of records. The loop \<open>for i, patent in
  enumerate(patents_data)\<close> catches the exception of a refused insert and goes on with
  the next record.
\<close>

fun insert_loop :: "nat \<Rightarrow> patent_input list \<Rightarrow> database \<Rightarrow> database" where
  "insert_loop i [] db = db"
| "insert_loop i (patent # rest) db =
     (case insert_patent (row_of_input i patent) db of
        Inl e \<Rightarrow> insert_loop (i + 1) rest db
      | Inr db' \<Rightarrow> insert_loop (i + 1) rest db')"

definition index_patents :: "patent_input list \<Rightarrow> database \<Rightarrow> database" where
  "index_patents patents_data db = insert_loop 0 patents_data (delete_from_patents db)"

text \<open>The entry \<open>total_patents\<close> of \<open>get_aggregations\<close>: \<open>SELECT COUNT(*) FROM patents\<close>.\<close>

definition total_patents :: "database \<Rightarrow> nat" where
  "total_patents db = length (patents db)"

text \<open>
  What the program takes from its libraries and does not define: the rows \<open>p.*\<close> of the
  join of \<open>patents_fts\<close> and \<open>patents\<close> that satisfy \<open>patents_fts MATCH ?\<close>, in the order of
  \<open>rank\<close>, or the error of a malformed match expression; and \<open>json.loads\<close> on the text of
  a list column, \<open>None\<close> when it raises.
\<close>

record library =
  fts_match_rows :: "string \<Rightarrow> database \<Rightarrow> error + patent_row list"
  json_loads :: "string \<Rightarrow> string list option"





text \<open>The regex class \<open>\w\<close>.\<close>

definition is_word :: "char \<Rightarrow> bool" where
  "is_word c =
     (let n = ord c in
        (48 \<le> n \<and> n \<le> 57) \<or> (65 \<le> n \<and> n \<le> 90) \<or> n = 95 \<or> (97 \<le> n \<and> n \<le> 122) \<or>
        n = 170 \<or> n = 178 \<or> n = 179 \<or> n = 181 \<or> n = 185 \<or> n = 186 \<or>
        (188 \<le> n \<and> n \<le> 190) \<or> (192 \<le> n \<and> n \<le> 214) \<or> (216 \<le> n \<and> n \<le> 246) \<or>
        (248 \<le> n \<and> n \<le> 255))"





text \<open>A result of \<open>search\<close>: the row, its two list columns parsed, and the score.\<close>

record search_result =
  res_row :: patent_row
  res_inventors :: "string list"
  res_ipc_classes :: "string list"
  res_score :: real

text \<open>\<open>dict(row)\<close>, restricted to the text columns.\<close>

definition row_dict :: "patent_row \<Rightarrow> pydict" where
  "row_dict r =
     [''id'' \<mapsto> col_id r, ''title'' \<mapsto> col_title r, ''abstract'' \<mapsto> col_abstract r,
      ''description'' \<mapsto> col_description r, ''claims'' \<mapsto> col_claims r,
      ''assignee'' \<mapsto> col_assignee r, ''application_date'' \<mapsto> col_application_date r,
      ''publication_date'' \<mapsto> col_publication_date r, ''ipc_class'' \<mapsto> col_ipc_class r,
      ''category'' \<mapsto> col_category r, ''content_vector'' \<mapsto> col_content_vector r]"

definition format_result :: "library \<Rightarrow> string \<Rightarrow> patent_row \<Rightarrow> search_result" where
  "format_result lib query row =
     \<lparr>res_row = row,
      res_inventors = (case json_loads lib (col_inventors row) of None \<Rightarrow> [] | Some xs \<Rightarrow> xs),
      res_ipc_classes = (case json_loads lib (col_ipc_classes row) of None \<Rightarrow> [] | Some xs \<Rightarrow> xs),
      res_score = calculate_custom_score (row_dict row) query\<rparr>"





section \<open>The parser: element trees and field extraction\<close>

text \<open>
  An \<open>xml.etree.ElementTree.Element\<close>: tag, text, children, tail, and the address of the
  object (\<open>id(elem)\<close>), which is no part of the document's content.
\<close>

datatype element =
  Element (el_tag: string) (el_text: "string option") (el_children: "element list")
    (el_tail: "string option") (el_addr: nat)

text \<open>\<open>elem.iter()\<close>: the element and its descendants in document order.\<close>

fun iter :: "element \<Rightarrow> element list" where
  "iter (Element tg tx cs tail a) = Element tg tx cs tail a # concat (map iter cs)"

text \<open>\<open>s.split(sep)\<close> for a separator of one character: empty pieces are kept.\<close>

fun split_on :: "char \<Rightarrow> string \<Rightarrow> string list" where
  "split_on sep [] = [[]]"
| "split_on sep (c # cs) =
     (if c = sep then [] # split_on sep cs
      else (case split_on sep cs of [] \<Rightarrow> [[c]] | x # xs \<Rightarrow> (c # x) # xs))"

text \<open>
  The paths of \<open>parser.py\<close> are of the form \<open>.//a\<close>, \<open>.//a/b\<close>, \<open>.//a//b\<close>, \<open>.//a//b/c\<close>: after
  the step \<open>.\<close> (the element itself), \<open>//a\<close> selects the descendants with tag \<open>a\<close> and \<open>/a\<close>
  the children with tag \<open>a\<close>. \<open>findall\<close> returns the selected elements in the order in
  which \<open>ElementPath\<close> generates them and \<open>find\<close> the first of them.
\<close>

datatype step = Child string | Descendant string

fun steps_of :: "string list \<Rightarrow> step list" where
  "steps_of [] = []"
| "steps_of ([] # name # rest) = Descendant name # steps_of rest"
| "steps_of (name # rest) = Child name # steps_of rest"

definition parse_path :: "string \<Rightarrow> step list" where
  "parse_path path =
     (case split_on CHR ''/'' path of
        [] \<Rightarrow> []
      | first # rest \<Rightarrow> if first = ''.'' then steps_of rest else steps_of (first # rest))"

definition select_step :: "element list \<Rightarrow> step \<Rightarrow> element list" where
  "select_step elems st =
     (case st of
        Child tg \<Rightarrow> concat (map (\<lambda>e. filter (\<lambda>c. el_tag c = tg) (el_children e)) elems)
      | Descendant tg \<Rightarrow>
          concat (map (\<lambda>e. filter (\<lambda>d. el_tag d = tg) (concat (map iter (el_children e)))) elems))"

definition findall :: "string \<Rightarrow> element \<Rightarrow> element list" where
  "findall path e = foldl select_step [e] (parse_path path)"

definition find_elem :: "string \<Rightarrow> element \<Rightarrow> element option" where
  "find_elem path e = (case findall path e of [] \<Rightarrow> None | x # xs \<Rightarrow> Some x)"

text \<open>\<open>s.strip()\<close>\<close>

definition py_strip :: "string \<Rightarrow> string" where
  "py_strip s = rev (dropWhile py_isspace (rev (dropWhile py_isspace s)))"

text \<open>
  \<open>clean_text\<close>. \<open>re.sub(r'\s+', ' ', s)\<close> puts one space for each maximal run of
  whitespace (\<open>in_run\<close>: the previous character was whitespace); the second substitution
  puts a space for every character outside the listed classes.
\<close>

fun collapse_ws :: "bool \<Rightarrow> string \<Rightarrow> string" where
  "collapse_ws in_run [] = []"
| "collapse_ws in_run (c # cs) =
     (if py_isspace c then (if in_run then collapse_ws True cs else CHR '' '' # collapse_ws True cs)
      else c # collapse_ws False cs)"

definition kept_char :: "char \<Rightarrow> bool" where
  "kept_char c = (is_word c \<or> py_isspace c \<or> c \<in> set ''-.,;:()[]'')"

definition clean_text :: "string \<Rightarrow> string" where
  "clean_text text_in =
     (if text_in = [] then []
      else (let t1 = collapse_ws False (py_strip text_in);
                t2 = map (\<lambda>c. if kept_char c then c else CHR '' '') t1
            in take 5000 t2))"

text \<open>\<open>extract_text_content\<close>, on an element that is not \<open>None\<close>.\<close>

definition stripped_if_any :: "string option \<Rightarrow> string list" where
  "stripped_if_any t = (case t of None \<Rightarrow> [] | Some s \<Rightarrow> if s = [] then [] else [py_strip s])"

fun extract_text_content :: "element \<Rightarrow> string" where
  "extract_text_content (Element tg tx cs tail a) =
     py_join '' '' (filter (\<lambda>t. t \<noteq> [])
       (stripped_if_any tx @
        concat (map (\<lambda>child.
                  (let child_text = extract_text_content child
                   in if child_text \<noteq> [] then [child_text] else []) @
                  stripped_if_any (el_tail child)) cs)))"

text \<open>\<open>find_element_flexible\<close>: the first path that finds an element.\<close>

fun find_element_flexible :: "element \<Rightarrow> string list \<Rightarrow> element option" where
  "find_element_flexible root_elem [] = None"
| "find_element_flexible root_elem (path # paths) =
     (case find_elem path root_elem of
        Some element \<Rightarrow> Some element
      | None \<Rightarrow> find_element_flexible root_elem paths)"

text \<open>
  What a run of the parser takes from its surroundings: \<open>datetime.now().year\<close> and the
  built-in \<open>hash\<close> on strings, which CPython salts anew in every process.
\<close>

record env =
  current_year :: nat
  py_hash :: "string \<Rightarrow> int"

text \<open>
  \<open>str(elem)\<close> is \<open><Element 'tag' at 0x...>\<close>, the address in hexadecimal; the tag is
  an XML name, which \<open>repr\<close> puts between single quotes unchanged.
\<close>

fun hex_nat :: "nat \<Rightarrow> string" where
  "hex_nat n = (if n < 16 then [hex_digit n] else hex_nat (n div 16) @ [hex_digit (n mod 16)])"

declare hex_nat.simps [simp del]

definition str_element :: "element \<Rightarrow> string" where
  "str_element e = ''<Element '' @ [CHR 0x27] @ el_tag e @ [CHR 0x27] @ '' at 0x'' @ hex_nat (el_addr e) @ ''>''"

definition str_int :: "int \<Rightarrow> string" where
  "str_int i = (if i < 0 then ''-'' @ str_nat (nat (- i)) else str_nat (nat i))"

text \<open>\<open>extract_patent_id\<close>\<close>

definition id_paths :: "string list" where
  "id_paths =
     [''.//document-id/doc-number'',
      ''.//publication-reference//doc-number'',
      ''.//application-reference//doc-number'',
      ''.//subdoc-bibliographic-information//document-id/doc-number'',
      ''.//patent-number'',
      ''.//application-number'']"

fun scan_id_paths :: "element \<Rightarrow> string list \<Rightarrow> string option" where
  "scan_id_paths patent_elem [] = None"
| "scan_id_paths patent_elem (path # paths) =
     (case find_elem path patent_elem of
        None \<Rightarrow> scan_id_paths patent_elem paths
      | Some id_elem \<Rightarrow>
          (case el_text id_elem of
             None \<Rightarrow> scan_id_paths patent_elem paths
           | Some t \<Rightarrow>
               if t \<noteq> [] \<and> py_strip t \<noteq> [] then Some (py_strip t)
               else scan_id_paths patent_elem paths))"

definition extract_patent_id :: "env \<Rightarrow> element \<Rightarrow> string" where
  "extract_patent_id ev patent_elem =
     (case scan_id_paths patent_elem id_paths of
        Some patent_id \<Rightarrow> patent_id
      | None \<Rightarrow> take 15 (''PATENT_'' @ str_int (py_hash ev (str_element patent_elem))))"

text \<open>
  A path yields an identifier for an element when it finds an element whose text is not
  empty after stripping.
\<close>

definition path_yields_text :: "element \<Rightarrow> string \<Rightarrow> bool" where
  "path_yields_text e path =
     (case find_elem path e of
        None \<Rightarrow> False
      | Some x \<Rightarrow> (case el_text x of None \<Rightarrow> False | Some t \<Rightarrow> py_strip t \<noteq> []))"

text \<open>\<open>extract_assignee_robust\<close>; \<open>f"{x}"\<close> of \<open>None\<close> is \<open>None\<close>.\<close>

definition str_opt :: "string option \<Rightarrow> string" where
  "str_opt t = (case t of None \<Rightarrow> ''None'' | Some s \<Rightarrow> s)"

fun scan_org_paths :: "element \<Rightarrow> string list \<Rightarrow> string option" where
  "scan_org_paths assignee_elem [] = None"
| "scan_org_paths assignee_elem (org_path # org_paths) =
     (case find_elem org_path assignee_elem of
        None \<Rightarrow> scan_org_paths assignee_elem org_paths
      | Some org_elem \<Rightarrow>
          (case el_text org_elem of
             None \<Rightarrow> scan_org_paths assignee_elem org_paths
           | Some t \<Rightarrow> if t \<noteq> [] then Some (py_strip t) else scan_org_paths assignee_elem org_paths))"

definition person_name :: "element \<Rightarrow> string option" where
  "person_name elem =
     (case (find_elem ''.//first-name'' elem, find_elem ''.//last-name'' elem) of
        (Some first_name, Some last_name) \<Rightarrow>
          Some (py_strip (str_opt (el_text first_name) @ '' '' @ str_opt (el_text last_name)))
      | _ \<Rightarrow> None)"

fun scan_assignee_paths :: "element \<Rightarrow> string list \<Rightarrow> string option" where
  "scan_assignee_paths patent_elem [] = None"
| "scan_assignee_paths patent_elem (path # paths) =
     (case find_elem path patent_elem of
        None \<Rightarrow> scan_assignee_paths patent_elem paths
      | Some assignee_elem \<Rightarrow>
          (case scan_org_paths assignee_elem
                  [''.//orgname'', ''.//organization-name'', ''.//assignee-name''] of
             Some name \<Rightarrow> Some name
           | None \<Rightarrow>
               (case person_name assignee_elem of
                  Some name \<Rightarrow> Some name
                | None \<Rightarrow> scan_assignee_paths patent_elem paths)))"

definition extract_assignee_robust :: "element \<Rightarrow> string" where
  "extract_assignee_robust patent_elem =
     (case scan_assignee_paths patent_elem
             [''.//assignees/assignee'', ''.//assignee'',
              ''.//subdoc-bibliographic-information//assignee''] of
        Some name \<Rightarrow> name
      | None \<Rightarrow> ''Unknown Assignee'')"

text \<open>\<open>extract_inventors_robust\<close>\<close>

fun add_inventors :: "element list \<Rightarrow> string list \<Rightarrow> string list" where
  "add_inventors [] inventors = inventors"
| "add_inventors (inventor_elem # rest) inventors =
     (case person_name inventor_elem of
        None \<Rightarrow> add_inventors rest inventors
      | Some name \<Rightarrow>
          add_inventors rest (if name \<notin> set inventors then inventors @ [name] else inventors))"

fun scan_inventor_paths :: "element \<Rightarrow> string list \<Rightarrow> string list \<Rightarrow> string list" where
  "scan_inventor_paths patent_elem [] inventors = inventors"
| "scan_inventor_paths patent_elem (path # paths) inventors =
     scan_inventor_paths patent_elem paths (add_inventors (findall path patent_elem) inventors)"

definition extract_inventors_robust :: "element \<Rightarrow> string list" where
  "extract_inventors_robust patent_elem =
     (let inventors = scan_inventor_paths patent_elem
            [''.//inventors/inventor'', ''.//inventor'',
             ''.//subdoc-bibliographic-information//inventor''] []
      in if inventors \<noteq> [] then inventors else [''Unknown Inventor''])"

text \<open>
  \<open>extract_dates_robust\<close>: each loop stops at the first element with text. The texts of
  the elements here are strings of code points below 256; \<open>format_date\<close> is given their
  code points, and what it returns for them has code points below 256 again (\<open>latin1\<close>
  reads them back).
\<close>

definition latin1 :: "ustring \<Rightarrow> string" where
  "latin1 u = map char_of u"

fun first_date :: "nat \<Rightarrow> element \<Rightarrow> string list \<Rightarrow> string option" where
  "first_date year patent_elem [] = None"
| "first_date year patent_elem (path # paths) =
     (case find_elem path patent_elem of
        None \<Rightarrow> first_date year patent_elem paths
      | Some date_elem \<Rightarrow>
          (case el_text date_elem of
             None \<Rightarrow> first_date year patent_elem paths
           | Some t \<Rightarrow> if t \<noteq> [] then Some (latin1 (format_date year (ustr t)))
                       else first_date year patent_elem paths))"

definition extract_dates_robust :: "env \<Rightarrow> element \<Rightarrow> string \<times> string" where
  "extract_dates_robust ev patent_elem =
     (let application_date = first_date (current_year ev) patent_elem
            [''.//application-reference//date'', ''.//filing-date'',
             ''.//subdoc-bibliographic-information//filing-date''];
          publication_date = first_date (current_year ev) patent_elem
            [''.//publication-reference//date'', ''.//publication-date'',
             ''.//subdoc-bibliographic-information//publication-date''];
          dflt = str_nat (current_year ev) @ ''-01-01''
      in (get_or application_date dflt, get_or publication_date dflt))"

text \<open>\<open>extract_classifications_robust\<close>\<close>

definition texts_of :: "element list \<Rightarrow> string list" where
  "texts_of elems =
     concat (map (\<lambda>e. case el_text e of None \<Rightarrow> []
                        | Some t \<Rightarrow> if t \<noteq> [] then [py_strip t] else []) elems)"

definition extract_classifications_robust :: "element \<Rightarrow> string list" where
  "extract_classifications_robust patent_elem =
     (let ipc = concat (map (\<lambda>path. texts_of (findall path patent_elem))
                  [''.//classifications-ipc//main-classification'',
                   ''.//classification-ipc//main-classification'',
                   ''.//ipc-classification'',
                   ''.//classification-ipc'']);
          classifications =
            (if ipc = [] then
               concat (map (\<lambda>path. map (\<lambda>t. ''US'' @ t) (texts_of (findall path patent_elem)))
                 [''.//classification-us//main-classification'',
                  ''.//us-classification'',
                  ''.//classification-national''])
             else ipc)
      in if classifications \<noteq> [] then classifications else [''G06F''])"

text \<open>The dict \<open>patent_data\<close> that \<open>extract_patent_data_robust\<close> fills.\<close>

record patent_data =
  pd_id :: string
  pd_title :: string
  pd_abstract :: string
  pd_assignee :: string
  pd_inventors :: "string list"
  pd_application_date :: string
  pd_publication_date :: string
  pd_ipc_classes :: "string list"
  pd_ipc_class :: string
  pd_claims :: string
  pd_description :: string
  pd_category :: string

definition title_paths :: "string list" where
  "title_paths =
     [''.//invention-title'', ''.//title-of-invention'', ''.//invention-title-text'', ''.//title'']"

definition abstract_paths :: "string list" where
  "abstract_paths = [''.//abstract'', ''.//abstract-text'', ''.//subdoc-abstract'']"

definition claims_paths :: "string list" where
  "claims_paths = [''.//claims'', ''.//claim'', ''.//subdoc-claims'']"

definition description_paths :: "string list" where
  "description_paths = [''.//description'', ''.//detailed-description'', ''.//subdoc-description'']"

text \<open>
  \<open>extract_patent_data_robust\<close>; \<open>None\<close> is its \<open>return None\<close>. No step of it raises on an
  element tree, so it has no error result.
\<close>

definition extract_patent_data_robust :: "env \<Rightarrow> element \<Rightarrow> patent_data option" where
  "extract_patent_data_robust ev patent_elem =
     (let patent_id = extract_patent_id ev patent_elem;
          title = (case find_element_flexible patent_elem title_paths of
                     Some title_elem \<Rightarrow> clean_text (extract_text_content title_elem)
                   | None \<Rightarrow> ''Untitled'');
          abstract = (case find_element_flexible patent_elem abstract_paths of
                        Some abstract_elem \<Rightarrow> clean_text (extract_text_content abstract_elem)
                      | None \<Rightarrow> ''No abstract available'');
          assignee = extract_assignee_robust patent_elem;
          inventors = extract_inventors_robust patent_elem;
          dates = extract_dates_robust ev patent_elem;
          ipc_classes = extract_classifications_robust patent_elem;
          ipc_class = (if ipc_classes \<noteq> [] then ipc_classes ! 0 else ''G06F'');
          claims = (case find_element_flexible patent_elem claims_paths of
                      Some claims_elem \<Rightarrow> clean_text (extract_text_content claims_elem)
                    | None \<Rightarrow> ''No claims available'');
          description_text = (case find_element_flexible patent_elem description_paths of
                                Some description_elem \<Rightarrow> extract_text_content description_elem
                              | None \<Rightarrow> []);
          description = take 3000 (clean_text description_text);
          category = categorize_patent ipc_class title
      in if length title < 5 \<or> length abstract < 10 then None
         else Some \<lparr>pd_id = patent_id, pd_title = title, pd_abstract = abstract,
                    pd_assignee = assignee, pd_inventors = inventors,
                    pd_application_date = fst dates, pd_publication_date = snd dates,
                    pd_ipc_classes = ipc_classes, pd_ipc_class = ipc_class,
                    pd_claims = claims, pd_description = description,
                    pd_category = category\<rparr>)"

text \<open>
  \<open>extract_from_root\<close>: the candidate elements, and the loop that keeps the records
  returned for them.
\<close>

definition patent_applications :: "element \<Rightarrow> element list" where
  "patent_applications root_elem =
     (let found = findall ''.//us-patent-application'' root_elem @
                  findall ''.//patent-application-publication'' root_elem @
                  findall ''.//us-patent-grant'' root_elem
      in if found = [] then
           (if suffix ''patent-application'' (el_tag root_elem) \<or> suffix ''patent-grant'' (el_tag root_elem) \<or>
               sublist ''patent'' (py_lower (el_tag root_elem))
            then [root_elem] else [])
         else found)"

fun keep_patents :: "env \<Rightarrow> element list \<Rightarrow> patent_data list \<Rightarrow> patent_data list" where
  "keep_patents ev [] kept = kept"
| "keep_patents ev (patent_app # rest) kept =
     (case extract_patent_data_robust ev patent_app of
        None \<Rightarrow> keep_patents ev rest kept
      | Some patent_data \<Rightarrow>
          keep_patents ev rest
            (if pd_title patent_data \<noteq> [] \<and> pd_abstract patent_data \<noteq> []
             then kept @ [patent_data] else kept))"

definition extract_from_root :: "env \<Rightarrow> element \<Rightarrow> patent_data list" where
  "extract_from_root ev root_elem = keep_patents ev (patent_applications root_elem) []"

text \<open>
  The normalized title and abstract of a candidate, as the specification names them:
  the cleaned text of the first title (abstract) element found, or the sentinel.
\<close>

definition normalized_title :: "element \<Rightarrow> string" where
  "normalized_title e =
     (case find_element_flexible e title_paths of
        Some title_elem \<Rightarrow> clean_text (extract_text_content title_elem)
      | None \<Rightarrow> ''Untitled'')"

definition normalized_abstract :: "element \<Rightarrow> string" where
  "normalized_abstract e =
     (case find_element_flexible e abstract_paths of
        Some abstract_elem \<Rightarrow> clean_text (extract_text_content abstract_elem)
      | None \<Rightarrow> ''No abstract available'')"

text \<open>The content of an element tree: the tree with every address erased.\<close>

fun content :: "element \<Rightarrow> element" where
  "content (Element tg tx cs tail a) = Element tg tx (map content cs) tail 0"

section \<open>The parser: document splitter\<close>

text \<open>
  The pattern of \<open>parse_concatenated_xml\<close>, compiled with \<open>re.DOTALL\<close>:
  \<^verbatim>\<open><\?xml version="1\.0"[^>]*\?>\s*<!DOCTYPE[^>]*>\s*<us-patent-application[^>]*>.*?</us-patent-application>\<close>
  Each piece can match in one way only, so a match at a given position is computed piece
  by piece; every function returns what is left of the input behind its piece.
\<close>

definition xml_decl_start :: string where
  "xml_decl_start = ''<?xml version='' @ [dq] @ ''1.0'' @ [dq]"

definition root_open :: string where
  "root_open = ''<us-patent-application''"

definition root_close :: string where
  "root_close = ''</us-patent-application>''"

text \<open>A literal.\<close>

definition lit :: "string \<Rightarrow> string \<Rightarrow> string option" where
  "lit p s = (if prefix p s then Some (drop (length p) s) else None)"

text \<open>
  \<open>[^>]*\?>\<close>: the run of characters other than \<open>>\<close> must end in \<open>?\<close> and be followed by
  \<open>>\<close>.
\<close>

definition decl_end :: "string \<Rightarrow> string option" where
  "decl_end s =
     (let u = takeWhile (\<lambda>c. c \<noteq> CHR ''>'') s; r = dropWhile (\<lambda>c. c \<noteq> CHR ''>'') s
      in if u \<noteq> [] \<and> last u = CHR ''?'' \<and> r \<noteq> [] then Some (tl r) else None)"

text \<open>\<open>[^>]*>\<close>: up to and including the first \<open>>\<close>.\<close>

definition tag_end :: "string \<Rightarrow> string option" where
  "tag_end s = (case dropWhile (\<lambda>c. c \<noteq> CHR ''>'') s of [] \<Rightarrow> None | c # r \<Rightarrow> Some r)"

text \<open>\<open>\s*\<close> before a literal that begins with \<open><\<close>: all the whitespace there is.\<close>

definition skip_ws :: "string \<Rightarrow> string" where
  "skip_ws s = dropWhile py_isspace s"

text \<open>\<open>.*?\<close> before a literal: up to and including the first occurrence of the literal.\<close>

fun after_first :: "string \<Rightarrow> string \<Rightarrow> string option" where
  "after_first p [] = None"
| "after_first p (c # cs) =
     (if prefix p (c # cs) then Some (drop (length p) (c # cs)) else after_first p cs)"

definition match_document :: "string \<Rightarrow> string option" where
  "match_document s =
     (case lit xml_decl_start s of None \<Rightarrow> None | Some r1 \<Rightarrow>
      case decl_end r1 of None \<Rightarrow> None | Some r2 \<Rightarrow>
      case lit ''<!DOCTYPE'' (skip_ws r2) of None \<Rightarrow> None | Some r3 \<Rightarrow>
      case tag_end r3 of None \<Rightarrow> None | Some r4 \<Rightarrow>
      case lit root_open (skip_ws r4) of None \<Rightarrow> None | Some r5 \<Rightarrow>
      case tag_end r5 of None \<Rightarrow> None | Some r6 \<Rightarrow>
      after_first root_close r6)"

text \<open>
  \<open>re.finditer\<close>: the matches from left to right, each search starting where the previous
  match ended (\<open>skip\<close> counts the characters of that match still to pass over).
\<close>

fun finditer_from :: "nat \<Rightarrow> string \<Rightarrow> string list" where
  "finditer_from skip [] = []"
| "finditer_from skip (c # cs) =
     (if 0 < skip then finditer_from (skip - 1) cs
      else (case match_document (c # cs) of
              None \<Rightarrow> finditer_from 0 cs
            | Some rest \<Rightarrow>
                (let m = take (length (c # cs) - length rest) (c # cs)
                 in m # finditer_from (length m - 1) cs)))"

definition regex_documents :: "string \<Rightarrow> string list" where
  "regex_documents file_content = finditer_from 0 file_content"

text \<open>\<open>split_by_lines_improved\<close>: the state of its loop, one step for each line.\<close>

record line_scan =
  documents :: "string list"
  current_doc :: string
  doc_started :: bool
  doc_depth :: int

definition scan_line :: "line_scan \<Rightarrow> string \<Rightarrow> line_scan" where
  "scan_line st line =
     (let line_stripped = py_strip line in
      if prefix xml_decl_start line_stripped then
        \<lparr>documents = (if doc_started st \<and> py_strip (current_doc st) \<noteq> []
                       then documents st @ [py_strip (current_doc st)] else documents st),
         current_doc = line @ ''\<newline>'', doc_started = True, doc_depth = 0\<rparr>
      else if doc_started st then
        (let cur = current_doc st @ line @ ''\<newline>'' in
         if sublist root_open line_stripped then
           st\<lparr>current_doc := cur, doc_depth := doc_depth st + 1\<rparr>
         else if sublist root_close line_stripped then
           (if doc_depth st - 1 = 0 then
              \<lparr>documents = documents st @ [py_strip cur], current_doc = [],
               doc_started = False, doc_depth = doc_depth st - 1\<rparr>
            else st\<lparr>current_doc := cur, doc_depth := doc_depth st - 1\<rparr>)
         else st\<lparr>current_doc := cur\<rparr>)
      else st)"

definition split_by_lines_improved :: "string \<Rightarrow> string list" where
  "split_by_lines_improved file_content =
     (let st = foldl scan_line
                 \<lparr>documents = [], current_doc = [], doc_started = False, doc_depth = 0\<rparr>
                 (split_on CHR ''\<newline>'' file_content)
      in if py_strip (current_doc st) \<noteq> [] then documents st @ [py_strip (current_doc st)]
         else documents st)"

text \<open>
  What \<open>split_by_lines_improved\<close> returns when the lines end in the state \<open>st\<close>: the
  documents closed so far and the current one, stripped, unless it is blank.
\<close>

definition pending_documents :: "line_scan \<Rightarrow> string list" where
  "pending_documents st =
     (if py_strip (current_doc st) \<noteq> [] then documents st @ [py_strip (current_doc st)]
      else documents st)"

text \<open>
  The splitting in \<open>parse_concatenated_xml\<close>: the list \<open>documents\<close>, from the pattern or,
  when the pattern finds nothing, from the lines; and the units that reach the XML
  parser, which are the first 50 documents, stripped, the empty ones left out.
\<close>

definition split_documents :: "string \<Rightarrow> string list" where
  "split_documents file_content =
     (let docs = regex_documents file_content
      in if docs = [] then split_by_lines_improved file_content else docs)"

definition document_units :: "string \<Rightarrow> string list" where
  "document_units file_content =
     filter (\<lambda>doc_content. doc_content \<noteq> []) (map py_strip (take 50 (split_documents file_content)))"

section \<open>From the parser to the database\<close>

text \<open>
  \<open>process_directory\<close> writes the records it collected with \<open>json.dump\<close>, and
  \<open>load_data_sqlite\<close> of \<open>app.py\<close> reads the file back with \<open>json.load\<close> and hands the
  list to \<open>index_patents\<close>. A record of the parser comes back as a dict that has each
  of its twelve keys, with the value written.
\<close>

definition json_record :: "patent_data \<Rightarrow> patent_input" where
  "json_record pd =
     \<lparr>in_id = Some (pd_id pd), in_title = Some (pd_title pd),
      in_abstract = Some (pd_abstract pd), in_description = Some (pd_description pd),
      in_claims = Some (pd_claims pd), in_assignee = Some (pd_assignee pd),
      in_inventors = Some (pd_inventors pd),
      in_application_date = Some (pd_application_date pd),
      in_publication_date = Some (pd_publication_date pd),
      in_ipc_class = Some (pd_ipc_class pd), in_ipc_classes = Some (pd_ipc_classes pd),
      in_category = Some (pd_category pd)\<rparr>"

definition load_data_sqlite :: "patent_data list \<Rightarrow> database \<Rightarrow> database" where
  "load_data_sqlite patents_file db = index_patents (map json_record patents_file) db"

section \<open>Example inputs\<close>


definition example_patent :: "string \<Rightarrow> string \<Rightarrow> string \<Rightarrow> string \<Rightarrow> patent_input" where
  "example_patent i t a c =
     \<lparr>in_id = Some i, in_title = Some t, in_abstract = Some a, in_description = Some '''',
      in_claims = Some '''', in_assignee = Some ''Acme Corp'', in_inventors = Some [''Ada Lovelace''],
      in_application_date = Some ''2023-01-01'', in_publication_date = Some ''2023-06-15'',
      in_ipc_class = Some ''H04L'', in_ipc_classes = Some [''H04L''], in_category = Some c\<rparr>"

definition example_db :: database where
  "example_db =
     index_patents
       [example_patent ''1'' ''Packet router'' ''A device in a network.'' ''physics'',
        example_patent ''2'' ''Unrelated'' ''Nothing.'' ''other'',
        example_patent ''3'' ''Network of network nodes'' ''A mesh.'' ''physics'',
        example_patent ''4'' ''Cable'' ''It joins a network.'' ''physics'',
        example_patent ''3'' ''Duplicate id'' ''Refused.'' ''other'']
       init_database"

text \<open>
  Element trees: an application with a title, an abstract and a document number; one
  whose title is \<open>AI\<close>; one with neither title nor abstract nor number, and the same
  document parsed into objects at other addresses.
\<close>

definition example_env :: env where
  "example_env = \<lparr>current_year = 2026, py_hash = (\<lambda>s. int (sum_list (map ord s)))\<rparr>"

definition leaf :: "string \<Rightarrow> string \<Rightarrow> nat \<Rightarrow> element" where
  "leaf tg tx a = Element tg (Some tx) [] None a"

definition example_app :: "string \<Rightarrow> string \<Rightarrow> element" where
  "example_app t a =
     Element ''us-patent-application'' None
       [Element ''publication-reference'' None
          [Element ''document-id'' None
             [leaf ''doc-number'' ''20230012345'' 4144, leaf ''date'' ''20230615'' 4160] None 4128]
          None 4112,
        leaf ''invention-title'' t 4176,
        Element ''abstract'' None [leaf ''p'' a 4208] None 4192]
       None 4096"

definition bare_app :: "nat \<Rightarrow> element" where
  "bare_app a =
     Element ''us-patent-application'' None
       [Element ''description'' None [leaf ''p'' ''A folding chair with three legs.'' (a + 32)] None (a + 16)]
       None a"

text \<open>
  An application with a document number and a description, and neither title nor
  abstract; and a root with two of them that carry the same number.
\<close>

definition numbered_app :: "string \<Rightarrow> nat \<Rightarrow> element" where
  "numbered_app d a =
     Element ''us-patent-application'' None
       [Element ''document-id'' None [leaf ''doc-number'' ''20230012345'' (a + 32)] None (a + 16),
        Element ''description'' None [leaf ''p'' d (a + 64)] None (a + 48)]
       None a"

definition twin_root :: element where
  "twin_root =
     Element ''root'' None
       [numbered_app ''A folding chair.'' 4096, numbered_app ''A round table.'' 8192] None 0"

text \<open>
  Documents: one in the layout of the bulk files (declaration, document type, root
  element, on lines of their own), and two well-formed documents that consist of a
  declaration and the root element, with no document type and no line break; and a
  document with no document type whose declaration, root tags and content are on lines
  of their own.
\<close>

definition bulk_doc :: "string \<Rightarrow> string" where
  "bulk_doc t =
     ''<?xml version='' @ [dq] @ ''1.0'' @ [dq] @ '' encoding='' @ [dq] @ ''UTF-8'' @ [dq] @ ''?>\<newline>'' @
     ''<!DOCTYPE us-patent-application SYSTEM '' @ [dq] @ ''pap-v16.dtd'' @ [dq] @ '' [ ]>\<newline>'' @
     ''<us-patent-application lang='' @ [dq] @ ''EN'' @ [dq] @ ''>\<newline>'' @
     ''<invention-title>'' @ t @ ''</invention-title>\<newline>'' @
     ''</us-patent-application>''"

definition plain_doc :: "string \<Rightarrow> string" where
  "plain_doc t =
     ''<?xml version='' @ [dq] @ ''1.0'' @ [dq] @ ''?>'' @
     ''<us-patent-application><abstract>'' @ t @ ''</abstract></us-patent-application>''"

definition lined_doc :: "string \<Rightarrow> string" where
  "lined_doc t =
     ''<?xml version='' @ [dq] @ ''1.0'' @ [dq] @ ''?>\<newline>'' @
     ''<us-patent-application>\<newline>'' @
     ''<abstract>'' @ t @ ''</abstract>\<newline>'' @
     ''</us-patent-application>''"

section \<open>Properties\<close>

subsection \<open>Relevance score\<close>

lemma score_terms_sum:
  "score_terms ft w ts s = s + (\<Sum>t \<leftarrow> ts. real (py_count ft t) * w)"
  by (induction ts arbitrary: s) (auto simp: Let_def)

lemma py_count_empty_text: "sub \<noteq> [] \<Longrightarrow> py_count [] sub = 0"
  by (simp add: py_count_def)

lemma split_acc_nonempty: "t \<in> set (split_acc cur s) \<Longrightarrow> t \<noteq> []"
  by (induction s arbitrary: cur) (auto split: if_splits)

lemma py_split_nonempty: "t \<in> set (py_split s) \<Longrightarrow> t \<noteq> []"
  using split_acc_nonempty [of t "[]" s] by (simp add: py_split_def)

lemma sum_terms_empty_text:
  "\<forall>t \<in> set ts. t \<noteq> [] \<Longrightarrow> (\<Sum>t \<leftarrow> ts. real (py_count [] t) * w) = 0"
  by (induction ts) (auto simp: py_count_empty_text)

lemma score_fields_sum:
  "\<forall>t \<in> set ts. t \<noteq> [] \<Longrightarrow>
   score_fields p ts fws s =
     s + (\<Sum>(f, w) \<leftarrow> fws. \<Sum>t \<leftarrow> ts. real (py_count (py_lower (dict_get p f '''')) t) * w)"
proof (induction fws arbitrary: s)
  case Nil
  then show ?case by simp
next
  case (Cons fw fws)
  obtain f w where fw: "fw = (f, w)" by (cases fw)
  show ?case
  proof (cases "py_lower (dict_get p f '''') = []")
    case True
    with Cons fw show ?thesis
      by (simp add: sum_terms_empty_text)
  next
    case False
    with Cons fw show ?thesis
      by (simp add: score_terms_sum add.assoc)
  qed
qed

lemma calculate_custom_score_eq: "calculate_custom_score p q = spec_score p q"
proof -
  have "\<forall>t \<in> set (py_split (py_lower q)). t \<noteq> []"
    using py_split_nonempty by blast
  then show ?thesis
    by (simp add: calculate_custom_score_def spec_score_def weighted_sum_def Let_def
        score_fields_sum)
qed

text \<open>
  C2. For every record and every query, the custom relevance score is the sum, over the
  fields title, abstract, claims, description and over the lower-cased query terms, of
  the number of occurrences of the term in the lower-cased field text times the weight
  of the field (3, 2, 1.5, 1), multiplied by 1.2 exactly when the category is
  \<open>artificial_intelligence\<close> or \<open>telecommunications\<close>. For the query \<open>network\<close>, a record
  with three occurrences in its title scores 9 and a record with one occurrence in its
  abstract scores 2, neither boosted.
\<close>

theorem custom_score_weighted_sum:
  "calculate_custom_score p q =
     (\<Sum>(field, weight) \<leftarrow> [(''title'', 3), (''abstract'', 2), (''claims'', 3 / 2), (''description'', 1)].
        \<Sum>term \<leftarrow> py_split (py_lower q).
          real (py_count (py_lower (dict_get p field '''')) term) * weight)
     * (if p ''category'' = Some ''artificial_intelligence'' \<or> p ''category'' = Some ''telecommunications''
        then 12 / 10 else 1)
   \<and> calculate_custom_score
        [''title'' \<mapsto> ''Network switch for a network of network nodes'',
         ''abstract'' \<mapsto> ''A switch and its ports.'', ''claims'' \<mapsto> ''1. A switch.'',
         ''description'' \<mapsto> '''', ''category'' \<mapsto> ''physics''] ''network'' = 9
   \<and> calculate_custom_score
        [''title'' \<mapsto> ''Packet router'',
         ''abstract'' \<mapsto> ''A device that forwards packets in a network.'',
         ''claims'' \<mapsto> ''1. A router.'', ''description'' \<mapsto> '''', ''category'' \<mapsto> ''physics'']
        ''network'' = 2"
proof (intro conjI)
  have "is_boosted p \<longleftrightarrow>
      p ''category'' = Some ''artificial_intelligence'' \<or> p ''category'' = Some ''telecommunications''"
    by (auto simp: is_boosted_def boosted_categories_def split: option.splits)
  then show "calculate_custom_score p q =
     (\<Sum>(field, weight) \<leftarrow> [(''title'', 3), (''abstract'', 2), (''claims'', 3 / 2), (''description'', 1)].
        \<Sum>term \<leftarrow> py_split (py_lower q).
          real (py_count (py_lower (dict_get p field '''')) term) * weight)
     * (if p ''category'' = Some ''artificial_intelligence'' \<or> p ''category'' = Some ''telecommunications''
        then 12 / 10 else 1)"
    using calculate_custom_score_eq [of p q]
    by (simp only: spec_score_def weighted_sum_def field_weights_def)
next
  show "calculate_custom_score
        [''title'' \<mapsto> ''Network switch for a network of network nodes'',
         ''abstract'' \<mapsto> ''A switch and its ports.'', ''claims'' \<mapsto> ''1. A switch.'',
         ''description'' \<mapsto> '''', ''category'' \<mapsto> ''physics''] ''network'' = 9"
    by code_simp
next
  show "calculate_custom_score
        [''title'' \<mapsto> ''Packet router'',
         ''abstract'' \<mapsto> ''A device that forwards packets in a network.'',
         ''claims'' \<mapsto> ''1. A router.'', ''description'' \<mapsto> '''', ''category'' \<mapsto> ''physics'']
        ''network'' = 2"
    by code_simp
qed

theorem custom_score_weighted_sum_witness:
  "calculate_custom_score
     [''title'' \<mapsto> ''Neural network'', ''abstract'' \<mapsto> ''A network of networks.'',
      ''category'' \<mapsto> ''artificial_intelligence''] ''Network'' = 42 / 5"
proof -
  have "py_split (py_lower ''Network'') = [''network'']"
    by code_simp
  moreover have "py_count (py_lower ''Neural network'') ''network'' = 1"
    by code_simp
  moreover have "py_count (py_lower ''A network of networks.'') ''network'' = 2"
    by code_simp
  moreover have "py_count (py_lower '''') ''network'' = 0"
    by code_simp
  ultimately show ?thesis
    using custom_score_weighted_sum
      [of "[''title'' \<mapsto> ''Neural network'', ''abstract'' \<mapsto> ''A network of networks.'',
            ''category'' \<mapsto> ''artificial_intelligence'']" "''Network''"]
    by (simp add: dict_get_def)
qed

subsection \<open>Categorizer\<close>

lemma scan_patterns_hit:
  "scan_patterns tlw ipc c ps =
     (if list_ex (\<lambda>p. sublist (py_lower p) tlw \<or> sublist p ipc) ps then Some c else None)"
  by (induction ps) auto

lemma scan_categories_find:
  "scan_categories (py_lower title) ipc cats =
     map_option fst (find (\<lambda>(category, patterns). trigger_hit title ipc patterns) cats)"
  by (induction cats) (auto simp: scan_patterns_hit trigger_hit_def)

lemma categorize_eq: "categorize_patent ipc title = spec_categorize ipc title"
  by (auto simp: categorize_patent_def spec_categorize_def Let_def scan_categories_find
      broad_category_def split: option.splits)

lemma py_lower_neural: "py_lower ''neural network'' = ''neural network''"
  by code_simp

lemma categorize_neural:
  "sublist ''neural network'' (py_lower title) \<Longrightarrow>
   categorize_patent ''G06F1234'' title = ''artificial_intelligence''"
  by (simp add: categorize_patent_def specific_patterns_def py_lower_neural Let_def)

text \<open>
  C5. The categorizer is a function of the classification code and the title alone. It
  goes through the specific categories in their fixed order and returns the first one
  a trigger of which occurs in the lower-cased title or in the classification code;
  when there is none it returns the broad category of the code's first letter, and
  \<open>other\<close> when that letter has none. With the code \<open>G06F1234\<close>, a title whose lower-cased
  text contains \<open>neural network\<close> is categorized \<open>artificial_intelligence\<close>, where the
  code alone gives \<open>physics\<close>.
\<close>

theorem categorize_first_match:
  "categorize_patent ipc title = spec_categorize ipc title
   \<and> (sublist ''neural network'' (py_lower title) \<longrightarrow>
        categorize_patent ''G06F1234'' title = ''artificial_intelligence'')
   \<and> categorize_patent ''G06F1234'' ''Display panel'' = ''physics''
   \<and> categorize_patent ''X99'' ''Display panel'' = ''other''"
proof (intro conjI impI)
  show "categorize_patent ipc title = spec_categorize ipc title"
    by (rule categorize_eq)
next
  assume "sublist ''neural network'' (py_lower title)"
  then show "categorize_patent ''G06F1234'' title = ''artificial_intelligence''"
    by (rule categorize_neural)
next
  show "categorize_patent ''G06F1234'' ''Display panel'' = ''physics''"
    by code_simp
next
  show "categorize_patent ''X99'' ''Display panel'' = ''other''"
    by code_simp
qed

theorem categorize_first_match_witness:
  "sublist ''neural network'' (py_lower ''Neural Network Accelerator'')
   \<and> categorize_patent ''G06F1234'' ''Neural Network Accelerator'' = ''artificial_intelligence''
   \<and> spec_categorize ''G06F1234'' ''Neural Network Accelerator'' = ''artificial_intelligence''"
proof -
  have h: "sublist ''neural network'' (py_lower ''Neural Network Accelerator'')"
    by code_simp
  note t = categorize_first_match [of "''G06F1234''" "''Neural Network Accelerator''"]
  from t have a: "categorize_patent ''G06F1234'' ''Neural Network Accelerator'' =
      spec_categorize ''G06F1234'' ''Neural Network Accelerator''"
    by (rule conjunct1)
  from t have b: "sublist ''neural network'' (py_lower ''Neural Network Accelerator'') \<longrightarrow>
      categorize_patent ''G06F1234'' ''Neural Network Accelerator'' = ''artificial_intelligence''"
    by (rule conjunct1 [OF conjunct2])
  from b h have c: "categorize_patent ''G06F1234'' ''Neural Network Accelerator'' =
      ''artificial_intelligence''"
    by (rule mp)
  have d: "spec_categorize ''G06F1234'' ''Neural Network Accelerator'' =
      ''artificial_intelligence''"
    by (rule trans [OF a [symmetric] c])
  show ?thesis
    by (intro conjI) (rule h, rule c, rule d)
qed

subsection \<open>Date normalizer\<close>

lemma digit_char_ascii: "d < 10 \<Longrightarrow> ascii_digit (ord (digit_char d))"
proof -
  assume "d < 10"
  then have "d \<in> {0, 1, 2, 3, 4, 5, 6, 7, 8, 9}" by auto
  then show ?thesis
    by (auto simp: digit_char_def ascii_digit_def ord_def)
qed

lemma str_nat_digits: "list_all ascii_digit (ustr (str_nat n))"
proof (induction n rule: str_nat.induct)
  case (1 n)
  show ?case
  proof (cases "n < 10")
    case True
    then show ?thesis by (simp add: str_nat.simps [of n] digit_char_ascii ustr_def)
  next
    case False
    with 1 show ?thesis
      by (simp add: str_nat.simps [of n] digit_char_ascii ustr_def)
  qed
qed

lemma str_nat_length4: "1000 \<le> n \<Longrightarrow> n \<le> 9999 \<Longrightarrow> length (str_nat n) = 4"
proof -
  assume a: "1000 \<le> n" "n \<le> 9999"
  have 1: "str_nat n = str_nat (n div 10) @ [digit_char (n mod 10)]"
    using a by (simp add: str_nat.simps [of n])
  have 2: "str_nat (n div 10) = str_nat (n div 10 div 10) @ [digit_char (n div 10 mod 10)]"
    using a by (simp add: str_nat.simps [of "n div 10"])
  have 3: "str_nat (n div 10 div 10) =
      str_nat (n div 10 div 10 div 10) @ [digit_char (n div 10 div 10 mod 10)]"
    using a by (simp add: str_nat.simps [of "n div 10 div 10"])
  have 4: "length (str_nat (n div 10 div 10 div 10)) = 1"
    using a by (simp add: str_nat.simps [of "n div 10 div 10 div 10"])
  show ?thesis by (simp add: 1 2 3 4)
qed

lemma ustr_hyphen: "ustr ''-'' = [45]" "ustr ''-01'' = [45, 48, 49]"
  "ustr ''-01-01'' = [45, 48, 49, 45, 48, 49]"
  by (simp_all add: ustr_def ord_def)

lemma iso_shape_build:
  "length y = 4 \<Longrightarrow> length m = 2 \<Longrightarrow> length d = 2 \<Longrightarrow>
   list_all ascii_digit y \<Longrightarrow> list_all ascii_digit m \<Longrightarrow> list_all ascii_digit d \<Longrightarrow>
   iso_date_shaped (y @ [45] @ m @ [45] @ d)"
  by (simp add: iso_date_shaped_def nth_append)

lemma list_all_take: "list_all P xs \<Longrightarrow> list_all P (take n xs)"
  by (auto simp: list_all_iff dest: in_set_takeD)

lemma list_all_drop: "list_all P xs \<Longrightarrow> list_all P (drop n xs)"
  by (auto simp: list_all_iff dest: in_set_dropD)

lemma zero_one_digits: "list_all ascii_digit [48, 49]"
  by (simp add: ascii_digit_def)

text \<open>Below 256 the class \<open>\d\<close> is \<open>0\<close> to \<open>9\<close>.\<close>

lemma is_decimal_below_256: "n < 256 \<Longrightarrow> is_decimal n \<longleftrightarrow> ascii_digit n"
  by (auto simp: is_decimal_def decimal_zeros_def ascii_digit_def)

lemma ascii_digit_is_decimal: "ascii_digit n \<Longrightarrow> is_decimal n"
  by (simp add: is_decimal_def decimal_zeros_def ascii_digit_def)

lemma ustr_below_256: "c \<in> set (ustr t) \<Longrightarrow> c < 256"
proof -
  assume "c \<in> set (ustr t)"
  then obtain x :: char where "c = of_char x"
    by (auto simp: ustr_def ord_def)
  moreover have "of_char x < (256 :: nat)"
    by (rule nat_of_char_less_256)
  ultimately show ?thesis
    by simp
qed

lemma format_date_cases:
  "format_date y s =
     (if 8 \<le> length (filter is_decimal s) then
        take 4 (filter is_decimal s) @ [45] @ take 2 (drop 4 (filter is_decimal s)) @ [45] @
        take 2 (drop 6 (filter is_decimal s))
      else if 6 \<le> length (filter is_decimal s) then
        take 4 (filter is_decimal s) @ [45] @ take 2 (drop 4 (filter is_decimal s)) @ [45] @ [48, 49]
      else if 4 \<le> length (filter is_decimal s) then
        take 4 (filter is_decimal s) @ [45] @ [48, 49] @ [45] @ [48, 49]
      else ustr (str_nat y) @ [45] @ [48, 49] @ [45] @ [48, 49])"
  by (simp add: format_date_def Let_def ustr_hyphen)

lemma format_date_shaped:
  assumes "1000 \<le> y" "y \<le> 9999"
    and "\<forall>c \<in> set s. is_decimal c \<longrightarrow> ascii_digit c"
  shows "iso_date_shaped (format_date y s)"
proof -
  let ?d = "filter is_decimal s"
  from assms(3) have d: "list_all ascii_digit ?d"
    by (simp add: list_all_iff)
  consider "8 \<le> length ?d" | "length ?d < 8" "6 \<le> length ?d"
    | "length ?d < 6" "4 \<le> length ?d" | "length ?d < 4"
    by linarith
  then show ?thesis
  proof cases
    case 1
    have "iso_date_shaped (take 4 ?d @ [45] @ take 2 (drop 4 ?d) @ [45] @ take 2 (drop 6 ?d))"
      using 1 d by (intro iso_shape_build list_all_take list_all_drop) simp_all
    with 1 show ?thesis
      by (simp only: format_date_cases if_True)
  next
    case 2
    have "iso_date_shaped (take 4 ?d @ [45] @ take 2 (drop 4 ?d) @ [45] @ [48, 49])"
      using 2 d by (intro iso_shape_build list_all_take list_all_drop zero_one_digits) simp_all
    moreover from 2 have "\<not> 8 \<le> length ?d"
      by simp
    ultimately show ?thesis
      using 2 by (simp only: format_date_cases if_True if_False)
  next
    case 3
    have "iso_date_shaped (take 4 ?d @ [45] @ [48, 49] @ [45] @ [48, 49])"
      using 3 d by (intro iso_shape_build list_all_take list_all_drop zero_one_digits) simp_all
    moreover from 3 have "\<not> 8 \<le> length ?d" "\<not> 6 \<le> length ?d"
      by simp_all
    ultimately show ?thesis
      using 3 by (simp only: format_date_cases if_True if_False)
  next
    case 4
    have "iso_date_shaped (ustr (str_nat y) @ [45] @ [48, 49] @ [45] @ [48, 49])"
      using assms(1,2)
      by (intro iso_shape_build str_nat_digits zero_one_digits)
        (simp_all add: ustr_def str_nat_length4)
    moreover from 4 have "\<not> 8 \<le> length ?d" "\<not> 6 \<le> length ?d" "\<not> 4 \<le> length ?d"
      by simp_all
    ultimately show ?thesis
      by (simp only: format_date_cases if_False)
  qed
qed

lemma arabic_indic_digits:
  "filter is_decimal [0x662, 0x660, 0x662, 0x663, 0x660, 0x666, 0x661, 0x665] =
     [0x662, 0x660, 0x662, 0x663, 0x660, 0x666, 0x661, 0x665]"
  by (simp add: is_decimal_def decimal_zeros_def)

lemma ascii_examples:
  "filter is_decimal (ustr ''20230615'') = ustr ''20230615''"
  "filter is_decimal (ustr ''202306'') = ustr ''202306''"
  "filter is_decimal (ustr ''2023'') = ustr ''2023''"
  "filter is_decimal (ustr ''garbage'') = []"
  "filter is_decimal (ustr ''2023/06/15 10:30'') = ustr ''202306151030''"
  "filter is_decimal (ustr ''n/a'') = []"
  by (simp_all add: ustr_def ord_def is_decimal_below_256 ascii_digit_def)

text \<open>
  C6. The date normalizer is total: it has no error result. With \<open>d\<close> the characters of
  the input that the class \<open>\d\<close> keeps: at least 8 give \<open>d[:4]-d[4:6]-d[6:8]\<close>; else at
  least 6 give \<open>d[:4]-d[4:6]-01\<close>; else at least 4 give \<open>d[:4]-01-01\<close>; else the result is
  the current year followed by \<open>-01-01\<close>. \<open>20230615\<close> gives \<open>2023-06-15\<close>, \<open>202306\<close> gives
  \<open>2023-06-01\<close>, \<open>2023\<close> gives \<open>2023-01-01\<close>, \<open>garbage\<close> gives the current-year default.
  The result has the shape \<open>DDDD-DD-DD\<close> of an ISO date when the current year has four
  digits and every character of the input that \<open>\d\<close> keeps is one of \<open>0\<close> to \<open>9\<close>, as for
  every input of code points below 256. It has not for every input: the class \<open>\d\<close>
  keeps every Unicode decimal digit, and for the eight Arabic-Indic digits
  \<open>U+0662 U+0660 U+0662 U+0663 U+0660 U+0666 U+0661 U+0665\<close> (2023-06-15 written in
  them) the result is these digits with two hyphens, which is no ISO date.
\<close>

theorem format_date_keeps_unicode_digits:
  "format_date y [0x662, 0x660, 0x662, 0x663, 0x660, 0x666, 0x661, 0x665] =
     [0x662, 0x660, 0x662, 0x663, 45, 0x660, 0x666, 45, 0x661, 0x665]
   \<and> \<not> iso_date_shaped (format_date y [0x662, 0x660, 0x662, 0x663, 0x660, 0x666, 0x661, 0x665])
   \<and> (8 \<le> length (filter is_decimal s) \<longrightarrow>
        format_date y s =
          take 4 (filter is_decimal s) @ ustr ''-'' @ take 2 (drop 4 (filter is_decimal s)) @
          ustr ''-'' @ take 2 (drop 6 (filter is_decimal s)))
   \<and> (6 \<le> length (filter is_decimal s) \<and> length (filter is_decimal s) < 8 \<longrightarrow>
        format_date y s =
          take 4 (filter is_decimal s) @ ustr ''-'' @ take 2 (drop 4 (filter is_decimal s)) @
          ustr ''-01'')
   \<and> (4 \<le> length (filter is_decimal s) \<and> length (filter is_decimal s) < 6 \<longrightarrow>
        format_date y s = take 4 (filter is_decimal s) @ ustr ''-01-01'')
   \<and> (length (filter is_decimal s) < 4 \<longrightarrow> format_date y s = ustr (str_nat y) @ ustr ''-01-01'')
   \<and> format_date y (ustr ''20230615'') = ustr ''2023-06-15''
   \<and> format_date y (ustr ''202306'') = ustr ''2023-06-01''
   \<and> format_date y (ustr ''2023'') = ustr ''2023-01-01''
   \<and> format_date y (ustr ''garbage'') = ustr (str_nat y) @ ustr ''-01-01''
   \<and> (1000 \<le> y \<and> y \<le> 9999 \<and> (\<forall>c \<in> set s. is_decimal c \<longrightarrow> ascii_digit c) \<longrightarrow>
        iso_date_shaped (format_date y s))
   \<and> (1000 \<le> y \<and> y \<le> 9999 \<longrightarrow> iso_date_shaped (format_date y (ustr t)))"
proof (intro conjI impI)
  show a: "format_date y [0x662, 0x660, 0x662, 0x663, 0x660, 0x666, 0x661, 0x665] =
     [0x662, 0x660, 0x662, 0x663, 45, 0x660, 0x666, 45, 0x661, 0x665]"
    unfolding format_date_cases arabic_indic_digits by simp
  show "\<not> iso_date_shaped (format_date y [0x662, 0x660, 0x662, 0x663, 0x660, 0x666, 0x661, 0x665])"
    unfolding a by (simp add: iso_date_shaped_def ascii_digit_def)
next
  assume "8 \<le> length (filter is_decimal s)"
  then show "format_date y s =
          take 4 (filter is_decimal s) @ ustr ''-'' @ take 2 (drop 4 (filter is_decimal s)) @
          ustr ''-'' @ take 2 (drop 6 (filter is_decimal s))"
    by (simp add: format_date_def Let_def)
next
  assume "6 \<le> length (filter is_decimal s) \<and> length (filter is_decimal s) < 8"
  then show "format_date y s =
          take 4 (filter is_decimal s) @ ustr ''-'' @ take 2 (drop 4 (filter is_decimal s)) @
          ustr ''-01''"
    by (simp add: format_date_def Let_def)
next
  assume "4 \<le> length (filter is_decimal s) \<and> length (filter is_decimal s) < 6"
  then show "format_date y s = take 4 (filter is_decimal s) @ ustr ''-01-01''"
    by (simp add: format_date_def Let_def)
next
  assume "length (filter is_decimal s) < 4"
  then show "format_date y s = ustr (str_nat y) @ ustr ''-01-01''"
    by (simp add: format_date_def Let_def)
next
  show "format_date y (ustr ''20230615'') = ustr ''2023-06-15''"
    unfolding format_date_cases ascii_examples by (simp add: ustr_def ord_def)
next
  show "format_date y (ustr ''202306'') = ustr ''2023-06-01''"
    unfolding format_date_cases ascii_examples by (simp add: ustr_def ord_def)
next
  show "format_date y (ustr ''2023'') = ustr ''2023-01-01''"
    unfolding format_date_cases ascii_examples by (simp add: ustr_def ord_def)
next
  show "format_date y (ustr ''garbage'') = ustr (str_nat y) @ ustr ''-01-01''"
    unfolding format_date_cases ascii_examples by (simp add: ustr_hyphen)
next
  assume "1000 \<le> y \<and> y \<le> 9999 \<and> (\<forall>c \<in> set s. is_decimal c \<longrightarrow> ascii_digit c)"
  then show "iso_date_shaped (format_date y s)"
    by (simp add: format_date_shaped)
next
  assume "1000 \<le> y \<and> y \<le> 9999"
  moreover have "\<forall>c \<in> set (ustr t). is_decimal c \<longrightarrow> ascii_digit c"
    using ustr_below_256 [of _ t] by (simp add: is_decimal_below_256)
  ultimately show "iso_date_shaped (format_date y (ustr t))"
    by (simp add: format_date_shaped)
qed

theorem format_date_keeps_unicode_digits_witness:
  "(1000::nat) \<le> 2026 \<and> (2026::nat) \<le> 9999
   \<and> list_all ascii_digit (filter is_decimal (ustr ''2023/06/15 10:30''))
   \<and> iso_date_shaped (format_date 2026 (ustr ''2023/06/15 10:30''))
   \<and> 8 \<le> length (filter is_decimal (ustr ''2023/06/15 10:30''))
   \<and> format_date 2026 (ustr ''2023/06/15 10:30'') = ustr ''2023-06-15''
   \<and> length (filter is_decimal (ustr ''n/a'')) < 4
   \<and> format_date 2026 (ustr ''n/a'') = ustr ''2026-01-01''
   \<and> format_date 2026 [0x662, 0x660, 0x662, 0x663, 0x660, 0x666, 0x661, 0x665] =
       [0x662, 0x660, 0x662, 0x663, 45, 0x660, 0x666, 45, 0x661, 0x665]"
proof -
  let ?s = "ustr ''2023/06/15 10:30''"
  note d = ascii_examples(5)
  note e = ascii_examples(6)
  have y: "str_nat 2026 = ''2026''"
    by (simp add: str_nat.simps [of "numeral k" for k] digit_char_def)
  have r: "(1000::nat) \<le> 2026 \<and> (2026::nat) \<le> 9999"
    by simp
  have h: "\<forall>c \<in> set ?s. is_decimal c \<longrightarrow> ascii_digit c"
    using ustr_below_256 [of _ "''2023/06/15 10:30''"] by (simp add: is_decimal_below_256)
  have h': "list_all ascii_digit (filter is_decimal ?s)"
    unfolding d by (simp add: ustr_def ord_def ascii_digit_def)
  have d8: "8 \<le> length (filter is_decimal ?s)"
    unfolding d by (simp add: ustr_def)
  have e4: "length (filter is_decimal (ustr ''n/a'')) < 4"
    unfolding e by simp
  note t1 = format_date_keeps_unicode_digits [of 2026 ?s]
  note t2 = format_date_keeps_unicode_digits [of 2026 "ustr ''n/a''"]
  from t1 have "1000 \<le> (2026::nat) \<and> (2026::nat) \<le> 9999 \<and>
      (\<forall>c \<in> set ?s. is_decimal c \<longrightarrow> ascii_digit c) \<longrightarrow> iso_date_shaped (format_date 2026 ?s)"
    by (rule conjunct1 [OF conjunct2 [OF conjunct2 [OF conjunct2 [OF conjunct2 [OF conjunct2
      [OF conjunct2 [OF conjunct2 [OF conjunct2 [OF conjunct2 [OF conjunct2]]]]]]]]]])
  moreover from r h have "1000 \<le> (2026::nat) \<and> (2026::nat) \<le> 9999 \<and>
      (\<forall>c \<in> set ?s. is_decimal c \<longrightarrow> ascii_digit c)"
    by (intro conjI) (rule conjunct1, assumption, rule conjunct2, assumption)
  ultimately have a: "iso_date_shaped (format_date 2026 ?s)"
    by (rule mp)
  from t1 have "8 \<le> length (filter is_decimal ?s) \<longrightarrow>
      format_date 2026 ?s =
        take 4 (filter is_decimal ?s) @ ustr ''-'' @ take 2 (drop 4 (filter is_decimal ?s)) @
        ustr ''-'' @ take 2 (drop 6 (filter is_decimal ?s))"
    by (rule conjunct1 [OF conjunct2 [OF conjunct2]])
  from this d8 have "format_date 2026 ?s =
        take 4 (filter is_decimal ?s) @ ustr ''-'' @ take 2 (drop 4 (filter is_decimal ?s)) @
        ustr ''-'' @ take 2 (drop 6 (filter is_decimal ?s))"
    by (rule mp)
  then have b: "format_date 2026 ?s = ustr ''2023-06-15''"
    unfolding d by (simp add: ustr_def)
  from t2 have "length (filter is_decimal (ustr ''n/a'')) < 4 \<longrightarrow>
      format_date 2026 (ustr ''n/a'') = ustr (str_nat 2026) @ ustr ''-01-01''"
    by (rule conjunct1 [OF conjunct2 [OF conjunct2 [OF conjunct2 [OF conjunct2 [OF conjunct2]]]]])
  from this e4 have "format_date 2026 (ustr ''n/a'') = ustr (str_nat 2026) @ ustr ''-01-01''"
    by (rule mp)
  then have c: "format_date 2026 (ustr ''n/a'') = ustr ''2026-01-01''"
    unfolding y by (simp add: ustr_def)
  from t1 have f: "format_date 2026 [0x662, 0x660, 0x662, 0x663, 0x660, 0x666, 0x661, 0x665] =
       [0x662, 0x660, 0x662, 0x663, 45, 0x660, 0x666, 45, 0x661, 0x665]"
    by (rule conjunct1)
  show ?thesis
    by (intro conjI) (rule r [THEN conjunct1], rule r [THEN conjunct2], rule h', rule a,
      rule d8, rule b, rule e4, rule c, rule f)
qed

subsection \<open>Index rebuild\<close>

lemma index_patents_empty:
  "index_patents [] db = db\<lparr>patents := []\<rparr>"
  by (simp add: index_patents_def delete_from_patents_def)

lemma total_patents_after_empty_rebuild: "total_patents (index_patents [] db) = 0"
  by (simp add: index_patents_empty total_patents_def)

lemma patents_fts_after_empty_rebuild:
  "patents_fts (index_patents [] db) = patents_fts db"
  by (simp add: index_patents_empty)

lemma insert_loop_fts_prefix:
  "\<exists>added. patents_fts (insert_loop i ps db) = patents_fts db @ added"
proof (induction ps arbitrary: i db)
  case Nil
  then show ?case by simp
next
  case (Cons p ps)
  show ?case
  proof (cases "insert_patent (row_of_input i p) db")
    case (Inl e)
    with Cons [of "i + 1" db] show ?thesis by simp
  next
    case (Inr db')
    then have "patents_fts db' = patents_fts db @ [\<lparr>fts_id = col_id (row_of_input i p),
        fts_title = col_title (row_of_input i p), fts_abstract = col_abstract (row_of_input i p),
        fts_description = col_description (row_of_input i p),
        fts_claims = col_claims (row_of_input i p),
        fts_assignee = col_assignee (row_of_input i p),
        fts_inventors = col_inventors (row_of_input i p),
        fts_ipc_class = col_ipc_class (row_of_input i p),
        fts_category = col_category (row_of_input i p)\<rparr>]"
      by (auto simp: insert_patent_def patents_fts_insert_def split: if_splits)
    with Cons [of "i + 1" db'] Inr show ?thesis by auto
  qed
qed

text \<open>
  C1. The rebuild deletes every stored record, and after \<open>index_patents []\<close> the count
  \<open>total_patents\<close> is 0 from every prior state. It does not delete the derived index
  entries: in the state reached by indexing four records, \<open>index_patents []\<close> leaves the
  table empty and the four entries of \<open>patents_fts\<close> in place; and a rebuild never
  removes an index entry, it only adds to them.
\<close>

theorem index_patents_keeps_fts_entries:
  "total_patents (index_patents [] db) = 0
   \<and> patents (index_patents [] db) = []
   \<and> patents_fts (index_patents [] db) = patents_fts db
   \<and> (\<exists>added. patents_fts (index_patents ps db) = patents_fts db @ added)
   \<and> map col_id (patents example_db) = [''1'', ''2'', ''3'', ''4'']
   \<and> patents (index_patents [] example_db) = []
   \<and> map fts_id (patents_fts (index_patents [] example_db)) = [''1'', ''2'', ''3'', ''4'']"
proof (intro conjI)
  show "total_patents (index_patents [] db) = 0"
    by (rule total_patents_after_empty_rebuild)
  show "patents (index_patents [] db) = []"
    by (simp add: index_patents_empty)
  show "patents_fts (index_patents [] db) = patents_fts db"
    by (rule patents_fts_after_empty_rebuild)
  show "\<exists>added. patents_fts (index_patents ps db) = patents_fts db @ added"
    using insert_loop_fts_prefix [of 0 ps "delete_from_patents db"]
    by (simp add: index_patents_def delete_from_patents_def)
  show "map col_id (patents example_db) = [''1'', ''2'', ''3'', ''4'']"
    by code_simp
  show "patents (index_patents [] example_db) = []"
    by (simp add: index_patents_empty)
  show "map fts_id (patents_fts (index_patents [] example_db)) = [''1'', ''2'', ''3'', ''4'']"
    by code_simp
qed

subsection \<open>Search\<close>




lemma format_result_row [simp]: "res_row (format_result lib q r) = r"
  by (simp add: format_result_def)

lemma format_result_score [simp]:
  "res_score (format_result lib q r) = calculate_custom_score (row_dict r) q"
  by (simp add: format_result_def)







subsection \<open>Field search\<close>



















subsection \<open>Record validation\<close>

lemma extract_None_iff:
  "extract_patent_data_robust ev e = None \<longleftrightarrow>
     length (normalized_title e) < 5 \<or> length (normalized_abstract e) < 10"
  by (simp add: extract_patent_data_robust_def normalized_title_def normalized_abstract_def
      Let_def)

lemma extract_Some_fields:
  "extract_patent_data_robust ev e = Some pd \<Longrightarrow>
   pd_title pd = normalized_title e \<and> pd_abstract pd = normalized_abstract e"
  by (auto simp: extract_patent_data_robust_def normalized_title_def normalized_abstract_def
      Let_def split: if_splits)

lemma extract_Some_lengths:
  assumes "extract_patent_data_robust ev e = Some pd"
  shows "5 \<le> length (pd_title pd) \<and> 10 \<le> length (pd_abstract pd)"
proof -
  from assms have "extract_patent_data_robust ev e \<noteq> None"
    by simp
  then have "\<not> (length (normalized_title e) < 5 \<or> length (normalized_abstract e) < 10)"
    by (simp add: extract_None_iff)
  with extract_Some_fields [OF assms] show ?thesis
    by simp
qed

lemma keep_patents_map_filter:
  "keep_patents ev apps kept = kept @ List.map_filter (extract_patent_data_robust ev) apps"
proof (induction apps arbitrary: kept)
  case Nil
  then show ?case by (simp add: List.map_filter_simps)
next
  case (Cons app apps)
  show ?case
  proof (cases "extract_patent_data_robust ev app")
    case None
    with Cons show ?thesis by (simp add: List.map_filter_simps)
  next
    case (Some pd)
    from extract_Some_lengths [OF Some] have "pd_title pd \<noteq> []" "pd_abstract pd \<noteq> []"
      by auto
    with Cons Some show ?thesis by (simp add: List.map_filter_simps)
  qed
qed

lemma extract_from_root_map_filter:
  "extract_from_root ev r = List.map_filter (extract_patent_data_robust ev) (patent_applications r)"
  by (simp add: extract_from_root_def keep_patents_map_filter)

lemma extract_from_root_valid:
  "pd \<in> set (extract_from_root ev r) \<Longrightarrow> 5 \<le> length (pd_title pd) \<and> 10 \<le> length (pd_abstract pd)"
  by (auto simp: extract_from_root_map_filter List.map_filter_def dest: extract_Some_lengths)

lemmas xml_eval = find_elem_def findall_def select_step_def parse_path_def leaf_def

lemmas text_eval = clean_text_def py_strip_def stripped_if_any_def py_isspace_def ord_def
  kept_char_def is_word_def

lemma example_AI_title: "normalized_title (example_app ''AI'' ''A system that learns.'') = ''AI''"
  by (simp add: normalized_title_def title_paths_def example_app_def xml_eval text_eval)

lemma example_AI_System_title:
  "normalized_title (example_app ''AI System'' ''A system that learns.'') = ''AI System''"
  by (simp add: normalized_title_def title_paths_def example_app_def xml_eval text_eval)

lemma example_AI_System_abstract:
  "normalized_abstract (example_app ''AI System'' ''A system that learns.'') =
     ''A system that learns.''"
  by (simp add: normalized_abstract_def abstract_paths_def example_app_def xml_eval text_eval)

lemma example_root_applications:
  "patent_applications (Element ''root'' None [example_app t1 a1, example_app t2 a2] None 0) =
     [example_app t1 a1, example_app t2 a2]"
  by (simp add: patent_applications_def example_app_def xml_eval)

text \<open>
  C7. Extraction returns no record exactly when the normalized title is shorter than 5
  or the normalized abstract is shorter than 10 (it has no error result); a candidate
  that meets both thresholds is returned with these two texts. What \<open>extract_from_root\<close>
  keeps is exactly the records returned for its candidates, so a rejected candidate is
  not among them and every kept record meets both thresholds. A candidate titled \<open>AI\<close>
  is rejected; one titled \<open>AI System\<close> with an abstract of 21 characters is accepted.
\<close>

theorem record_validation:
  "(extract_patent_data_robust ev e = None \<longleftrightarrow>
      length (normalized_title e) < 5 \<or> length (normalized_abstract e) < 10)
   \<and> (5 \<le> length (normalized_title e) \<and> 10 \<le> length (normalized_abstract e) \<longrightarrow>
        (\<exists>pd. extract_patent_data_robust ev e = Some pd
              \<and> pd_title pd = normalized_title e \<and> pd_abstract pd = normalized_abstract e))
   \<and> extract_from_root ev r =
        List.map_filter (extract_patent_data_robust ev) (patent_applications r)
   \<and> (\<forall>pd \<in> set (extract_from_root ev r). 5 \<le> length (pd_title pd) \<and> 10 \<le> length (pd_abstract pd))
   \<and> normalized_title (example_app ''AI'' ''A system that learns.'') = ''AI''
   \<and> extract_patent_data_robust ev (example_app ''AI'' ''A system that learns.'') = None
   \<and> normalized_title (example_app ''AI System'' ''A system that learns.'') = ''AI System''
   \<and> extract_patent_data_robust ev (example_app ''AI System'' ''A system that learns.'') \<noteq> None"
proof (intro conjI impI ballI)
  show "extract_patent_data_robust ev e = None \<longleftrightarrow>
      length (normalized_title e) < 5 \<or> length (normalized_abstract e) < 10"
    by (rule extract_None_iff)
next
  assume a: "5 \<le> length (normalized_title e) \<and> 10 \<le> length (normalized_abstract e)"
  then have "extract_patent_data_robust ev e \<noteq> None"
    by (simp add: extract_None_iff)
  then obtain pd where "extract_patent_data_robust ev e = Some pd"
    by auto
  with extract_Some_fields [of ev e pd]
  show "\<exists>pd. extract_patent_data_robust ev e = Some pd
      \<and> pd_title pd = normalized_title e \<and> pd_abstract pd = normalized_abstract e"
    by simp
next
  show "extract_from_root ev r =
      List.map_filter (extract_patent_data_robust ev) (patent_applications r)"
    by (rule extract_from_root_map_filter)
next
  fix pd
  assume "pd \<in> set (extract_from_root ev r)"
  then show "5 \<le> length (pd_title pd)"
    by (simp add: extract_from_root_valid)
next
  fix pd
  assume "pd \<in> set (extract_from_root ev r)"
  then show "10 \<le> length (pd_abstract pd)"
    by (simp add: extract_from_root_valid)
next
  show "normalized_title (example_app ''AI'' ''A system that learns.'') = ''AI''"
    by (rule example_AI_title)
next
  show "extract_patent_data_robust ev (example_app ''AI'' ''A system that learns.'') = None"
    unfolding extract_None_iff example_AI_title by simp
next
  show "normalized_title (example_app ''AI System'' ''A system that learns.'') = ''AI System''"
    by (rule example_AI_System_title)
next
  show "extract_patent_data_robust ev (example_app ''AI System'' ''A system that learns.'') \<noteq> None"
    unfolding extract_None_iff example_AI_System_title example_AI_System_abstract by simp
qed

theorem record_validation_witness:
  "5 \<le> length (normalized_title (example_app ''AI System'' ''A system that learns.''))
   \<and> 10 \<le> length (normalized_abstract (example_app ''AI System'' ''A system that learns.''))
   \<and> (\<exists>pd. extract_patent_data_robust example_env
               (example_app ''AI System'' ''A system that learns.'') = Some pd
            \<and> pd_title pd = ''AI System'' \<and> pd_abstract pd = ''A system that learns.'')
   \<and> map pd_title (extract_from_root example_env
        (Element ''root'' None
           [example_app ''AI'' ''A system that learns.'',
            example_app ''AI System'' ''A system that learns.''] None 0)) = [''AI System'']"
proof -
  let ?e = "example_app ''AI System'' ''A system that learns.''"
  let ?r = "Element ''root'' None [example_app ''AI'' ''A system that learns.'', ?e] None 0"
  note t = example_AI_System_title
  note a = example_AI_System_abstract
  have h: "5 \<le> length (normalized_title ?e) \<and> 10 \<le> length (normalized_abstract ?e)"
    unfolding t a by simp
  note inst = record_validation [of example_env ?e ?r]
  from inst have "5 \<le> length (normalized_title ?e) \<and> 10 \<le> length (normalized_abstract ?e) \<longrightarrow>
        (\<exists>pd. extract_patent_data_robust example_env ?e = Some pd
              \<and> pd_title pd = normalized_title ?e \<and> pd_abstract pd = normalized_abstract ?e)"
    by (rule conjunct1 [OF conjunct2])
  from this h have "\<exists>pd. extract_patent_data_robust example_env ?e = Some pd
              \<and> pd_title pd = normalized_title ?e \<and> pd_abstract pd = normalized_abstract ?e"
    by (rule mp)
  then obtain pd where pd: "extract_patent_data_robust example_env ?e = Some pd"
    "pd_title pd = ''AI System''" "pd_abstract pd = ''A system that learns.''"
    unfolding t a by (elim exE conjE)
  then have x: "\<exists>pd. extract_patent_data_robust example_env ?e = Some pd
            \<and> pd_title pd = ''AI System'' \<and> pd_abstract pd = ''A system that learns.''"
    by (intro exI [of _ pd] conjI)
  from inst have "extract_patent_data_robust example_env
      (example_app ''AI'' ''A system that learns.'') = None"
    by (rule conjunct1 [OF conjunct2 [OF conjunct2 [OF conjunct2 [OF conjunct2 [OF conjunct2]]]]])
  moreover from inst have "extract_from_root example_env ?r =
      List.map_filter (extract_patent_data_robust example_env) (patent_applications ?r)"
    by (rule conjunct1 [OF conjunct2 [OF conjunct2]])
  ultimately have s: "map pd_title (extract_from_root example_env ?r) = [''AI System'']"
    using pd by (simp add: example_root_applications List.map_filter_simps)
  from h x s show ?thesis
    by (intro conjI) (rule conjunct1, assumption, rule conjunct2, assumption)
qed

subsection \<open>Sentinel texts\<close>

lemma numbered_app_no_title: "find_element_flexible (numbered_app d a) title_paths = None"
  by (simp add: title_paths_def numbered_app_def xml_eval)

lemma numbered_app_no_abstract: "find_element_flexible (numbered_app d a) abstract_paths = None"
  by (simp add: abstract_paths_def numbered_app_def xml_eval)

lemma twin_root_applications:
  "patent_applications twin_root =
     [numbered_app ''A folding chair.'' 4096, numbered_app ''A round table.'' 8192]"
  by (simp add: patent_applications_def twin_root_def numbered_app_def xml_eval)

lemma numbered_app_id: "extract_patent_id ev (numbered_app d a) = ''20230012345''"
  by (simp add: extract_patent_id_def id_paths_def numbered_app_def xml_eval py_strip_def
      py_isspace_def ord_def)

lemma extract_Some_id_description:
  "extract_patent_data_robust ev e = Some pd \<Longrightarrow>
   pd_id pd = extract_patent_id ev e \<and>
   pd_description pd =
     take 3000 (clean_text (case find_element_flexible e description_paths of
                              Some description_elem \<Rightarrow> extract_text_content description_elem
                            | None \<Rightarrow> []))"
  by (auto simp: extract_patent_data_robust_def Let_def split: if_splits)

lemma numbered_app_description_elem:
  "find_element_flexible (numbered_app d a) description_paths =
     Some (Element ''description'' None [leaf ''p'' d (a + 64)] None (a + 48))"
  by (simp add: description_paths_def numbered_app_def xml_eval)

lemma chair_description:
  "take 3000 (clean_text (case find_element_flexible (numbered_app ''A folding chair.'' a)
                                 description_paths of
                            Some description_elem \<Rightarrow> extract_text_content description_elem
                          | None \<Rightarrow> [])) = ''A folding chair.''"
  unfolding numbered_app_description_elem by (simp add: leaf_def text_eval)

lemma table_description:
  "take 3000 (clean_text (case find_element_flexible (numbered_app ''A round table.'' a)
                                 description_paths of
                            Some description_elem \<Rightarrow> extract_text_content description_elem
                          | None \<Rightarrow> [])) = ''A round table.''"
  unfolding numbered_app_description_elem by (simp add: leaf_def text_eval)

lemma sentinel_record:
  assumes "find_element_flexible e title_paths = None"
    and "find_element_flexible e abstract_paths = None"
  shows "\<exists>pd. extract_patent_data_robust ev e = Some pd
              \<and> pd_title pd = ''Untitled'' \<and> pd_abstract pd = ''No abstract available''"
proof -
  from assms have t: "normalized_title e = ''Untitled''"
    and a: "normalized_abstract e = ''No abstract available''"
    by (simp_all add: normalized_title_def normalized_abstract_def)
  then have "extract_patent_data_robust ev e \<noteq> None"
    by (simp add: extract_None_iff)
  then obtain pd where pd: "extract_patent_data_robust ev e = Some pd"
    by auto
  from extract_Some_fields [OF pd] t a pd show ?thesis
    by simp
qed

text \<open>
  The rows of a rebuild from records of the parser. Each record has its \<open>id\<close>, so the
  row bound for it does not depend on its position, and the loop keeps, for each id,
  the row of the first record that carries it.
\<close>

lemma row_of_json_record:
  "row_of_input i (json_record pd) =
     \<lparr>col_id = pd_id pd, col_title = pd_title pd, col_abstract = pd_abstract pd,
      col_description = pd_description pd, col_claims = pd_claims pd,
      col_assignee = pd_assignee pd,
      col_inventors = json_dumps_strings (pd_inventors pd),
      col_application_date = pd_application_date pd,
      col_publication_date = pd_publication_date pd,
      col_ipc_class = pd_ipc_class pd,
      col_ipc_classes = json_dumps_strings (pd_ipc_classes pd),
      col_category = pd_category pd,
      col_content_vector = create_simple_vector (json_record pd)\<rparr>"
  by (simp add: row_of_input_def json_record_def get_or_def)

lemma row_of_json_record_fields:
  "col_id (row_of_input i (json_record pd)) = pd_id pd"
  "col_title (row_of_input i (json_record pd)) = pd_title pd"
  "col_abstract (row_of_input i (json_record pd)) = pd_abstract pd"
  "col_description (row_of_input i (json_record pd)) = pd_description pd"
  by (simp_all add: row_of_input_def json_record_def get_or_def)

lemma insert_loop_json_snoc:
  "patents (insert_loop i (map json_record b @ [json_record pd]) db) =
     (if pd_id pd \<in> col_id ` set (patents (insert_loop i (map json_record b) db))
      then patents (insert_loop i (map json_record b) db)
      else patents (insert_loop i (map json_record b) db) @
           [row_of_input (i + length b) (json_record pd)])"
proof (induction b arbitrary: i db)
  case Nil
  show ?case
    by (simp add: insert_patent_def patents_fts_insert_def row_of_json_record)
next
  case (Cons q b)
  show ?case
  proof (cases "insert_patent (row_of_input i (json_record q)) db")
    case (Inl e)
    with Cons [of "i + 1" db] show ?thesis
      by (simp add: row_of_json_record)
  next
    case (Inr db')
    with Cons [of "i + 1" db'] show ?thesis
      by (simp add: row_of_json_record)
  qed
qed

lemma insert_loop_json_ids:
  "col_id ` set (patents (insert_loop i (map json_record b) db)) =
     col_id ` set (patents db) \<union> pd_id ` set b"
proof (induction b rule: rev_induct)
  case Nil
  show ?case by simp
next
  case (snoc pd b)
  then show ?case
    by (auto simp: insert_loop_json_snoc Let_def row_of_json_record)
qed

lemma insert_loop_append:
  "insert_loop i (xs @ ys) db = insert_loop (i + length xs) ys (insert_loop i xs db)"
proof (induction xs arbitrary: i db)
  case Nil
  show ?case by simp
next
  case (Cons x xs)
  show ?case
    by (cases "insert_patent (row_of_input i x) db") (simp_all add: Cons)
qed

lemma insert_loop_keeps_rows:
  "set (patents db) \<subseteq> set (patents (insert_loop i ps db))"
proof (induction ps arbitrary: i db)
  case Nil
  show ?case by simp
next
  case (Cons p ps)
  show ?case
  proof (cases "insert_patent (row_of_input i p) db")
    case (Inl e)
    with Cons [of db "i + 1"] show ?thesis
      by simp
  next
    case (Inr db')
    then have "set (patents db) \<subseteq> set (patents db')"
      by (auto simp: insert_patent_def patents_fts_insert_def split: if_splits)
    with Inr Cons [of db' "i + 1"] show ?thesis
      by auto
  qed
qed

lemma insert_loop_json_index:
  "patents (insert_loop i (map json_record b) db) = patents (insert_loop j (map json_record b) db)"
proof (induction b rule: rev_induct)
  case Nil
  show ?case by simp
next
  case (snoc pd b)
  then show ?case
    by (simp add: insert_loop_json_snoc Let_def row_of_json_record)
qed

lemma insert_loop_patents_cong:
  "patents db = patents db' \<Longrightarrow> patents (insert_loop i ps db) = patents (insert_loop i ps db')"
proof (induction ps arbitrary: i db db')
  case Nil
  then show ?case by simp
next
  case (Cons p ps)
  show ?case
  proof (cases "col_id (row_of_input i p) \<in> set (map col_id (patents db))")
    case True
    with Cons.prems have "insert_patent (row_of_input i p) db = Inl IntegrityError"
      "insert_patent (row_of_input i p) db' = Inl IntegrityError"
      by (simp_all add: insert_patent_def)
    with Cons.IH [OF Cons.prems] show ?thesis
      by simp
  next
    case False
    let ?d = "patents_fts_insert (row_of_input i p) (db\<lparr>patents := patents db @ [row_of_input i p]\<rparr>)"
    let ?d' = "patents_fts_insert (row_of_input i p) (db'\<lparr>patents := patents db' @ [row_of_input i p]\<rparr>)"
    from False Cons.prems have "insert_patent (row_of_input i p) db = Inr ?d"
      "insert_patent (row_of_input i p) db' = Inr ?d'"
      by (simp_all add: insert_patent_def)
    moreover from Cons.prems have "patents ?d = patents ?d'"
      by (simp add: patents_fts_insert_def)
    ultimately show ?thesis
      using Cons.IH [of ?d ?d' "i + 1"] by simp
  qed
qed

lemma load_stores_first:
  assumes "pd_id pd \<notin> set (map pd_id before)"
  shows "row_of_input (length before) (json_record pd) \<in>
           set (patents (load_data_sqlite (before @ pd # rest) db))"
proof -
  let ?d0 = "delete_from_patents db"
  let ?d1 = "insert_loop 0 (map json_record (before @ [pd])) ?d0"
  have "col_id ` set (patents (insert_loop 0 (map json_record before) ?d0)) = pd_id ` set before"
    by (simp add: insert_loop_json_ids delete_from_patents_def)
  with assms have "row_of_input (length before) (json_record pd) \<in> set (patents ?d1)"
    by (simp add: insert_loop_json_snoc Let_def)
  moreover have "set (patents ?d1) \<subseteq>
      set (patents (insert_loop (0 + length (map json_record (before @ [pd]))) (map json_record rest) ?d1))"
    by (rule insert_loop_keeps_rows)
  moreover have "load_data_sqlite (before @ pd # rest) db =
      insert_loop (0 + length (map json_record (before @ [pd]))) (map json_record rest) ?d1"
    using insert_loop_append [of 0 "map json_record (before @ [pd])" "map json_record rest" ?d0]
    by (simp add: load_data_sqlite_def index_patents_def)
  ultimately show ?thesis
    by auto
qed

lemma load_skips_later:
  assumes "pd_id pd \<in> set (map pd_id before)"
  shows "patents (load_data_sqlite (before @ pd # rest) db) =
         patents (load_data_sqlite (before @ rest) db)"
proof -
  let ?d0 = "delete_from_patents db"
  let ?d1 = "insert_loop 0 (map json_record (before @ [pd])) ?d0"
  let ?d2 = "insert_loop 0 (map json_record before) ?d0"
  have "col_id ` set (patents ?d2) = pd_id ` set before"
    by (simp add: insert_loop_json_ids delete_from_patents_def)
  with assms have eq: "patents ?d1 = patents ?d2"
    by (simp add: insert_loop_json_snoc Let_def)
  have "patents (load_data_sqlite (before @ pd # rest) db) =
      patents (insert_loop (length before + 1) (map json_record rest) ?d1)"
    using insert_loop_append [of 0 "map json_record (before @ [pd])" "map json_record rest" ?d0]
    by (simp add: load_data_sqlite_def index_patents_def)
  also have "\<dots> = patents (insert_loop (length before + 1) (map json_record rest) ?d2)"
    using eq by (rule insert_loop_patents_cong)
  also have "\<dots> = patents (insert_loop (length before) (map json_record rest) ?d2)"
    by (rule insert_loop_json_index)
  also have "\<dots> = patents (load_data_sqlite (before @ rest) db)"
    using insert_loop_append [of 0 "map json_record before" "map json_record rest" ?d0]
    by (simp add: load_data_sqlite_def index_patents_def)
  finally show ?thesis .
qed

lemma twin_root_records:
  "\<exists>p1 p2. extract_from_root example_env twin_root = [p1, p2]
     \<and> pd_title p1 = ''Untitled'' \<and> pd_abstract p1 = ''No abstract available''
     \<and> pd_id p1 = ''20230012345'' \<and> pd_description p1 = ''A folding chair.''
     \<and> pd_title p2 = ''Untitled'' \<and> pd_abstract p2 = ''No abstract available''
     \<and> pd_id p2 = ''20230012345'' \<and> pd_description p2 = ''A round table.''"
proof -
  let ?e1 = "numbered_app ''A folding chair.'' 4096"
  let ?e2 = "numbered_app ''A round table.'' 8192"
  from sentinel_record [of ?e1 example_env, OF numbered_app_no_title numbered_app_no_abstract]
  obtain p1 where p1: "extract_patent_data_robust example_env ?e1 = Some p1"
    "pd_title p1 = ''Untitled''" "pd_abstract p1 = ''No abstract available''"
    by (elim exE conjE)
  from sentinel_record [of ?e2 example_env, OF numbered_app_no_title numbered_app_no_abstract]
  obtain p2 where p2: "extract_patent_data_robust example_env ?e2 = Some p2"
    "pd_title p2 = ''Untitled''" "pd_abstract p2 = ''No abstract available''"
    by (elim exE conjE)
  from extract_Some_id_description [OF p1(1)]
  have d1: "pd_id p1 = ''20230012345''" "pd_description p1 = ''A folding chair.''"
    unfolding numbered_app_id chair_description by simp_all
  from extract_Some_id_description [OF p2(1)]
  have d2: "pd_id p2 = ''20230012345''" "pd_description p2 = ''A round table.''"
    unfolding numbered_app_id table_description by simp_all
  have "extract_from_root example_env twin_root = [p1, p2]"
    using p1(1) p2(1)
    by (simp add: extract_from_root_map_filter twin_root_applications List.map_filter_simps)
  with p1 p2 d1 d2 show ?thesis
    by (intro exI [of _ p1] exI [of _ p2] conjI)
qed

lemma load_same_id_pair:
  assumes "pd_id p1 = pd_id p2"
  shows "patents (load_data_sqlite [p1, p2] db) = [row_of_input 0 (json_record p1)]"
proof -
  from assms have "pd_id p2 \<in> set (map pd_id [p1])"
    by simp
  then have "patents (load_data_sqlite ([p1] @ p2 # []) db) = patents (load_data_sqlite ([p1] @ []) db)"
    by (rule load_skips_later)
  then show ?thesis
    by (simp add: load_data_sqlite_def index_patents_def delete_from_patents_def
        insert_patent_def patents_fts_insert_def)
qed

text \<open>
  C10, as stated, fails in its last step. Two candidates with no title and no abstract
  that carry the same document number are both accepted by the parser, with the
  sentinel texts, and \<open>extract_from_root\<close> keeps both; loading the two records into the
  empty database stores the first only, because the column \<open>id\<close> is the primary key
  and the loop of \<open>index_patents\<close> skips a refused insert.
\<close>

theorem sentinel_duplicate_id_not_stored:
  "find_element_flexible (numbered_app ''A round table.'' 8192) title_paths = None
   \<and> find_element_flexible (numbered_app ''A round table.'' 8192) abstract_paths = None
   \<and> patent_applications twin_root =
       [numbered_app ''A folding chair.'' 4096, numbered_app ''A round table.'' 8192]
   \<and> map pd_title (extract_from_root example_env twin_root) = [''Untitled'', ''Untitled'']
   \<and> map pd_abstract (extract_from_root example_env twin_root) =
       [''No abstract available'', ''No abstract available'']
   \<and> map pd_id (extract_from_root example_env twin_root) = [''20230012345'', ''20230012345'']
   \<and> map pd_description (extract_from_root example_env twin_root) =
       [''A folding chair.'', ''A round table.'']
   \<and> map col_description
        (patents (load_data_sqlite (extract_from_root example_env twin_root) init_database)) =
       [''A folding chair.'']
   \<and> total_patents (load_data_sqlite (extract_from_root example_env twin_root) init_database) = 1"
proof -
  from twin_root_records obtain p1 p2 where
    r: "extract_from_root example_env twin_root = [p1, p2]"
    and f: "pd_title p1 = ''Untitled''" "pd_abstract p1 = ''No abstract available''"
      "pd_id p1 = ''20230012345''" "pd_description p1 = ''A folding chair.''"
      "pd_title p2 = ''Untitled''" "pd_abstract p2 = ''No abstract available''"
      "pd_id p2 = ''20230012345''" "pd_description p2 = ''A round table.''"
    by (elim exE conjE)
  from f have "pd_id p1 = pd_id p2"
    by simp
  then have l: "patents (load_data_sqlite [p1, p2] init_database) = [row_of_input 0 (json_record p1)]"
    by (rule load_same_id_pair)
  show ?thesis
    unfolding r l total_patents_def
    by (simp add: f row_of_json_record numbered_app_no_title numbered_app_no_abstract
        twin_root_applications)
qed

text \<open>
  C10, amended. A candidate with no title element and no abstract element under any of
  the candidate paths gets the texts \<open>Untitled\<close> (8 characters) and
  \<open>No abstract available\<close> (21 characters); they pass the thresholds, so a record is
  returned for it, and \<open>extract_from_root\<close> keeps that record when the candidate is one
  of the applications of the root. When the records
  \<open>before @ pd # rest\<close> are loaded into the database, the row of this record, with id,
  the two sentinel texts and its description, is stored if no record before it has its
  id; if one has, the record is skipped: the table is the one that the other records
  give.
\<close>

theorem sentinel_texts_accepted_and_stored:
  assumes "find_element_flexible e title_paths = None"
    and "find_element_flexible e abstract_paths = None"
  shows "\<exists>pd. extract_patent_data_robust ev e = Some pd
              \<and> pd_title pd = ''Untitled'' \<and> length (pd_title pd) = 8
              \<and> pd_abstract pd = ''No abstract available'' \<and> length (pd_abstract pd) = 21
              \<and> (e \<in> set (patent_applications r) \<longrightarrow> pd \<in> set (extract_from_root ev r))
              \<and> (\<forall>(before :: patent_data list) rest db.
                    (pd_id pd \<notin> set (map pd_id before) \<longrightarrow>
                       (\<exists>row \<in> set (patents (load_data_sqlite (before @ pd # rest) db)).
                          row = row_of_input (length before) (json_record pd)
                          \<and> col_id row = pd_id pd \<and> col_title row = ''Untitled''
                          \<and> col_abstract row = ''No abstract available''
                          \<and> col_description row = pd_description pd))
                    \<and> (pd_id pd \<in> set (map pd_id before) \<longrightarrow>
                         patents (load_data_sqlite (before @ pd # rest) db) =
                         patents (load_data_sqlite (before @ rest) db)))"
proof -
  from sentinel_record [of e ev, OF assms]
  obtain pd where pd: "extract_patent_data_robust ev e = Some pd"
    and f: "pd_title pd = ''Untitled''" "pd_abstract pd = ''No abstract available''"
    by (elim exE conjE)
  have k: "e \<in> set (patent_applications r) \<longrightarrow> pd \<in> set (extract_from_root ev r)"
  proof
    assume "e \<in> set (patent_applications r)"
    with pd show "pd \<in> set (extract_from_root ev r)"
      by (force simp: extract_from_root_map_filter List.map_filter_def)
  qed
  have s: "\<forall>(before :: patent_data list) rest db.
      (pd_id pd \<notin> set (map pd_id before) \<longrightarrow>
         (\<exists>row \<in> set (patents (load_data_sqlite (before @ pd # rest) db)).
            row = row_of_input (length before) (json_record pd)
            \<and> col_id row = pd_id pd \<and> col_title row = ''Untitled''
            \<and> col_abstract row = ''No abstract available''
            \<and> col_description row = pd_description pd))
      \<and> (pd_id pd \<in> set (map pd_id before) \<longrightarrow>
           patents (load_data_sqlite (before @ pd # rest) db) =
           patents (load_data_sqlite (before @ rest) db))"
  proof (intro allI conjI impI)
    fix before :: "patent_data list" and rest db
    assume "pd_id pd \<notin> set (map pd_id before)"
    then have "row_of_input (length before) (json_record pd) \<in>
        set (patents (load_data_sqlite (before @ pd # rest) db))"
      by (rule load_stores_first)
    then show "\<exists>row \<in> set (patents (load_data_sqlite (before @ pd # rest) db)).
        row = row_of_input (length before) (json_record pd)
        \<and> col_id row = pd_id pd \<and> col_title row = ''Untitled''
        \<and> col_abstract row = ''No abstract available''
        \<and> col_description row = pd_description pd"
      by (rule rev_bexI) (simp add: row_of_json_record_fields f)
  next
    fix before :: "patent_data list" and rest db
    assume "pd_id pd \<in> set (map pd_id before)"
    then show "patents (load_data_sqlite (before @ pd # rest) db) =
        patents (load_data_sqlite (before @ rest) db)"
      by (rule load_skips_later)
  qed
  from pd f k s show ?thesis
    by (intro exI [of _ pd] conjI) simp_all
qed

theorem sentinel_texts_accepted_and_stored_witness:
  "find_element_flexible (numbered_app ''A round table.'' 8192) title_paths = None
   \<and> find_element_flexible (numbered_app ''A round table.'' 8192) abstract_paths = None
   \<and> numbered_app ''A round table.'' 8192 \<in> set (patent_applications twin_root)
   \<and> (\<exists>pd. extract_patent_data_robust example_env (numbered_app ''A round table.'' 8192) = Some pd
            \<and> pd_title pd = ''Untitled'' \<and> pd_abstract pd = ''No abstract available''
            \<and> pd \<in> set (extract_from_root example_env twin_root)
            \<and> pd_id pd \<notin> set (map pd_id [])
            \<and> row_of_input 0 (json_record pd) \<in> set (patents (load_data_sqlite [pd] init_database))
            \<and> col_title (row_of_input 0 (json_record pd)) = ''Untitled''
            \<and> pd_id pd \<in> set (map pd_id [pd])
            \<and> patents (load_data_sqlite [pd, pd] init_database) =
                patents (load_data_sqlite [pd] init_database))"
proof -
  let ?e = "numbered_app ''A round table.'' 8192"
  have m: "?e \<in> set (patent_applications twin_root)"
    by (simp add: twin_root_applications)
  from sentinel_texts_accepted_and_stored [of ?e example_env twin_root,
      OF numbered_app_no_title numbered_app_no_abstract]
  obtain pd where pd: "extract_patent_data_robust example_env ?e = Some pd"
    "pd_title pd = ''Untitled''" "pd_abstract pd = ''No abstract available''"
    and k: "?e \<in> set (patent_applications twin_root) \<longrightarrow>
        pd \<in> set (extract_from_root example_env twin_root)"
    and s: "\<forall>(before :: patent_data list) rest db.
      (pd_id pd \<notin> set (map pd_id before) \<longrightarrow>
         (\<exists>row \<in> set (patents (load_data_sqlite (before @ pd # rest) db)).
            row = row_of_input (length before) (json_record pd)
            \<and> col_id row = pd_id pd \<and> col_title row = ''Untitled''
            \<and> col_abstract row = ''No abstract available''
            \<and> col_description row = pd_description pd))
      \<and> (pd_id pd \<in> set (map pd_id before) \<longrightarrow>
           patents (load_data_sqlite (before @ pd # rest) db) =
           patents (load_data_sqlite (before @ rest) db))"
    by (elim exE conjE)
  from k m have 1: "pd \<in> set (extract_from_root example_env twin_root)"
    by (rule mp)
  have 2: "pd_id pd \<notin> set (map pd_id [])"
    by simp
  note s [THEN spec [where x = "[]"], THEN spec [where x = "[]"],
      THEN spec [where x = init_database], THEN conjunct1]
  from this 2 have "\<exists>row \<in> set (patents (load_data_sqlite ([] @ pd # []) init_database)).
            row = row_of_input (length ([] :: patent_data list)) (json_record pd)
            \<and> col_id row = pd_id pd \<and> col_title row = ''Untitled''
            \<and> col_abstract row = ''No abstract available''
            \<and> col_description row = pd_description pd"
    by (rule mp)
  then have 3: "row_of_input 0 (json_record pd) \<in> set (patents (load_data_sqlite [pd] init_database))
      \<and> col_title (row_of_input 0 (json_record pd)) = ''Untitled''"
    by auto
  have 4: "pd_id pd \<in> set (map pd_id [pd])"
    by simp
  note s [THEN spec [where x = "[pd]"], THEN spec [where x = "[]"],
      THEN spec [where x = init_database], THEN conjunct2]
  from this 4 have "patents (load_data_sqlite ([pd] @ pd # []) init_database) =
      patents (load_data_sqlite ([pd] @ []) init_database)"
    by (rule mp)
  then have 5: "patents (load_data_sqlite [pd, pd] init_database) =
      patents (load_data_sqlite [pd] init_database)"
    by simp
  from pd 1 2 3 4 5 have "\<exists>pd. extract_patent_data_robust example_env ?e = Some pd
            \<and> pd_title pd = ''Untitled'' \<and> pd_abstract pd = ''No abstract available''
            \<and> pd \<in> set (extract_from_root example_env twin_root)
            \<and> pd_id pd \<notin> set (map pd_id [])
            \<and> row_of_input 0 (json_record pd) \<in> set (patents (load_data_sqlite [pd] init_database))
            \<and> col_title (row_of_input 0 (json_record pd)) = ''Untitled''
            \<and> pd_id pd \<in> set (map pd_id [pd])
            \<and> patents (load_data_sqlite [pd, pd] init_database) =
                patents (load_data_sqlite [pd] init_database)"
    by (intro exI [of _ pd] conjI) (simp_all only: simp_thms)
  with m show ?thesis
    by (intro conjI) (rule numbered_app_no_title, rule numbered_app_no_abstract)
qed

subsection \<open>Fallback identifier\<close>

lemma py_strip_Nil [simp]: "py_strip [] = []"
  by (simp add: py_strip_def)

lemma scan_id_paths_None_iff:
  "scan_id_paths e ps = None \<longleftrightarrow> (\<forall>p \<in> set ps. \<not> path_yields_text e p)"
  by (induction ps) (auto simp: path_yields_text_def split: option.splits)

lemma bare_app_no_id: "scan_id_paths (bare_app a) id_paths = None"
  by (simp add: id_paths_def bare_app_def xml_eval)

lemma bare_app_content: "content (bare_app a) = content (bare_app b)"
  by (simp add: bare_app_def leaf_def)

lemma fallback_id_eq:
  "scan_id_paths e id_paths = None \<Longrightarrow>
   extract_patent_id ev e = ''PATENT_'' @ take 8 (str_int (py_hash ev (str_element e)))"
  by (simp add: extract_patent_id_def)

lemmas str_nat_eval = str_nat.simps [of "numeral k"] str_nat.simps [of 0] str_nat.simps [of "Suc 0"]
  digit_char_def for k

lemmas hex_nat_eval = hex_nat.simps [of "numeral k"] hex_nat.simps [of 0] hex_nat.simps [of "Suc 0"]
  hex_digit_def for k

lemma hex_4096: "hex_nat 4096 = ''1000''"
  by (simp add: hex_nat_eval)

lemma hex_8192: "hex_nat 8192 = ''2000''"
  by (simp add: hex_nat_eval)

lemma str_3730: "str_int 3730 = ''3730''"
  by (simp add: str_int_def str_nat_eval)

lemma str_3731: "str_int 3731 = ''3731''"
  by (simp add: str_int_def str_nat_eval)

lemma bare_app_4096_id: "extract_patent_id example_env (bare_app 4096) = ''PATENT_3730''"
proof -
  have "str_element (bare_app 4096) = ''<Element '' @ [CHR 0x27] @ ''us-patent-application'' @
      [CHR 0x27] @ '' at 0x1000>''"
    by (simp add: str_element_def bare_app_def hex_4096)
  then have "py_hash example_env (str_element (bare_app 4096)) = 3730"
    by (simp add: example_env_def ord_def)
  then show ?thesis
    by (simp add: fallback_id_eq [OF bare_app_no_id] str_3730)
qed

lemma bare_app_8192_id: "extract_patent_id example_env (bare_app 8192) = ''PATENT_3731''"
proof -
  have "str_element (bare_app 8192) = ''<Element '' @ [CHR 0x27] @ ''us-patent-application'' @
      [CHR 0x27] @ '' at 0x2000>''"
    by (simp add: str_element_def bare_app_def hex_8192)
  then have "py_hash example_env (str_element (bare_app 8192)) = 3731"
    by (simp add: example_env_def ord_def)
  then show ?thesis
    by (simp add: fallback_id_eq [OF bare_app_no_id] str_3731)
qed

text \<open>
  C4, as stated, fails. The same document, with no identifier under any of the paths,
  parsed into element objects at the addresses \<open>0x1000\<close> and \<open>0x2000\<close>, gets two
  different fallback ids in one process (here with the sum of the code points as the
  string hash; any hash that tells the two representations apart in its first eight
  decimal characters does the same).
\<close>

theorem fallback_id_differs_for_equal_content:
  "content (bare_app 4096) = content (bare_app 8192)
   \<and> list_all (\<lambda>p. \<not> path_yields_text (bare_app 4096) p) id_paths
   \<and> list_all (\<lambda>p. \<not> path_yields_text (bare_app 8192) p) id_paths
   \<and> extract_patent_id example_env (bare_app 4096) = ''PATENT_3730''
   \<and> extract_patent_id example_env (bare_app 8192) = ''PATENT_3731''
   \<and> extract_patent_id example_env (bare_app 4096) \<noteq> extract_patent_id example_env (bare_app 8192)"
proof (intro conjI)
  show "content (bare_app 4096) = content (bare_app 8192)"
    by (rule bare_app_content)
  show "list_all (\<lambda>p. \<not> path_yields_text (bare_app 4096) p) id_paths"
    using bare_app_no_id [of 4096] by (simp only: scan_id_paths_None_iff list_all_iff)
  show "list_all (\<lambda>p. \<not> path_yields_text (bare_app 8192) p) id_paths"
    using bare_app_no_id [of 8192] by (simp only: scan_id_paths_None_iff list_all_iff)
  show "extract_patent_id example_env (bare_app 4096) = ''PATENT_3730''"
    by (rule bare_app_4096_id)
  show "extract_patent_id example_env (bare_app 8192) = ''PATENT_3731''"
    by (rule bare_app_8192_id)
  show "extract_patent_id example_env (bare_app 4096) \<noteq> extract_patent_id example_env (bare_app 8192)"
    unfolding bare_app_4096_id bare_app_8192_id by simp
qed

text \<open>
  C4, amended. For every element under which none of the identifier paths yields a
  non-empty text, the fallback id is \<open>PATENT_\<close> followed by the first eight characters of
  the decimal string hash of the element's representation \<open><Element 'tag' at 0x...>\<close>.
  It has at most 15 characters and begins with \<open>PATENT_\<close>, and it is a function of the
  element's tag, the address of the element object and the hash function of the
  process: two such elements with the same tag and address get the same id in the same
  process, whatever their content.
\<close>

theorem fallback_id_from_object_repr:
  assumes "\<forall>p \<in> set id_paths. \<not> path_yields_text e p"
  shows "extract_patent_id ev e = ''PATENT_'' @ take 8 (str_int (py_hash ev (str_element e)))
         \<and> str_element e =
             ''<Element '' @ [CHR 0x27] @ el_tag e @ [CHR 0x27] @ '' at 0x'' @ hex_nat (el_addr e) @ ''>''
         \<and> length (extract_patent_id ev e) \<le> 15
         \<and> prefix ''PATENT_'' (extract_patent_id ev e)
         \<and> (\<forall>e'. (\<forall>p \<in> set id_paths. \<not> path_yields_text e' p) \<and> el_tag e' = el_tag e \<and>
                el_addr e' = el_addr e \<longrightarrow>
                extract_patent_id ev e' = extract_patent_id ev e)"
proof (intro conjI allI impI)
  from assms have none: "scan_id_paths e id_paths = None"
    by (simp add: scan_id_paths_None_iff)
  show eq: "extract_patent_id ev e = ''PATENT_'' @ take 8 (str_int (py_hash ev (str_element e)))"
    using none by (rule fallback_id_eq)
  show "str_element e =
      ''<Element '' @ [CHR 0x27] @ el_tag e @ [CHR 0x27] @ '' at 0x'' @ hex_nat (el_addr e) @ ''>''"
    by (simp add: str_element_def)
  show "length (extract_patent_id ev e) \<le> 15"
    unfolding eq by simp
  show "prefix ''PATENT_'' (extract_patent_id ev e)"
    unfolding eq by (rule prefixI) simp
next
  fix e'
  assume a: "(\<forall>p \<in> set id_paths. \<not> path_yields_text e' p) \<and> el_tag e' = el_tag e \<and>
      el_addr e' = el_addr e"
  then have "str_element e' = str_element e"
    by (simp add: str_element_def)
  moreover from a have "scan_id_paths e' id_paths = None"
    by (simp add: scan_id_paths_None_iff)
  moreover from assms have "scan_id_paths e id_paths = None"
    by (simp add: scan_id_paths_None_iff)
  ultimately show "extract_patent_id ev e' = extract_patent_id ev e"
    by (simp add: fallback_id_eq)
qed

theorem fallback_id_from_object_repr_witness:
  "list_all (\<lambda>p. \<not> path_yields_text (bare_app 4096) p) id_paths
   \<and> extract_patent_id example_env (bare_app 4096) =
       ''PATENT_'' @ take 8 (str_int (py_hash example_env (str_element (bare_app 4096))))
   \<and> extract_patent_id example_env (bare_app 4096) = ''PATENT_3730''
   \<and> length (extract_patent_id example_env (bare_app 4096)) \<le> 15"
proof -
  have h: "\<forall>p \<in> set id_paths. \<not> path_yields_text (bare_app 4096) p"
    using bare_app_no_id [of 4096] by (simp only: scan_id_paths_None_iff)
  then have h': "list_all (\<lambda>p. \<not> path_yields_text (bare_app 4096) p) id_paths"
    by (simp only: list_all_iff)
  note inst = fallback_id_from_object_repr [of "bare_app 4096" example_env, OF h]
  from inst have 1: "extract_patent_id example_env (bare_app 4096) =
       ''PATENT_'' @ take 8 (str_int (py_hash example_env (str_element (bare_app 4096))))"
    by (rule conjunct1)
  from inst have 2: "length (extract_patent_id example_env (bare_app 4096)) \<le> 15"
    by (rule conjunct1 [OF conjunct2 [OF conjunct2]])
  from h' 1 2 show ?thesis
    by (intro conjI) (assumption, assumption, rule bare_app_4096_id, assumption)
qed

subsection \<open>Document splitter\<close>

lemma while_append_keep:
  assumes "dropWhile P s \<noteq> []"
  shows "dropWhile P (s @ x) = dropWhile P s @ x" and "takeWhile P (s @ x) = takeWhile P s"
proof -
  from assms obtain c where c: "c \<in> set s" "\<not> P c"
    using dropWhile_eq_Nil_conv [of P s] by blast
  from c show "dropWhile P (s @ x) = dropWhile P s @ x"
    by (rule dropWhile_append1)
  from c show "takeWhile P (s @ x) = takeWhile P s"
    by (rule takeWhile_append1)
qed

lemma lit_append: "lit p s = Some r \<Longrightarrow> lit p (s @ x) = Some (r @ x)"
  by (auto simp: lit_def prefix_def split: if_splits)

lemma lit_suffix: "lit p s = Some r \<Longrightarrow> suffix r s"
  by (auto simp: lit_def suffix_drop split: if_splits)

lemma lit_nonempty: "lit p s = Some r \<Longrightarrow> p \<noteq> [] \<Longrightarrow> s \<noteq> [] \<and> hd s = hd p"
  by (auto simp: lit_def prefix_def split: if_splits)

lemma decl_end_append: "decl_end s = Some r \<Longrightarrow> decl_end (s @ x) = Some (r @ x)"
proof -
  assume a: "decl_end s = Some r"
  then have ne: "dropWhile (\<lambda>c. c \<noteq> CHR ''>'') s \<noteq> []"
    by (simp add: decl_end_def Let_def split: if_splits)
  note k = while_append_keep [OF ne, of x]
  from a ne show ?thesis
    by (simp add: decl_end_def Let_def k split: if_splits)
qed

lemma decl_end_suffix: "decl_end s = Some r \<Longrightarrow> suffix r s"
proof -
  assume "decl_end s = Some r"
  then have "r = tl (dropWhile (\<lambda>c. c \<noteq> CHR ''>'') s)"
    by (simp add: decl_end_def Let_def split: if_splits)
  then show ?thesis
    by (metis suffix_dropWhile suffix_tl suffix_order.trans)
qed

lemma tag_end_drop: "tag_end s = Some r \<Longrightarrow> \<exists>c. dropWhile (\<lambda>c. c \<noteq> CHR ''>'') s = c # r"
  by (cases "dropWhile (\<lambda>c. c \<noteq> CHR ''>'') s") (simp_all add: tag_end_def)

lemma tag_end_append: "tag_end s = Some r \<Longrightarrow> tag_end (s @ x) = Some (r @ x)"
proof -
  assume a: "tag_end s = Some r"
  then obtain c where d: "dropWhile (\<lambda>c. c \<noteq> CHR ''>'') s = c # r"
    using tag_end_drop by blast
  then have ne: "dropWhile (\<lambda>c. c \<noteq> CHR ''>'') s \<noteq> []"
    by simp
  from while_append_keep(1) [OF ne, of x] d show ?thesis
    by (simp add: tag_end_def)
qed

lemma tag_end_suffix: "tag_end s = Some r \<Longrightarrow> suffix r s"
proof -
  assume "tag_end s = Some r"
  then obtain c where "dropWhile (\<lambda>c. c \<noteq> CHR ''>'') s = c # r"
    using tag_end_drop by blast
  then have "r = tl (dropWhile (\<lambda>c. c \<noteq> CHR ''>'') s)"
    by simp
  then show ?thesis
    by (metis suffix_dropWhile suffix_tl suffix_order.trans)
qed

lemma skip_ws_append: "skip_ws s \<noteq> [] \<Longrightarrow> skip_ws (s @ x) = skip_ws s @ x"
  unfolding skip_ws_def by (rule while_append_keep(1))

lemma lit_skip_ws_append:
  assumes "lit p (skip_ws s) = Some r" and "p \<noteq> []"
  shows "lit p (skip_ws (s @ x)) = Some (r @ x)"
proof -
  from assms have "skip_ws s \<noteq> []"
    using lit_nonempty by blast
  then have "skip_ws (s @ x) = skip_ws s @ x"
    by (rule skip_ws_append)
  with assms(1) show ?thesis
    by (simp add: lit_append)
qed

lemma skip_ws_suffix: "suffix (skip_ws s) s"
  by (simp add: skip_ws_def suffix_dropWhile)

lemma after_first_length: "after_first p s = Some r \<Longrightarrow> length p \<le> length s"
proof (induction s)
  case Nil
  then show ?case by simp
next
  case (Cons c cs)
  show ?case
  proof (cases "prefix p (c # cs)")
    case True
    then show ?thesis by (rule prefix_length_le)
  next
    case False
    with Cons show ?thesis by simp
  qed
qed

lemma prefix_append_long: "length p \<le> length s \<Longrightarrow> prefix p (s @ x) = prefix p s"
  by (auto simp: prefix_append)

lemma drop_append_short: "n \<le> length s \<Longrightarrow> drop n (s @ x) = drop n s @ x"
  by simp

lemma after_first_append:
  "after_first p s = Some r \<Longrightarrow> after_first p (s @ x) = Some (r @ x)"
proof (induction s)
  case Nil
  then show ?case by simp
next
  case (Cons c cs)
  show ?case
  proof (cases "prefix p (c # cs)")
    case True
    then have l: "length p \<le> length (c # cs)"
      by (rule prefix_length_le)
    then have "prefix p ((c # cs) @ x)"
      using True by (simp only: prefix_append_long)
    moreover from True Cons.prems have "r = drop (length p) (c # cs)"
      by simp
    moreover from l have "drop (length p) ((c # cs) @ x) = drop (length p) (c # cs) @ x"
      by (rule drop_append_short)
    ultimately have "after_first p ((c # cs) @ x) = Some (r @ x)"
      by (simp del: drop_append)
    then show ?thesis .
  next
    case False
    with Cons.prems have r: "after_first p cs = Some r"
      by simp
    then have "length p \<le> length (c # cs)"
      using after_first_length [of p cs r] by simp
    then have "prefix p ((c # cs) @ x) = prefix p (c # cs)"
      by (rule prefix_append_long)
    with False Cons.IH [OF r] show ?thesis
      by simp
  qed
qed

lemma after_first_suffix: "after_first p s = Some r \<Longrightarrow> suffix r s"
proof (induction s)
  case Nil
  then show ?case by simp
next
  case (Cons c cs)
  show ?case
  proof (cases "prefix p (c # cs)")
    case True
    with Cons.prems have "r = drop (length p) (c # cs)"
      by simp
    then show ?thesis
      by (simp only: suffix_drop)
  next
    case False
    with Cons have "suffix r cs"
      by simp
    then show ?thesis
      by (rule suffix_ConsI)
  qed
qed

lemma after_first_ends: "after_first p s = Some [] \<Longrightarrow> suffix p s"
proof (induction s)
  case Nil
  then show ?case by simp
next
  case (Cons c cs)
  show ?case
  proof (cases "prefix p (c # cs)")
    case True
    then obtain zs where z: "c # cs = p @ zs"
      by (auto simp: prefix_def)
    from True Cons.prems have "drop (length p) (c # cs) = []"
      by simp
    with z have "zs = []"
      by simp
    with z show ?thesis
      by simp
  next
    case False
    with Cons have "suffix p cs"
      by simp
    then show ?thesis
      by (rule suffix_ConsI)
  qed
qed

lemma match_documentE:
  assumes "match_document s = Some r"
  obtains r1 r2 r3 r4 r5 r6 where
    "lit xml_decl_start s = Some r1" "decl_end r1 = Some r2"
    "lit ''<!DOCTYPE'' (skip_ws r2) = Some r3" "tag_end r3 = Some r4"
    "lit root_open (skip_ws r4) = Some r5" "tag_end r5 = Some r6"
    "after_first root_close r6 = Some r"
  using assms by (auto simp: match_document_def split: option.splits)

lemma match_documentI:
  "lit xml_decl_start s = Some r1 \<Longrightarrow> decl_end r1 = Some r2 \<Longrightarrow>
   lit ''<!DOCTYPE'' (skip_ws r2) = Some r3 \<Longrightarrow> tag_end r3 = Some r4 \<Longrightarrow>
   lit root_open (skip_ws r4) = Some r5 \<Longrightarrow> tag_end r5 = Some r6 \<Longrightarrow>
   after_first root_close r6 = Some r \<Longrightarrow> match_document s = Some r"
  by (simp add: match_document_def)

lemma match_document_append:
  assumes "match_document d = Some r"
  shows "match_document (d @ x) = Some (r @ x)"
proof -
  from assms obtain r1 r2 r3 r4 r5 r6 where
    1: "lit xml_decl_start d = Some r1" and 2: "decl_end r1 = Some r2"
    and 3: "lit ''<!DOCTYPE'' (skip_ws r2) = Some r3" and 4: "tag_end r3 = Some r4"
    and 5: "lit root_open (skip_ws r4) = Some r5" and 6: "tag_end r5 = Some r6"
    and 7: "after_first root_close r6 = Some r"
    by (rule match_documentE)
  have "root_open \<noteq> []"
    by (simp add: root_open_def)
  with 5 have l5: "lit root_open (skip_ws (r4 @ x)) = Some (r5 @ x)"
    by (rule lit_skip_ws_append)
  from 3 have l3: "lit ''<!DOCTYPE'' (skip_ws (r2 @ x)) = Some (r3 @ x)"
    by (rule lit_skip_ws_append) simp
  show ?thesis
    by (rule match_documentI [OF lit_append [OF 1] decl_end_append [OF 2] l3
          tag_end_append [OF 4] l5 tag_end_append [OF 6] after_first_append [OF 7]])
qed

lemma xml_decl_start_hd: "xml_decl_start \<noteq> [] \<and> hd xml_decl_start = CHR ''<''"
  by (simp add: xml_decl_start_def)

lemma match_document_shape:
  assumes "match_document s = Some r"
  shows "s \<noteq> []" and "hd s = CHR ''<''" and "suffix r s" and "length r < length s"
proof -
  from assms obtain r1 r2 r3 r4 r5 r6 where
    1: "lit xml_decl_start s = Some r1" and 2: "decl_end r1 = Some r2"
    and 3: "lit ''<!DOCTYPE'' (skip_ws r2) = Some r3" and 4: "tag_end r3 = Some r4"
    and 5: "lit root_open (skip_ws r4) = Some r5" and 6: "tag_end r5 = Some r6"
    and 7: "after_first root_close r6 = Some r"
    by (rule match_documentE)
  from lit_nonempty [OF 1] xml_decl_start_hd show "s \<noteq> []" and "hd s = CHR ''<''"
    by simp_all
  have "suffix r r6" using 7 by (rule after_first_suffix)
  also have "suffix r6 r5" using 6 by (rule tag_end_suffix)
  also have "suffix r5 (skip_ws r4)" using 5 by (rule lit_suffix)
  also have "suffix (skip_ws r4) r4" by (rule skip_ws_suffix)
  also have "suffix r4 r3" using 4 by (rule tag_end_suffix)
  also have "suffix r3 (skip_ws r2)" using 3 by (rule lit_suffix)
  also have "suffix (skip_ws r2) r2" by (rule skip_ws_suffix)
  also have "suffix r2 r1" using 2 by (rule decl_end_suffix)
  finally have s1: "suffix r r1" .
  also have "suffix r1 s" using 1 by (rule lit_suffix)
  finally show "suffix r s" .
  from s1 have "length r \<le> length r1"
    by (rule suffix_length_le)
  moreover from 1 xml_decl_start_hd have "length r1 < length s"
    by (auto simp: lit_def prefix_def split: if_splits)
  ultimately show "length r < length s"
    by simp
qed

lemma match_document_last:
  assumes "match_document d = Some []"
  shows "last d = CHR ''>''"
proof -
  from assms obtain r1 r2 r3 r4 r5 r6 where
    1: "lit xml_decl_start d = Some r1" and 2: "decl_end r1 = Some r2"
    and 3: "lit ''<!DOCTYPE'' (skip_ws r2) = Some r3" and 4: "tag_end r3 = Some r4"
    and 5: "lit root_open (skip_ws r4) = Some r5" and 6: "tag_end r5 = Some r6"
    and 7: "after_first root_close r6 = Some []"
    by (rule match_documentE)
  have "suffix root_close r6" using 7 by (rule after_first_ends)
  also have "suffix r6 r5" using 6 by (rule tag_end_suffix)
  also have "suffix r5 (skip_ws r4)" using 5 by (rule lit_suffix)
  also have "suffix (skip_ws r4) r4" by (rule skip_ws_suffix)
  also have "suffix r4 r3" using 4 by (rule tag_end_suffix)
  also have "suffix r3 (skip_ws r2)" using 3 by (rule lit_suffix)
  also have "suffix (skip_ws r2) r2" by (rule skip_ws_suffix)
  also have "suffix r2 r1" using 2 by (rule decl_end_suffix)
  also have "suffix r1 d" using 1 by (rule lit_suffix)
  finally obtain zs where "d = zs @ root_close"
    by (auto simp: suffix_def)
  then show ?thesis
    by (simp add: root_close_def)
qed

lemma not_space_lt_gt: "\<not> py_isspace (CHR ''<'')" "\<not> py_isspace (CHR ''>'')"
  by (simp_all add: py_isspace_def ord_def)

lemma py_strip_id:
  assumes "d \<noteq> []" and "\<not> py_isspace (hd d)" and "\<not> py_isspace (last d)"
  shows "py_strip d = d"
proof -
  from assms have "dropWhile py_isspace d = d"
    by (simp add: dropWhile_eq_self_iff)
  moreover from assms have "dropWhile py_isspace (rev d) = rev d"
    by (simp add: dropWhile_eq_self_iff hd_rev)
  ultimately show ?thesis
    by (simp add: py_strip_def)
qed

lemma match_document_strip:
  assumes "match_document d = Some []"
  shows "py_strip d = d" and "d \<noteq> []"
proof -
  from match_document_shape(1,2) [OF assms] match_document_last [OF assms] not_space_lt_gt
  show "py_strip d = d"
    by (intro py_strip_id) simp_all
  from match_document_shape(1) [OF assms] show "d \<noteq> []" .
qed

lemma finditer_skip: "finditer_from (length ys) (ys @ x) = finditer_from 0 x"
  by (induction ys) simp_all

lemma finditer_match:
  assumes "match_document d = Some []"
  shows "finditer_from 0 (d @ x) = d # finditer_from 0 x"
proof -
  from match_document_shape(1) [OF assms] obtain c cs where d: "d = c # cs"
    by (cases d) auto
  from match_document_append [OF assms, of x] have m: "match_document (c # cs @ x) = Some x"
    by (simp add: d)
  have "finditer_from 0 (c # cs @ x) = (c # cs) # finditer_from (length cs) (cs @ x)"
    by (simp add: m Let_def)
  then show ?thesis
    by (simp add: d finditer_skip)
qed

lemma match_document_space: "py_isspace c \<Longrightarrow> match_document (c # s) = None"
proof -
  assume "py_isspace c"
  with not_space_lt_gt(1) have "c \<noteq> CHR ''<''"
    by auto
  then have "lit xml_decl_start (c # s) = None"
    by (simp add: lit_def xml_decl_start_def)
  then show ?thesis
    by (simp add: match_document_def)
qed

lemma finditer_ws: "list_all py_isspace w \<Longrightarrow> finditer_from 0 (w @ x) = finditer_from 0 x"
  by (induction w) (simp_all add: match_document_space)

lemma finditer_documents:
  assumes "\<forall>(d, w) \<in> set dws. match_document d = Some [] \<and> list_all py_isspace w"
  shows "finditer_from 0 (concat (map (\<lambda>(d, w). d @ w) dws)) = map fst dws"
  using assms
proof (induction dws)
  case Nil
  then show ?case by simp
next
  case (Cons dw dws)
  obtain d w where dw: "dw = (d, w)"
    by (cases dw)
  from Cons.prems dw have m: "match_document d = Some []" and s: "list_all py_isspace w"
    by simp_all
  from Cons have ih: "finditer_from 0 (concat (map (\<lambda>(d, w). d @ w) dws)) = map fst dws"
    by simp
  have "finditer_from 0 (d @ w @ concat (map (\<lambda>(d, w). d @ w) dws)) =
      d # finditer_from 0 (w @ concat (map (\<lambda>(d, w). d @ w) dws))"
    using m by (rule finditer_match)
  also have "finditer_from 0 (w @ concat (map (\<lambda>(d, w). d @ w) dws)) =
      finditer_from 0 (concat (map (\<lambda>(d, w). d @ w) dws))"
    using s by (rule finditer_ws)
  finally show ?case
    by (simp add: dw ih)
qed

lemma split_by_lines_empty: "split_by_lines_improved [] = []"
  by (simp add: split_by_lines_improved_def scan_line_def py_strip_def xml_decl_start_def)

lemma split_documents_of_matches:
  assumes "\<forall>(d, w) \<in> set dws. match_document d = Some [] \<and> list_all py_isspace w"
  shows "split_documents (concat (map (\<lambda>(d, w). d @ w) dws)) = map fst dws"
proof (cases dws)
  case Nil
  then show ?thesis
    by (simp add: split_documents_def regex_documents_def split_by_lines_empty)
next
  case (Cons a list)
  with finditer_documents [OF assms] show ?thesis
    by (simp add: split_documents_def regex_documents_def)
qed

lemma document_units_of_matches:
  assumes "\<forall>(d, w) \<in> set dws. match_document d = Some [] \<and> list_all py_isspace w"
    and "length dws \<le> 50"
  shows "document_units (concat (map (\<lambda>(d, w). d @ w) dws)) = map fst dws"
proof -
  have a: "\<forall>d \<in> set (map fst dws). py_strip d = d \<and> d \<noteq> []"
    using assms(1) match_document_strip by fastforce
  then have m: "map py_strip (map fst dws) = map fst dws"
    by (simp add: map_idI)
  from a have f: "filter (\<lambda>d. d \<noteq> []) (map fst dws) = map fst dws"
    by (simp add: filter_id_conv)
  from assms(2) have t: "take 50 (map fst dws) = map fst dws"
    by simp
  show ?thesis
    unfolding document_units_def split_documents_of_matches [OF assms(1)] t m f ..
qed

lemmas match_eval = match_document_def lit_def decl_end_def tag_end_def skip_ws_def
  xml_decl_start_def root_open_def root_close_def dq_def py_isspace_def ord_def

lemmas lines_eval = split_by_lines_improved_def scan_line_def py_strip_def xml_decl_start_def
  dq_def py_isspace_def ord_def

lemma bulk_doc_Chair: "match_document (bulk_doc ''Chair'') = Some []"
  by (simp add: bulk_doc_def match_eval)

lemma bulk_doc_Table: "match_document (bulk_doc ''Table'') = Some []"
  by (simp add: bulk_doc_def match_eval)

lemma plain_pair_regex: "regex_documents (plain_doc ''Chair'' @ plain_doc ''Table'') = []"
  by (simp add: regex_documents_def plain_doc_def match_eval)

lemma plain_pair_lines:
  "split_by_lines_improved (plain_doc ''Chair'' @ plain_doc ''Table'') =
     [plain_doc ''Chair'' @ plain_doc ''Table'']"
  by (simp add: plain_doc_def lines_eval)

lemma plain_single:
  "regex_documents (plain_doc t) = [] \<Longrightarrow> split_documents (plain_doc t) = split_by_lines_improved (plain_doc t)"
  by (simp add: split_documents_def)

lemma plain_Chair_regex: "regex_documents (plain_doc ''Chair'') = []"
  by (simp add: regex_documents_def plain_doc_def match_eval)

lemma plain_Chair_lines: "split_by_lines_improved (plain_doc ''Chair'') = [plain_doc ''Chair'']"
  by (simp add: plain_doc_def lines_eval)

lemma plain_Table_regex: "regex_documents (plain_doc ''Table'') = []"
  by (simp add: regex_documents_def plain_doc_def match_eval)

lemma plain_Table_lines: "split_by_lines_improved (plain_doc ''Table'') = [plain_doc ''Table'']"
  by (simp add: plain_doc_def lines_eval)

lemma plain_pair_strip:
  "py_strip (plain_doc ''Chair'' @ plain_doc ''Table'') = plain_doc ''Chair'' @ plain_doc ''Table''"
  by (rule py_strip_id) (simp_all add: plain_doc_def py_isspace_def ord_def)

text \<open>
  C3, as stated, fails. Two well-formed documents, each a declaration
  \<open><?xml version="1.0"?>\<close> followed by the root element \<open>us-patent-application\<close>, are each
  split into one unit when alone. Concatenated back-to-back, the pattern finds no match
  (they have no document type), the line scan sees one line, and the splitter yields
  one unit, the whole input, instead of two.
\<close>

theorem split_plain_documents_one_unit:
  "split_documents (plain_doc ''Chair'') = [plain_doc ''Chair'']
   \<and> split_documents (plain_doc ''Table'') = [plain_doc ''Table'']
   \<and> regex_documents (plain_doc ''Chair'' @ plain_doc ''Table'') = []
   \<and> split_documents (plain_doc ''Chair'' @ plain_doc ''Table'') =
       [plain_doc ''Chair'' @ plain_doc ''Table'']
   \<and> document_units (plain_doc ''Chair'' @ plain_doc ''Table'') =
       [plain_doc ''Chair'' @ plain_doc ''Table'']
   \<and> length (document_units (plain_doc ''Chair'' @ plain_doc ''Table'')) \<noteq> 2"
proof -
  have 1: "split_documents (plain_doc ''Chair'') = [plain_doc ''Chair'']"
    by (simp only: plain_single [OF plain_Chair_regex] plain_Chair_lines)
  have 2: "split_documents (plain_doc ''Table'') = [plain_doc ''Table'']"
    by (simp only: plain_single [OF plain_Table_regex] plain_Table_lines)
  have 4: "split_documents (plain_doc ''Chair'' @ plain_doc ''Table'') =
       [plain_doc ''Chair'' @ plain_doc ''Table'']"
    unfolding split_documents_def plain_pair_regex Let_def plain_pair_lines by simp
  have 5: "document_units (plain_doc ''Chair'' @ plain_doc ''Table'') =
       [plain_doc ''Chair'' @ plain_doc ''Table'']"
    unfolding document_units_def 4 using plain_pair_strip
    by (simp add: plain_doc_def)
  have 6: "length (document_units (plain_doc ''Chair'' @ plain_doc ''Table'')) \<noteq> 2"
    unfolding 5 by simp
  from 1 2 plain_pair_regex 4 5 6 show ?thesis
    by (intro conjI)
qed

text \<open>The line scan: lines of joined segments, and the scan of one segment after another.\<close>

lemma split_on_not_Nil: "split_on sep s \<noteq> []"
  by (induction s) (auto split: list.splits)

lemma split_on_append_sep: "split_on sep (a @ sep # b) = split_on sep a @ split_on sep b"
proof (induction a)
  case Nil
  show ?case by simp
next
  case (Cons c a)
  obtain x xs where x: "split_on sep a = x # xs"
    using split_on_not_Nil [of sep a] by (cases "split_on sep a") auto
  with Cons show ?case
    by simp
qed

lemma split_on_no_sep: "sep \<notin> set s \<Longrightarrow> split_on sep s = [s]"
  by (induction s) auto

lemma split_on_hd_subset: "set (hd (split_on sep s)) \<subseteq> set s"
proof (induction s)
  case Nil
  show ?case by simp
next
  case (Cons c s)
  obtain x xs where x: "split_on sep s = x # xs"
    using split_on_not_Nil [of sep s] by (cases "split_on sep s") auto
  with Cons show ?case
    by auto
qed

lemma split_on_join:
  "segs \<noteq> [] \<Longrightarrow>
   split_on sep (py_join [sep] segs) = concat (map (split_on sep) segs)"
proof (induction "[sep]" segs rule: py_join.induct)
  case 1
  then show ?case by simp
next
  case (2 x)
  show ?case by simp
next
  case (3 x y ys)
  then show ?case
    by (simp add: split_on_append_sep)
qed

lemma py_strip_Nil_iff: "py_strip s = [] \<longleftrightarrow> list_all py_isspace s"
proof -
  let ?z = "dropWhile py_isspace s"
  have "py_strip s = [] \<longleftrightarrow> (\<forall>c \<in> set ?z. py_isspace c)"
    by (simp add: py_strip_def dropWhile_eq_Nil_conv)
  also have "\<dots> \<longleftrightarrow> ?z = []"
  proof
    assume a: "\<forall>c \<in> set ?z. py_isspace c"
    show "?z = []"
    proof (rule ccontr)
      assume n: "?z \<noteq> []"
      then have "\<not> py_isspace (hd ?z)"
        by (rule hd_dropWhile)
      moreover from n have "hd ?z \<in> set ?z"
        by (rule hd_in_set)
      ultimately show False
        using a by simp
    qed
  next
    assume e: "?z = []"
    show "\<forall>c \<in> set ?z. py_isspace c"
      unfolding e by simp
  qed
  also have "\<dots> \<longleftrightarrow> list_all py_isspace s"
    by (simp add: dropWhile_eq_Nil_conv list_all_iff)
  finally show ?thesis .
qed

lemma py_strip_append_space:
  assumes "list_all py_isspace w"
  shows "py_strip (s @ w) = py_strip s"
proof (cases "dropWhile py_isspace s = []")
  case True
  then have "list_all py_isspace s"
    by (simp add: dropWhile_eq_Nil_conv list_all_iff)
  with assms have "py_strip (s @ w) = []" "py_strip s = []"
    by (simp_all add: py_strip_Nil_iff)
  then show ?thesis
    by simp
next
  case False
  then have "dropWhile py_isspace (s @ w) = dropWhile py_isspace s @ w"
    by (rule while_append_keep)
  moreover from assms have "dropWhile py_isspace (rev w @ rev (dropWhile py_isspace s)) =
      dropWhile py_isspace (rev (dropWhile py_isspace s))"
    by (intro dropWhile_append2) (simp add: list_all_iff)
  ultimately show ?thesis
    by (simp add: py_strip_def)
qed

lemma py_strip_idem: "py_strip (py_strip s) = py_strip s"
proof (cases "py_strip s = []")
  case True
  have "py_strip [] = []"
    by (simp add: py_strip_def)
  with True show ?thesis
    by simp
next
  case False
  let ?z = "dropWhile py_isspace s"
  let ?r = "dropWhile py_isspace (rev ?z)"
  from False have r: "?r \<noteq> []"
    by (simp add: py_strip_def)
  have z: "?z \<noteq> []"
  proof
    assume "?z = []"
    then have "?r = []"
      by (simp only: rev.simps dropWhile.simps)
    with r show False
      by (rule notE)
  qed
  from r have "\<not> py_isspace (hd ?r)"
    by (rule hd_dropWhile)
  then have l: "\<not> py_isspace (last (py_strip s))"
    using r by (simp add: py_strip_def last_rev)
  obtain ws where ws: "rev ?z = ws @ ?r"
    using takeWhile_dropWhile_id [of py_isspace "rev ?z"] by metis
  from ws have "last (rev ?z) = last (ws @ ?r)"
    by (rule arg_cong)
  also from r have "\<dots> = last ?r"
    by (rule last_appendR)
  finally have "last ?r = last (rev ?z)"
    by (rule sym)
  also from z have "\<dots> = hd ?z"
    by (simp only: last_rev)
  finally have lr: "last ?r = hd ?z" .
  have "hd (py_strip s) = last ?r"
    unfolding py_strip_def by (rule hd_rev)
  from this lr have "hd (py_strip s) = hd ?z"
    by (rule trans)
  moreover from z have "\<not> py_isspace (hd ?z)"
    by (rule hd_dropWhile)
  ultimately have h: "\<not> py_isspace (hd (py_strip s))"
    by simp
  from False h l show ?thesis
    by (rule py_strip_id)
qed

lemma scan_line_documents_prefix:
  "scan_line (st\<lparr>documents := P @ documents st\<rparr>) l =
     (scan_line st l)\<lparr>documents := P @ documents (scan_line st l)\<rparr>"
  by (simp add: scan_line_def Let_def)

lemma foldl_scan_documents_prefix:
  "foldl scan_line (st\<lparr>documents := P @ documents st\<rparr>) ls =
     (foldl scan_line st ls)\<lparr>documents := P @ documents (foldl scan_line st ls)\<rparr>"
proof (induction ls arbitrary: st)
  case Nil
  show ?case by simp
next
  case (Cons l ls)
  show ?case
    by (simp add: scan_line_documents_prefix Cons)
qed

lemma scan_line_closed:
  "(\<not> doc_started st \<longrightarrow> current_doc st = []) \<Longrightarrow>
   \<not> doc_started (scan_line st l) \<longrightarrow> current_doc (scan_line st l) = []"
  by (simp add: scan_line_def Let_def)

lemma foldl_scan_closed:
  "(\<not> doc_started st \<longrightarrow> current_doc st = []) \<Longrightarrow>
   \<not> doc_started (foldl scan_line st ls) \<longrightarrow> current_doc (foldl scan_line st ls) = []"
proof (induction ls arbitrary: st)
  case Nil
  then show ?case by simp
next
  case (Cons l ls)
  from scan_line_closed [OF Cons.prems, of l] show ?case
    by (simp add: Cons.IH)
qed

lemma pending_documents_prefix:
  "pending_documents (st\<lparr>documents := P @ documents st\<rparr>) = P @ pending_documents st"
  by (simp add: pending_documents_def)

lemma split_by_lines_pending:
  "split_by_lines_improved c =
     pending_documents (foldl scan_line
       \<lparr>documents = [], current_doc = [], doc_started = False, doc_depth = 0\<rparr>
       (split_on CHR ''\<newline>'' c))"
  by (simp add: split_by_lines_improved_def pending_documents_def Let_def)

lemma scan_line_declaration:
  assumes "prefix xml_decl_start (py_strip l)"
    and "\<not> doc_started st \<longrightarrow> current_doc st = []"
  shows "scan_line st l =
     \<lparr>documents = pending_documents st, current_doc = l @ ''\<newline>'', doc_started = True,
      doc_depth = 0\<rparr>"
proof -
  have "py_strip [] = []"
    by (simp add: py_strip_def)
  with assms show ?thesis
    by (auto simp: scan_line_def pending_documents_def)
qed

lemma scan_segment:
  assumes "prefix xml_decl_start (py_strip (hd (split_on CHR ''\<newline>'' s)))"
    and "\<not> doc_started st \<longrightarrow> current_doc st = []"
  shows "pending_documents (foldl scan_line st (split_on CHR ''\<newline>'' s)) =
     pending_documents st @ split_by_lines_improved s"
proof -
  let ?init = "\<lparr>documents = [], current_doc = [], doc_started = False, doc_depth = 0\<rparr>"
  obtain l ls where ls: "split_on CHR ''\<newline>'' s = l # ls"
    using split_on_not_Nil [of "CHR ''\<newline>''" s] by (cases "split_on CHR ''\<newline>'' s") auto
  with assms(1) have d: "prefix xml_decl_start (py_strip l)"
    by simp
  let ?x = "\<lparr>documents = [], current_doc = l @ ''\<newline>'', doc_started = True, doc_depth = 0\<rparr>"
  have i: "scan_line ?init l = ?x"
    using scan_line_declaration [OF d, of ?init] by (simp add: pending_documents_def py_strip_def)
  have "scan_line st l = ?x\<lparr>documents := pending_documents st @ documents ?x\<rparr>"
    using scan_line_declaration [OF d assms(2)] by simp
  then have "foldl scan_line st (l # ls) =
      (foldl scan_line ?x ls)\<lparr>documents := pending_documents st @ documents (foldl scan_line ?x ls)\<rparr>"
    by (simp only: foldl_Cons foldl_scan_documents_prefix)
  then have "pending_documents (foldl scan_line st (l # ls)) =
      pending_documents st @ pending_documents (foldl scan_line ?x ls)"
    by (simp only: pending_documents_prefix)
  moreover have "split_by_lines_improved s = pending_documents (foldl scan_line ?x ls)"
    unfolding split_by_lines_pending ls by (simp only: foldl_Cons i)
  ultimately show ?thesis
    by (simp only: ls)
qed

lemma scan_segments:
  assumes "\<forall>s \<in> set segs. prefix xml_decl_start (py_strip (hd (split_on CHR ''\<newline>'' s)))"
    and "\<not> doc_started st \<longrightarrow> current_doc st = []"
  shows "pending_documents (foldl scan_line st (concat (map (split_on CHR ''\<newline>'') segs))) =
     pending_documents st @ concat (map split_by_lines_improved segs)"
  using assms
proof (induction segs arbitrary: st)
  case Nil
  show ?case by simp
next
  case (Cons s segs)
  let ?st = "foldl scan_line st (split_on CHR ''\<newline>'' s)"
  from Cons.prems(2) have c: "\<not> doc_started ?st \<longrightarrow> current_doc ?st = []"
    by (rule foldl_scan_closed)
  from Cons.prems(1) have a: "\<forall>s \<in> set segs. prefix xml_decl_start (py_strip (hd (split_on CHR ''\<newline>'' s)))"
    and b: "prefix xml_decl_start (py_strip (hd (split_on CHR ''\<newline>'' s)))"
    by simp_all
  have "pending_documents (foldl scan_line ?st (concat (map (split_on CHR ''\<newline>'') segs))) =
      pending_documents ?st @ concat (map split_by_lines_improved segs)"
    using a c by (rule Cons.IH)
  also have "pending_documents ?st = pending_documents st @ split_by_lines_improved s"
    using b Cons.prems(2) by (rule scan_segment)
  finally show ?case
    by simp
qed

lemma split_by_lines_of_segments:
  assumes "\<forall>s \<in> set segs. prefix xml_decl_start (py_strip (hd (split_on CHR ''\<newline>'' s)))"
  shows "split_by_lines_improved (py_join ''\<newline>'' segs) =
     concat (map split_by_lines_improved segs)"
proof (cases "segs = []")
  case True
  then show ?thesis
    by (simp add: split_by_lines_empty)
next
  case False
  let ?init = "\<lparr>documents = [], current_doc = [], doc_started = False, doc_depth = 0\<rparr>"
  have "pending_documents ?init = []"
    by (simp add: pending_documents_def py_strip_def)
  moreover have "pending_documents (foldl scan_line ?init
      (concat (map (split_on CHR ''\<newline>'') segs))) =
      pending_documents ?init @ concat (map split_by_lines_improved segs)"
    using assms by (rule scan_segments) simp
  ultimately show ?thesis
    unfolding split_by_lines_pending split_on_join [OF False] by simp
qed

lemma xml_decl_start_not_Nil: "xml_decl_start \<noteq> []"
  by (simp add: xml_decl_start_def)

lemma declared_strip_not_Nil:
  assumes "prefix xml_decl_start (py_strip (hd (split_on CHR ''\<newline>'' s)))"
  shows "py_strip s \<noteq> []"
proof -
  from assms xml_decl_start_not_Nil have "py_strip (hd (split_on CHR ''\<newline>'' s)) \<noteq> []"
    by auto
  then obtain c where "c \<in> set (hd (split_on CHR ''\<newline>'' s))" "\<not> py_isspace c"
    by (auto simp: py_strip_Nil_iff list_all_iff)
  with split_on_hd_subset [of "CHR ''\<newline>''" s] have "\<not> list_all py_isspace s"
    by (auto simp: list_all_iff)
  then show ?thesis
    by (simp add: py_strip_Nil_iff)
qed

lemma split_by_lines_one_line:
  assumes "CHR ''\<newline>'' \<notin> set s" and "prefix xml_decl_start (py_strip s)"
  shows "split_by_lines_improved s = [py_strip s]"
proof -
  let ?init = "\<lparr>documents = [], current_doc = [], doc_started = False, doc_depth = 0\<rparr>"
  from assms(1) have l: "split_on CHR ''\<newline>'' s = [s]"
    by (rule split_on_no_sep)
  have "scan_line ?init s =
      \<lparr>documents = pending_documents ?init, current_doc = s @ ''\<newline>'', doc_started = True,
       doc_depth = 0\<rparr>"
    using assms(2) by (rule scan_line_declaration) simp
  moreover have "pending_documents ?init = []"
    by (simp add: pending_documents_def py_strip_def)
  moreover have "py_strip (s @ ''\<newline>'') = py_strip s"
    by (rule py_strip_append_space) (simp add: py_isspace_def ord_def)
  moreover from assms(2) xml_decl_start_not_Nil have "py_strip s \<noteq> []"
    by auto
  ultimately show ?thesis
    unfolding split_by_lines_pending l by (simp add: pending_documents_def)
qed

lemma split_documents_of_segments:
  assumes "\<forall>s \<in> set segs. prefix xml_decl_start (py_strip (hd (split_on CHR ''\<newline>'' s)))
             \<and> split_by_lines_improved s = [py_strip s]"
    and "regex_documents (py_join ''\<newline>'' segs) = []"
  shows "split_documents (py_join ''\<newline>'' segs) = map py_strip segs"
proof -
  from assms(1) have "split_by_lines_improved (py_join ''\<newline>'' segs) =
      concat (map split_by_lines_improved segs)"
    by (intro split_by_lines_of_segments) simp
  also from assms(1) have "map split_by_lines_improved segs = map (\<lambda>s. [py_strip s]) segs"
    by simp
  also have "concat (map (\<lambda>s. [py_strip s]) segs) = map py_strip segs"
    by (induction segs) simp_all
  finally show ?thesis
    using assms(2) by (simp add: split_documents_def)
qed

lemma document_units_of_segments:
  assumes "\<forall>s \<in> set segs. prefix xml_decl_start (py_strip (hd (split_on CHR ''\<newline>'' s)))
             \<and> split_by_lines_improved s = [py_strip s]"
    and "regex_documents (py_join ''\<newline>'' segs) = []"
    and "length segs \<le> 50"
  shows "document_units (py_join ''\<newline>'' segs) = map py_strip segs"
proof -
  have m: "map py_strip (map py_strip segs) = map py_strip segs"
    by (simp add: py_strip_idem)
  from assms(1) have "\<forall>d \<in> set (map py_strip segs). d \<noteq> []"
    by (auto dest: declared_strip_not_Nil)
  then have f: "filter (\<lambda>d. d \<noteq> []) (map py_strip segs) = map py_strip segs"
    by (simp only: filter_id_conv) 
  from assms(3) have t: "take 50 (map py_strip segs) = map py_strip segs"
    by simp
  show ?thesis
    unfolding document_units_def split_documents_of_segments [OF assms(1,2)] t m f ..
qed

text \<open>
  A document on several lines: the declaration line, then lines of which one holds the
  opening root tag, and a last line that holds the closing root tag.
\<close>

lemma split_on_join_lines:
  assumes "ls \<noteq> []" and "\<forall>l \<in> set ls. CHR ''\<newline>'' \<notin> set l"
  shows "split_on CHR ''\<newline>'' (py_join ''\<newline>'' ls) = ls"
proof -
  from assms(2) have "concat (map (split_on CHR ''\<newline>'') ls) = ls"
    by (induction ls) (simp_all add: split_on_no_sep)
  then show ?thesis
    by (simp only: split_on_join [OF assms(1)])
qed

lemma join_lines_terminated:
  "ls \<noteq> [] \<Longrightarrow> concat (map (\<lambda>l. l @ ''\<newline>'') ls) = py_join ''\<newline>'' ls @ ''\<newline>''"
  by (induction "''\<newline>''" ls rule: py_join.induct) simp_all

lemma foldl_scan_plain_lines:
  assumes "doc_started st"
    and "\<forall>l \<in> set ls. \<not> prefix xml_decl_start (py_strip l) \<and> \<not> sublist root_open (py_strip l)
           \<and> \<not> sublist root_close (py_strip l)"
  shows "foldl scan_line st ls = st\<lparr>current_doc := current_doc st @ concat (map (\<lambda>l. l @ ''\<newline>'') ls)\<rparr>"
  using assms
proof (induction ls arbitrary: st)
  case Nil
  show ?case by simp
next
  case (Cons l ls)
  from Cons.prems have "scan_line st l = st\<lparr>current_doc := current_doc st @ l @ ''\<newline>''\<rparr>"
    by (simp add: scan_line_def)
  moreover from Cons.prems have "foldl scan_line (st\<lparr>current_doc := current_doc st @ l @ ''\<newline>''\<rparr>) ls =
      st\<lparr>current_doc := current_doc st @ l @ ''\<newline>''\<rparr>
        \<lparr>current_doc := current_doc (st\<lparr>current_doc := current_doc st @ l @ ''\<newline>''\<rparr>) @
           concat (map (\<lambda>l. l @ ''\<newline>'') ls)\<rparr>"
    by (intro Cons.IH) simp_all
  ultimately show ?case
    by simp
qed

lemma split_by_lines_tagged_lines:
  assumes dc: "prefix xml_decl_start (py_strip l1)"
    and pl: "\<forall>l \<in> set (pre @ mid). \<not> prefix xml_decl_start (py_strip l)
        \<and> \<not> sublist root_open (py_strip l) \<and> \<not> sublist root_close (py_strip l)"
    and op: "\<not> prefix xml_decl_start (py_strip lo)" "sublist root_open (py_strip lo)"
    and cl: "\<not> prefix xml_decl_start (py_strip lc)" "\<not> sublist root_open (py_strip lc)"
      "sublist root_close (py_strip lc)"
    and nl: "\<forall>l \<in> set (l1 # pre @ lo # mid @ [lc]). CHR ''\<newline>'' \<notin> set l"
  shows "split_by_lines_improved (py_join ''\<newline>'' (l1 # pre @ lo # mid @ [lc])) =
           [py_strip (py_join ''\<newline>'' (l1 # pre @ lo # mid @ [lc]))]"
    and "prefix xml_decl_start
           (py_strip (hd (split_on CHR ''\<newline>'' (py_join ''\<newline>'' (l1 # pre @ lo # mid @ [lc])))))"
proof -
  let ?ls = "l1 # pre @ lo # mid @ [lc]"
  let ?init = "\<lparr>documents = [], current_doc = [], doc_started = False, doc_depth = 0\<rparr>"
  let ?t = "\<lambda>ls. concat (map (\<lambda>l. l @ ''\<newline>'') ls)"
  have sp: "split_on CHR ''\<newline>'' (py_join ''\<newline>'' ?ls) = ?ls"
    using nl by (intro split_on_join_lines) simp_all
  show "prefix xml_decl_start (py_strip (hd (split_on CHR ''\<newline>'' (py_join ''\<newline>'' ?ls))))"
    unfolding sp using dc by simp
  have e: "py_strip [] = []"
    by (simp add: py_strip_def)
  let ?s1 = "\<lparr>documents = [], current_doc = l1 @ ''\<newline>'', doc_started = True, doc_depth = 0\<rparr>"
  have 1: "scan_line ?init l1 = ?s1"
    using scan_line_declaration [OF dc, of ?init] by (simp add: pending_documents_def e)
  let ?s2 = "?s1\<lparr>current_doc := ?t (l1 # pre)\<rparr>"
  from pl have 2: "foldl scan_line ?s1 pre = ?s2"
    by (subst foldl_scan_plain_lines) simp_all
  let ?s3 = "\<lparr>documents = [], current_doc = ?t (l1 # pre @ [lo]), doc_started = True, doc_depth = 1\<rparr>"
  from op have 3: "scan_line ?s2 lo = ?s3"
    by (simp add: scan_line_def)
  let ?s4 = "?s3\<lparr>current_doc := ?t (l1 # pre @ lo # mid)\<rparr>"
  from pl have 4: "foldl scan_line ?s3 mid = ?s4"
    by (subst foldl_scan_plain_lines) simp_all
  let ?s5 = "\<lparr>documents = [py_strip (?t ?ls)], current_doc = [], doc_started = False, doc_depth = 0\<rparr>"
  from cl have 5: "scan_line ?s4 lc = ?s5"
    by (simp add: scan_line_def)
  have "foldl scan_line ?init ?ls = ?s5"
    by (simp only: foldl_Cons foldl_append foldl_Nil 1 2 3 4 5)
  then have "split_by_lines_improved (py_join ''\<newline>'' ?ls) = [py_strip (?t ?ls)]"
    unfolding split_by_lines_pending sp by (simp add: pending_documents_def e)
  also have "?t ?ls = py_join ''\<newline>'' ?ls @ ''\<newline>''"
    by (rule join_lines_terminated) simp
  also have "py_strip (py_join ''\<newline>'' ?ls @ ''\<newline>'') = py_strip (py_join ''\<newline>'' ?ls)"
    by (rule py_strip_append_space) (simp add: py_isspace_def ord_def)
  finally show "split_by_lines_improved (py_join ''\<newline>'' ?ls) = [py_strip (py_join ''\<newline>'' ?ls)]" .
qed

lemma plain_doc_one_line: "CHR ''\<newline>'' \<notin> set (plain_doc ''Chair'')"
  "CHR ''\<newline>'' \<notin> set (plain_doc ''Table'')"
  by (simp_all add: plain_doc_def dq_def)

lemma plain_doc_strip: "py_strip (plain_doc ''Chair'') = plain_doc ''Chair''"
  "py_strip (plain_doc ''Table'') = plain_doc ''Table''"
  by (rule py_strip_id, simp_all add: plain_doc_def py_isspace_def ord_def)+

lemma plain_doc_declared: "prefix xml_decl_start (plain_doc t)"
  by (simp add: plain_doc_def xml_decl_start_def)

lemma plain_lines_regex:
  "regex_documents (py_join ''\<newline>'' [plain_doc ''Chair'', plain_doc ''Table'']) = []"
  by (simp add: regex_documents_def plain_doc_def match_eval)

lemma lined_doc_first_line:
  "hd (split_on CHR ''\<newline>'' (lined_doc t)) = ''<?xml version='' @ [dq] @ ''1.0'' @ [dq] @ ''?>''"
  by (simp add: lined_doc_def dq_def split: list.splits)

lemma lined_doc_declared:
  "prefix xml_decl_start (py_strip (hd (split_on CHR ''\<newline>'' (lined_doc t))))"
  unfolding lined_doc_first_line by (simp add: xml_decl_start_def py_strip_def py_isspace_def ord_def dq_def)

lemma lined_doc_strip: "py_strip (lined_doc ''Chair'') = lined_doc ''Chair''"
  "py_strip (lined_doc ''Table'') = lined_doc ''Table''"
  by (rule py_strip_id, simp_all add: lined_doc_def py_isspace_def ord_def)+

lemma lined_doc_lines:
  "split_by_lines_improved (lined_doc ''Chair'') = [lined_doc ''Chair'']"
  "split_by_lines_improved (lined_doc ''Table'') = [lined_doc ''Table'']"
  by code_simp+

lemma lined_lines_regex:
  "regex_documents (py_join ''\<newline>'' [lined_doc ''Chair'', lined_doc ''Table'']) = []"
  by (simp add: regex_documents_def lined_doc_def match_eval)

lemma lined_line_facts:
  "prefix xml_decl_start (py_strip (''<?xml version='' @ [dq] @ ''1.0'' @ [dq] @ ''?>''))"
  "\<not> prefix xml_decl_start (py_strip ''<abstract>Chair</abstract>'')
   \<and> \<not> sublist root_open (py_strip ''<abstract>Chair</abstract>'')
   \<and> \<not> sublist root_close (py_strip ''<abstract>Chair</abstract>'')"
  "\<not> prefix xml_decl_start (py_strip ''<us-patent-application>'')"
  "sublist root_open (py_strip ''<us-patent-application>'')"
  "\<not> prefix xml_decl_start (py_strip ''</us-patent-application>'')"
  "\<not> sublist root_open (py_strip ''</us-patent-application>'')"
  "sublist root_close (py_strip ''</us-patent-application>'')"
  by code_simp+

text \<open>
  C3, amended. The splitter yields exactly the N documents, in order, for an input of
  either of two layouts. First, N documents each of which the declaration-anchored
  pattern matches as a whole (declaration \<open><?xml version="1.0" ...?>\<close>, document type, root
  element \<open>us-patent-application\<close> up to its first closing tag), each followed by any
  amount of whitespace. Second, when the pattern finds no match in the input, N segments
  joined by line breaks, each of which begins, after leading whitespace, with the
  declaration on its first line and is split by the line scan, alone, into its one
  stripped document: the line scan of the joined segments is the concatenation of the
  line scans of the segments, so the result is the N stripped segments. Such a segment
  is every single line that begins with the declaration, and every document of several
  lines that consists of the declaration line, one later line with the opening root
  tag and a last line with the closing root tag, no other line holding a root tag or
  beginning with the declaration. In both layouts, when N is at most 50 the units handed
  to the XML parser are exactly these documents, so each is parsable if the document
  was. The line scan is used only when the pattern finds no match.
\<close>

theorem split_documents_of_declared_documents:
  "((\<forall>(d, w) \<in> set dws. match_document d = Some [] \<and> list_all py_isspace w) \<longrightarrow>
      split_documents (concat (map (\<lambda>(d, w). d @ w) dws)) = map fst dws
      \<and> length (split_documents (concat (map (\<lambda>(d, w). d @ w) dws))) = length dws
      \<and> (length dws \<le> 50 \<longrightarrow>
           document_units (concat (map (\<lambda>(d, w). d @ w) dws)) = map fst dws))
   \<and> ((\<forall>s \<in> set segs. prefix xml_decl_start (py_strip (hd (split_on CHR ''\<newline>'' s)))) \<longrightarrow>
        split_by_lines_improved (py_join ''\<newline>'' segs) =
          concat (map split_by_lines_improved segs))
   \<and> ((\<forall>s \<in> set segs. prefix xml_decl_start (py_strip (hd (split_on CHR ''\<newline>'' s)))
                         \<and> split_by_lines_improved s = [py_strip s])
        \<and> regex_documents (py_join ''\<newline>'' segs) = [] \<longrightarrow>
        split_documents (py_join ''\<newline>'' segs) = map py_strip segs
        \<and> length (split_documents (py_join ''\<newline>'' segs)) = length segs
        \<and> (length segs \<le> 50 \<longrightarrow>
             document_units (py_join ''\<newline>'' segs) = map py_strip segs))
   \<and> (CHR ''\<newline>'' \<notin> set s \<and> prefix xml_decl_start (py_strip s) \<longrightarrow>
        prefix xml_decl_start (py_strip (hd (split_on CHR ''\<newline>'' s)))
        \<and> split_by_lines_improved s = [py_strip s])
   \<and> (prefix xml_decl_start (py_strip decl_line)
        \<and> (\<forall>l \<in> set (head_lines @ body_lines).
              \<not> prefix xml_decl_start (py_strip l) \<and> \<not> sublist root_open (py_strip l)
              \<and> \<not> sublist root_close (py_strip l))
        \<and> \<not> prefix xml_decl_start (py_strip open_line) \<and> sublist root_open (py_strip open_line)
        \<and> \<not> prefix xml_decl_start (py_strip close_line)
        \<and> \<not> sublist root_open (py_strip close_line) \<and> sublist root_close (py_strip close_line)
        \<and> (\<forall>l \<in> set (decl_line # head_lines @ open_line # body_lines @ [close_line]).
              CHR ''\<newline>'' \<notin> set l) \<longrightarrow>
        prefix xml_decl_start (py_strip (hd (split_on CHR ''\<newline>''
          (py_join ''\<newline>'' (decl_line # head_lines @ open_line # body_lines @ [close_line])))))
        \<and> split_by_lines_improved
              (py_join ''\<newline>'' (decl_line # head_lines @ open_line # body_lines @ [close_line])) =
            [py_strip
              (py_join ''\<newline>'' (decl_line # head_lines @ open_line # body_lines @ [close_line]))])
   \<and> (regex_documents c \<noteq> [] \<longrightarrow> split_documents c = regex_documents c)
   \<and> (regex_documents c = [] \<longrightarrow> split_documents c = split_by_lines_improved c)"
proof (intro conjI impI)
  assume a: "\<forall>(d, w) \<in> set dws. match_document d = Some [] \<and> list_all py_isspace w"
  show s: "split_documents (concat (map (\<lambda>(d, w). d @ w) dws)) = map fst dws"
    using a by (rule split_documents_of_matches)
  show "length (split_documents (concat (map (\<lambda>(d, w). d @ w) dws))) = length dws"
    unfolding s by simp
  show "document_units (concat (map (\<lambda>(d, w). d @ w) dws)) = map fst dws"
    if "length dws \<le> 50"
    using a that by (rule document_units_of_matches)
next
  assume "\<forall>s \<in> set segs. prefix xml_decl_start (py_strip (hd (split_on CHR ''\<newline>'' s)))"
  then show "split_by_lines_improved (py_join ''\<newline>'' segs) =
      concat (map split_by_lines_improved segs)"
    by (rule split_by_lines_of_segments)
next
  assume b: "(\<forall>s \<in> set segs. prefix xml_decl_start (py_strip (hd (split_on CHR ''\<newline>'' s)))
                         \<and> split_by_lines_improved s = [py_strip s])
        \<and> regex_documents (py_join ''\<newline>'' segs) = []"
  show t: "split_documents (py_join ''\<newline>'' segs) = map py_strip segs"
    using b [THEN conjunct1] b [THEN conjunct2] by (rule split_documents_of_segments)
  show "length (split_documents (py_join ''\<newline>'' segs)) = length segs"
    unfolding t by simp
  show "document_units (py_join ''\<newline>'' segs) = map py_strip segs"
    if "length segs \<le> 50"
    using b [THEN conjunct1] b [THEN conjunct2] that by (rule document_units_of_segments)
next
  assume o: "CHR ''\<newline>'' \<notin> set s \<and> prefix xml_decl_start (py_strip s)"
  then show "prefix xml_decl_start (py_strip (hd (split_on CHR ''\<newline>'' s)))"
    by (simp add: split_on_no_sep)
  from o show "split_by_lines_improved s = [py_strip s]"
    by (simp add: split_by_lines_one_line)
next
  assume t: "prefix xml_decl_start (py_strip decl_line)
        \<and> (\<forall>l \<in> set (head_lines @ body_lines).
              \<not> prefix xml_decl_start (py_strip l) \<and> \<not> sublist root_open (py_strip l)
              \<and> \<not> sublist root_close (py_strip l))
        \<and> \<not> prefix xml_decl_start (py_strip open_line) \<and> sublist root_open (py_strip open_line)
        \<and> \<not> prefix xml_decl_start (py_strip close_line)
        \<and> \<not> sublist root_open (py_strip close_line) \<and> sublist root_close (py_strip close_line)
        \<and> (\<forall>l \<in> set (decl_line # head_lines @ open_line # body_lines @ [close_line]).
              CHR ''\<newline>'' \<notin> set l)"
  then have t1: "prefix xml_decl_start (py_strip decl_line)"
    and t2: "\<forall>l \<in> set (head_lines @ body_lines).
              \<not> prefix xml_decl_start (py_strip l) \<and> \<not> sublist root_open (py_strip l)
              \<and> \<not> sublist root_close (py_strip l)"
    and t3: "\<not> prefix xml_decl_start (py_strip open_line)" "sublist root_open (py_strip open_line)"
    and t4: "\<not> prefix xml_decl_start (py_strip close_line)"
      "\<not> sublist root_open (py_strip close_line)" "sublist root_close (py_strip close_line)"
    and t5: "\<forall>l \<in> set (decl_line # head_lines @ open_line # body_lines @ [close_line]).
              CHR ''\<newline>'' \<notin> set l"
    by simp_all
  from t1 t2 t3 t4 t5
  show "prefix xml_decl_start (py_strip (hd (split_on CHR ''\<newline>''
          (py_join ''\<newline>'' (decl_line # head_lines @ open_line # body_lines @ [close_line])))))"
    by (rule split_by_lines_tagged_lines(2))
  from t1 t2 t3 t4 t5
  show "split_by_lines_improved
              (py_join ''\<newline>'' (decl_line # head_lines @ open_line # body_lines @ [close_line])) =
            [py_strip
              (py_join ''\<newline>'' (decl_line # head_lines @ open_line # body_lines @ [close_line]))]"
    by (rule split_by_lines_tagged_lines(1))
next
  show "split_documents c = regex_documents c" if "regex_documents c \<noteq> []"
    using that by (simp add: split_documents_def)
  show "split_documents c = split_by_lines_improved c" if "regex_documents c = []"
    using that by (simp add: split_documents_def)
qed

theorem split_documents_of_declared_documents_witness:
  "match_document (bulk_doc ''Chair'') = Some [] \<and> list_all py_isspace ''\<newline>''
   \<and> match_document (bulk_doc ''Table'') = Some [] \<and> list_all py_isspace []
   \<and> split_documents (bulk_doc ''Chair'' @ ''\<newline>'' @ bulk_doc ''Table'') =
       [bulk_doc ''Chair'', bulk_doc ''Table'']
   \<and> document_units (bulk_doc ''Chair'' @ ''\<newline>'' @ bulk_doc ''Table'') =
       [bulk_doc ''Chair'', bulk_doc ''Table'']
   \<and> regex_documents (bulk_doc ''Chair'' @ ''\<newline>'' @ bulk_doc ''Table'') \<noteq> []
   \<and> CHR ''\<newline>'' \<notin> set (plain_doc ''Chair'')
   \<and> prefix xml_decl_start (py_strip (plain_doc ''Chair''))
   \<and> CHR ''\<newline>'' \<notin> set (plain_doc ''Table'')
   \<and> prefix xml_decl_start (py_strip (plain_doc ''Table''))
   \<and> regex_documents (plain_doc ''Chair'' @ ''\<newline>'' @ plain_doc ''Table'') = []
   \<and> split_documents (plain_doc ''Chair'' @ ''\<newline>'' @ plain_doc ''Table'') =
       [plain_doc ''Chair'', plain_doc ''Table'']
   \<and> split_by_lines_improved (plain_doc ''Chair'' @ ''\<newline>'' @ plain_doc ''Table'') =
       [plain_doc ''Chair'', plain_doc ''Table'']
   \<and> document_units (plain_doc ''Chair'' @ ''\<newline>'' @ plain_doc ''Table'') =
       [plain_doc ''Chair'', plain_doc ''Table'']
   \<and> sublist root_open (py_strip ''<us-patent-application>'')
   \<and> \<not> sublist root_open (py_strip ''</us-patent-application>'')
   \<and> sublist root_close (py_strip ''</us-patent-application>'')
   \<and> prefix xml_decl_start (py_strip (hd (split_on CHR ''\<newline>'' (lined_doc ''Chair''))))
   \<and> split_by_lines_improved (lined_doc ''Chair'') = [py_strip (lined_doc ''Chair'')]
   \<and> prefix xml_decl_start (py_strip (hd (split_on CHR ''\<newline>'' (lined_doc ''Table''))))
   \<and> split_by_lines_improved (lined_doc ''Table'') = [py_strip (lined_doc ''Table'')]
   \<and> regex_documents (lined_doc ''Chair'' @ ''\<newline>'' @ lined_doc ''Table'') = []
   \<and> document_units (lined_doc ''Chair'' @ ''\<newline>'' @ lined_doc ''Table'') =
       [lined_doc ''Chair'', lined_doc ''Table'']"
proof -
  let ?dws = "[(bulk_doc ''Chair'', ''\<newline>''), (bulk_doc ''Table'', [])]"
  let ?ps = "[plain_doc ''Chair'', plain_doc ''Table'']"
  let ?ls = "[lined_doc ''Chair'', lined_doc ''Table'']"
  let ?bulk = "bulk_doc ''Chair'' @ ''\<newline>'' @ bulk_doc ''Table''"
  let ?plain = "plain_doc ''Chair'' @ ''\<newline>'' @ plain_doc ''Table''"
  let ?lined = "lined_doc ''Chair'' @ ''\<newline>'' @ lined_doc ''Table''"
  let ?decl = "''<?xml version='' @ [dq] @ ''1.0'' @ [dq] @ ''?>''"
  have w1: "list_all py_isspace ''\<newline>''"
    by (simp add: py_isspace_def ord_def)
  have w2: "list_all py_isspace []"
    by simp
  have h: "\<forall>(d, w) \<in> set ?dws. match_document d = Some [] \<and> list_all py_isspace w"
    using w1 by (simp add: bulk_doc_Chair bulk_doc_Table)
  have c: "concat (map (\<lambda>(d, w). d @ w) ?dws) = ?bulk"
    by simp
  have jp: "py_join ''\<newline>'' ?ps = ?plain"
    by simp
  have jl: "py_join ''\<newline>'' ?ls = ?lined"
    by simp
  have l2: "length ?dws \<le> 50" "length ?ps \<le> 50" "length ?ls \<le> 50"
    by simp_all
  have m: "map fst ?dws = [bulk_doc ''Chair'', bulk_doc ''Table'']"
    by simp
  have sp: "map py_strip ?ps = ?ps"
    by (simp add: plain_doc_strip)
  have sl: "map py_strip ?ls = ?ls"
    by (simp add: lined_doc_strip)
  note bulk = split_documents_of_declared_documents [of ?dws "[]" "[]" ?bulk, unfolded c]
  note plain = split_documents_of_declared_documents [of "[]" ?ps "plain_doc ''Chair''" ?plain,
      unfolded jp]
  note plain2 = split_documents_of_declared_documents [of "[]" ?ps "plain_doc ''Table''" ?plain,
      unfolded jp]
  note lined = split_documents_of_declared_documents [of "[]" ?ls "[]" ?lined, unfolded jl]
  from h
  have b: "split_documents ?bulk = map fst ?dws
      \<and> length (split_documents ?bulk) = length ?dws
      \<and> (length ?dws \<le> 50 \<longrightarrow> document_units ?bulk = map fst ?dws)"
    by (rule bulk [THEN conjunct1, THEN mp])
  from b have b1: "split_documents ?bulk = [bulk_doc ''Chair'', bulk_doc ''Table'']"
    unfolding m by (rule conjunct1)
  from b [THEN conjunct2, THEN conjunct2] l2(1)
  have "document_units ?bulk = map fst ?dws"
    by (rule mp)
  then have b2: "document_units ?bulk = [bulk_doc ''Chair'', bulk_doc ''Table'']"
    unfolding m .
  have b3: "regex_documents ?bulk \<noteq> []"
  proof
    assume e: "regex_documents ?bulk = []"
    from bulk have "regex_documents ?bulk = [] \<longrightarrow> split_documents ?bulk = split_by_lines_improved ?bulk"
      by (rule conjunct2 [THEN conjunct2, THEN conjunct2, THEN conjunct2, THEN conjunct2,
      THEN conjunct2])
    from this e have "split_documents ?bulk = split_by_lines_improved ?bulk"
      by (rule mp)
    moreover from e have "split_documents ?bulk = split_by_lines_improved ?bulk \<longrightarrow> False"
      using finditer_documents [OF h] unfolding c regex_documents_def by simp
    ultimately show False
      by (rule rev_mp)
  qed
  have p1: "CHR ''\<newline>'' \<notin> set (plain_doc ''Chair'')
      \<and> prefix xml_decl_start (py_strip (plain_doc ''Chair''))"
    unfolding plain_doc_strip using plain_doc_one_line(1) plain_doc_declared by (rule conjI)
  have p2: "CHR ''\<newline>'' \<notin> set (plain_doc ''Table'')
      \<and> prefix xml_decl_start (py_strip (plain_doc ''Table''))"
    unfolding plain_doc_strip using plain_doc_one_line(2) plain_doc_declared by (rule conjI)
  from plain [THEN conjunct2, THEN conjunct2, THEN conjunct2, THEN conjunct1] p1
  have q1: "prefix xml_decl_start (py_strip (hd (split_on CHR ''\<newline>'' (plain_doc ''Chair''))))
      \<and> split_by_lines_improved (plain_doc ''Chair'') = [py_strip (plain_doc ''Chair'')]"
    by (rule mp)
  from plain2 [THEN conjunct2, THEN conjunct2, THEN conjunct2, THEN conjunct1] p2
  have q2: "prefix xml_decl_start (py_strip (hd (split_on CHR ''\<newline>'' (plain_doc ''Table''))))
      \<and> split_by_lines_improved (plain_doc ''Table'') = [py_strip (plain_doc ''Table'')]"
    by (rule mp)
  from q1 q2 have hp: "\<forall>s \<in> set ?ps.
      prefix xml_decl_start (py_strip (hd (split_on CHR ''\<newline>'' s)))
      \<and> split_by_lines_improved s = [py_strip s]"
    by simp
  have rp: "regex_documents ?plain = []"
    using plain_lines_regex unfolding jp .
  from plain [THEN conjunct2, THEN conjunct2, THEN conjunct1] conjI [OF hp rp]
  have p: "split_documents ?plain = map py_strip ?ps
      \<and> length (split_documents ?plain) = length ?ps
      \<and> (length ?ps \<le> 50 \<longrightarrow> document_units ?plain = map py_strip ?ps)"
    by (rule mp)
  from p have p3: "split_documents ?plain = ?ps"
    unfolding sp by (rule conjunct1)
  from p [THEN conjunct2, THEN conjunct2] l2(2)
  have "document_units ?plain = map py_strip ?ps"
    by (rule mp)
  then have p4: "document_units ?plain = ?ps"
    unfolding sp .
  from plain have "regex_documents ?plain = [] \<longrightarrow>
      split_documents ?plain = split_by_lines_improved ?plain"
    by (rule conjunct2 [THEN conjunct2, THEN conjunct2, THEN conjunct2, THEN conjunct2,
      THEN conjunct2])
  from this rp have "split_documents ?plain = split_by_lines_improved ?plain"
    by (rule mp)
  with p3 have p5: "split_by_lines_improved ?plain = ?ps"
    by simp
  have tb: "\<forall>l \<in> set ([] @ [''<abstract>Chair</abstract>'']).
      \<not> prefix xml_decl_start (py_strip l) \<and> \<not> sublist root_open (py_strip l)
      \<and> \<not> sublist root_close (py_strip l)"
    using lined_line_facts(2) by simp
  have tn: "\<forall>l \<in> set (?decl # [] @ ''<us-patent-application>'' #
      [''<abstract>Chair</abstract>''] @ [''</us-patent-application>'']). CHR ''\<newline>'' \<notin> set l"
    by (simp add: dq_def)
  have t: "prefix xml_decl_start (py_strip ?decl)
      \<and> (\<forall>l \<in> set ([] @ [''<abstract>Chair</abstract>'']).
            \<not> prefix xml_decl_start (py_strip l) \<and> \<not> sublist root_open (py_strip l)
            \<and> \<not> sublist root_close (py_strip l))
      \<and> \<not> prefix xml_decl_start (py_strip ''<us-patent-application>'')
      \<and> sublist root_open (py_strip ''<us-patent-application>'')
      \<and> \<not> prefix xml_decl_start (py_strip ''</us-patent-application>'')
      \<and> \<not> sublist root_open (py_strip ''</us-patent-application>'')
      \<and> sublist root_close (py_strip ''</us-patent-application>'')
      \<and> (\<forall>l \<in> set (?decl # [] @ ''<us-patent-application>'' #
                [''<abstract>Chair</abstract>''] @ [''</us-patent-application>'']).
            CHR ''\<newline>'' \<notin> set l)"
    by (intro conjI) (rule lined_line_facts(1), rule tb, rule lined_line_facts(3),
      rule lined_line_facts(4), rule lined_line_facts(5), rule lined_line_facts(6),
      rule lined_line_facts(7), rule tn)
  have jt: "py_join ''\<newline>'' (?decl # [] @ ''<us-patent-application>'' #
      [''<abstract>Chair</abstract>''] @ [''</us-patent-application>'']) = lined_doc ''Chair''"
    by (simp add: lined_doc_def)
  note tagged = split_documents_of_declared_documents [where decl_line = ?decl
      and head_lines = "[]" and open_line = "''<us-patent-application>''"
      and body_lines = "[''<abstract>Chair</abstract>'']"
      and close_line = "''</us-patent-application>''", unfolded jt]
  from tagged [THEN conjunct2, THEN conjunct2, THEN conjunct2, THEN conjunct2, THEN conjunct1] t
  have "prefix xml_decl_start (py_strip (hd (split_on CHR ''\<newline>'' (lined_doc ''Chair''))))
      \<and> split_by_lines_improved (lined_doc ''Chair'') = [py_strip (lined_doc ''Chair'')]"
    by (rule mp)
  then have d1: "split_by_lines_improved (lined_doc ''Chair'') = [py_strip (lined_doc ''Chair'')]"
    by (rule conjunct2)
  have d2: "split_by_lines_improved (lined_doc ''Table'') = [py_strip (lined_doc ''Table'')]"
    unfolding lined_doc_strip by (rule lined_doc_lines)
  from d1 d2 have hl: "\<forall>s \<in> set ?ls.
      prefix xml_decl_start (py_strip (hd (split_on CHR ''\<newline>'' s)))
      \<and> split_by_lines_improved s = [py_strip s]"
    by (simp add: lined_doc_declared)
  have rl: "regex_documents ?lined = []"
    using lined_lines_regex unfolding jl .
  from lined [THEN conjunct2, THEN conjunct2, THEN conjunct1] conjI [OF hl rl]
  have l: "split_documents ?lined = map py_strip ?ls
      \<and> length (split_documents ?lined) = length ?ls
      \<and> (length ?ls \<le> 50 \<longrightarrow> document_units ?lined = map py_strip ?ls)"
    by (rule mp)
  from l [THEN conjunct2, THEN conjunct2] l2(3)
  have "document_units ?lined = map py_strip ?ls"
    by (rule mp)
  then have l4: "document_units ?lined = ?ls"
    unfolding sl .
  show ?thesis
    by (intro conjI) (rule bulk_doc_Chair, rule w1, rule bulk_doc_Table, rule w2, rule b1,
      rule b2, rule b3, rule p1 [THEN conjunct1], rule p1 [THEN conjunct2],
      rule p2 [THEN conjunct1], rule p2 [THEN conjunct2], rule rp, rule p3, rule p5, rule p4,
      rule lined_line_facts(4), rule lined_line_facts(6), rule lined_line_facts(7),
      rule lined_doc_declared, rule d1, rule lined_doc_declared, rule d2, rule rl, rule l4)
qed

end
